theory Spec2Isabelle
  imports Complex_Main
begin

section \<open>JavaScript values used by the calculator\<close>

text \<open>
  The calculator (\<^verbatim>\<open>main.js\<close>) reads the text of three input fields, parses it with
  \<^verbatim>\<open>parseFloat\<close>, converts grade points to percentages and writes text back to the page.

  A JavaScript string is a sequence of UTF-16 code units; it is modelled as a list of
  natural numbers, one per code unit. \<open>js\<close> embeds an ASCII literal.

  A JavaScript number is a binary64 value. A finite one is held as the rational it
  denotes, next to \<open>NaN\<close> and the two infinities, and every operation rounds its exact
  result to the nearest binary64 value, ties to even, with gradual underflow and overflow
  to infinity (\<open>roundNumber\<close>). The sign of zero is not held: this program cannot observe
  it (\<^verbatim>\<open>-0 >= 0\<close> is true, \<^verbatim>\<open>toFixed\<close> and \<^verbatim>\<open>toString\<close> write \<^verbatim>\<open>-0\<close> as \<^verbatim>\<open>0\<close>, and every
  divisor is a positive literal).
\<close>

type_synonym jsstring = "nat list"

definition js :: "string \<Rightarrow> jsstring" where
  "js s = map of_char s"

datatype jsnum = NaN | PosInf | NegInf | Fin rat

subsection \<open>Rounding to binary64\<close>

text \<open>The number of binary digits of a natural number.\<close>

fun bitLength :: "nat \<Rightarrow> nat" where
  "bitLength n = (if n = 0 then 0 else Suc (bitLength (n div 2)))"

declare bitLength.simps [simp del]

text \<open>For \<open>0 < x\<close>: the integer \<open>e\<close> with \<open>2 ^ e \<le> x < 2 ^ (e + 1)\<close>.\<close>

definition exponent2 :: "rat \<Rightarrow> int" where
  "exponent2 x =
     (if 1 \<le> x then int (bitLength (nat \<lfloor>x\<rfloor>)) - 1
      else - int (bitLength (nat (\<lceil>1 / x\<rceil> - 1))))"

text \<open>The nearest integer, the even one of the two when \<open>y\<close> lies half way.\<close>

definition roundHalfEven :: "rat \<Rightarrow> int" where
  "roundHalfEven y =
     (let f = \<lfloor>y\<rfloor>; d = y - of_int f in
      if d < 1 / 2 then f else if 1 / 2 < d then f + 1 else if even f then f else f + 1)"

text \<open>The spacing of the binary64 values around \<open>x\<close>: 52 binary places below its
  leading digit, and \<open>2 ^ - 1074\<close> below the smallest normal exponent \<open>- 1022\<close>.\<close>

definition ulp :: "rat \<Rightarrow> rat" where
  "ulp x = 2 powi (max (exponent2 \<bar>x\<bar>) (- 1022) - 52)"

text \<open>\<open>roundValue x\<close> is the multiple of the spacing nearest to \<open>x\<close>. \<open>roundNumber x\<close> is
  the binary64 value of \<open>x\<close>: an infinity when the rounded value reaches \<open>2 ^ 1024\<close>.\<close>

definition roundValue :: "rat \<Rightarrow> rat" where
  "roundValue x =
     (let u = ulp x;
          r = of_int (roundHalfEven (\<bar>x\<bar> / u)) * u in
      if x < 0 then - r else r)"

definition roundNumber :: "rat \<Rightarrow> jsnum" where
  "roundNumber x =
     (let r = roundValue x in
      if 2 powi 1024 \<le> \<bar>r\<bar> then (if r < 0 then NegInf else PosInf) else Fin r)"

subsection \<open>Arithmetic and comparison\<close>

fun js_neg :: "jsnum \<Rightarrow> jsnum" where
  "js_neg NaN = NaN"
| "js_neg PosInf = NegInf"
| "js_neg NegInf = PosInf"
| "js_neg (Fin a) = Fin (- a)"

fun js_add :: "jsnum \<Rightarrow> jsnum \<Rightarrow> jsnum" where
  "js_add (Fin a) (Fin b) = roundNumber (a + b)"
| "js_add NaN _ = NaN"
| "js_add _ NaN = NaN"
| "js_add PosInf NegInf = NaN"
| "js_add NegInf PosInf = NaN"
| "js_add PosInf _ = PosInf"
| "js_add _ PosInf = PosInf"
| "js_add NegInf _ = NegInf"
| "js_add _ NegInf = NegInf"

definition js_sub :: "jsnum \<Rightarrow> jsnum \<Rightarrow> jsnum" where
  "js_sub a b = js_add a (js_neg b)"

fun js_mul :: "jsnum \<Rightarrow> jsnum \<Rightarrow> jsnum" where
  "js_mul (Fin a) (Fin b) = roundNumber (a * b)"
| "js_mul NaN _ = NaN"
| "js_mul _ NaN = NaN"
| "js_mul (Fin a) PosInf = (if a = 0 then NaN else if 0 < a then PosInf else NegInf)"
| "js_mul (Fin a) NegInf = (if a = 0 then NaN else if 0 < a then NegInf else PosInf)"
| "js_mul PosInf (Fin b) = (if b = 0 then NaN else if 0 < b then PosInf else NegInf)"
| "js_mul NegInf (Fin b) = (if b = 0 then NaN else if 0 < b then NegInf else PosInf)"
| "js_mul PosInf PosInf = PosInf"
| "js_mul PosInf NegInf = NegInf"
| "js_mul NegInf PosInf = NegInf"
| "js_mul NegInf NegInf = PosInf"

text \<open>Division; a zero divisor is taken as \<open>+0\<close> (every divisor of the sources is a
  positive literal).\<close>

fun js_div :: "jsnum \<Rightarrow> jsnum \<Rightarrow> jsnum" where
  "js_div (Fin a) (Fin b) =
     (if b = 0 then (if a = 0 then NaN else if 0 < a then PosInf else NegInf)
      else roundNumber (a / b))"
| "js_div NaN _ = NaN"
| "js_div _ NaN = NaN"
| "js_div (Fin a) PosInf = Fin 0"
| "js_div (Fin a) NegInf = Fin 0"
| "js_div PosInf (Fin b) = (if 0 \<le> b then PosInf else NegInf)"
| "js_div NegInf (Fin b) = (if 0 \<le> b then NegInf else PosInf)"
| "js_div PosInf PosInf = NaN"
| "js_div PosInf NegInf = NaN"
| "js_div NegInf PosInf = NaN"
| "js_div NegInf NegInf = NaN"

definition truncate_rat :: "rat \<Rightarrow> rat" where
  "truncate_rat q = (if 0 \<le> q then of_int \<lfloor>q\<rfloor> else of_int \<lceil>q\<rceil>)"

text \<open>The remainder operator \<^verbatim>\<open>%\<close>: the result has the sign of the dividend.\<close>

fun js_rem :: "jsnum \<Rightarrow> jsnum \<Rightarrow> jsnum" where
  "js_rem (Fin n) (Fin d) =
     (if d = 0 then NaN else roundNumber (n - d * truncate_rat (n / d)))"
| "js_rem NaN _ = NaN"
| "js_rem _ NaN = NaN"
| "js_rem PosInf _ = NaN"
| "js_rem NegInf _ = NaN"
| "js_rem (Fin n) PosInf = Fin n"
| "js_rem (Fin n) NegInf = Fin n"

text \<open>\<^verbatim>\<open>a <= b\<close> and \<^verbatim>\<open>a >= b\<close>: false as soon as one operand is \<open>NaN\<close>.\<close>

fun js_le :: "jsnum \<Rightarrow> jsnum \<Rightarrow> bool" where
  "js_le (Fin a) (Fin b) = (a \<le> b)"
| "js_le NaN _ = False"
| "js_le _ NaN = False"
| "js_le NegInf _ = True"
| "js_le _ PosInf = True"
| "js_le PosInf _ = False"
| "js_le _ NegInf = False"

definition js_ge :: "jsnum \<Rightarrow> jsnum \<Rightarrow> bool" where
  "js_ge a b = js_le b a"

definition isNaN :: "jsnum \<Rightarrow> bool" where
  "isNaN x = (x = NaN)"

text \<open>\<^verbatim>\<open>Math.min\<close> of two numbers.\<close>

definition Math_min :: "jsnum \<Rightarrow> jsnum \<Rightarrow> jsnum" where
  "Math_min a b = (if isNaN a \<or> isNaN b then NaN else if js_le a b then a else b)"

subsection \<open>Reading a number from text\<close>

definition isDecimalDigit :: "nat \<Rightarrow> bool" where
  "isDecimalDigit c = (48 \<le> c \<and> c \<le> 57)"

text \<open>White space and line terminators of the language (\<^verbatim>\<open>StrWhiteSpaceChar\<close>): TAB, LF,
  VT, FF, CR, SP, NBSP, the Unicode space separators, LS, PS and the byte order mark.\<close>

definition isStrWhiteSpaceChar :: "nat \<Rightarrow> bool" where
  "isStrWhiteSpaceChar c =
     (c \<in> set [9, 10, 11, 12, 13, 32, 160, 5760, 8232, 8233, 8239, 8287, 12288, 65279]
      \<or> (8192 \<le> c \<and> c \<le> 8202))"

definition digitsValue :: "jsstring \<Rightarrow> nat" where
  "digitsValue ds = foldl (\<lambda>a c. 10 * a + (c - 48)) 0 ds"

definition pow10 :: "int \<Rightarrow> rat" where
  "pow10 e = (if 0 \<le> e then 10 ^ nat e else 1 / 10 ^ nat (- e))"

text \<open>An optional sign: \<open>True\<close> for \<^verbatim>\<open>-\<close>.\<close>

fun scanSign :: "jsstring \<Rightarrow> bool \<times> jsstring" where
  "scanSign [] = (False, [])"
| "scanSign (c # cs) =
     (if c = 45 then (True, cs) else if c = 43 then (False, cs) else (False, c # cs))"

text \<open>An optional exponent part \<^verbatim>\<open>e\<close> or \<^verbatim>\<open>E\<close>, an optional sign, at least one digit.
  Without a digit nothing is consumed.\<close>

fun scanExponent :: "jsstring \<Rightarrow> int \<times> jsstring" where
  "scanExponent [] = (0, [])"
| "scanExponent (c # cs) =
     (if c = 101 \<or> c = 69 then
        (let (neg, r) = scanSign cs; ds = takeWhile isDecimalDigit r in
         if ds = [] then (0, c # cs)
         else (if neg then - int (digitsValue ds) else int (digitsValue ds),
               dropWhile isDecimalDigit r))
      else (0, c # cs))"

text \<open>The longest prefix that is a \<^verbatim>\<open>StrUnsignedDecimalLiteral\<close>
  (\<^verbatim>\<open>Infinity\<close>, \<^verbatim>\<open>d.d e\<close>, \<^verbatim>\<open>.d e\<close> or \<^verbatim>\<open>d e\<close>), its mathematical value, not yet
  rounded, and the rest of the text.\<close>

definition scanUnsignedMV :: "jsstring \<Rightarrow> (jsnum \<times> jsstring) option" where
  "scanUnsignedMV s =
     (if take 8 s = js ''Infinity'' then Some (PosInf, drop 8 s)
      else
        let ip = takeWhile isDecimalDigit s; r1 = dropWhile isDecimalDigit s in
        if r1 \<noteq> [] \<and> hd r1 = 46 then
          (let fp = takeWhile isDecimalDigit (tl r1);
               r2 = dropWhile isDecimalDigit (tl r1) in
           if ip = [] \<and> fp = [] then None
           else
             let (e, r3) = scanExponent r2 in
             Some (Fin ((of_nat (digitsValue ip)
                         + of_nat (digitsValue fp) / 10 ^ length fp) * pow10 e), r3))
        else if ip = [] then None
        else
          let (e, r3) = scanExponent r1 in
          Some (Fin (of_nat (digitsValue ip) * pow10 e), r3))"

text \<open>The longest prefix that is a \<^verbatim>\<open>StrDecimalLiteral\<close>, an optional sign and an
  unsigned literal, with its mathematical value.\<close>

definition scanDecimalMV :: "jsstring \<Rightarrow> (jsnum \<times> jsstring) option" where
  "scanDecimalMV s =
     (let (neg, r) = scanSign s in
      case scanUnsignedMV r of
        None \<Rightarrow> None
      | Some (v, rest) \<Rightarrow> Some (if neg then js_neg v else v, rest))"

text \<open>The number value of a mathematical value. (For a literal of more than 20
  significant digits the language lets an implementation round from the first 20; the
  model rounds the exact value, as the engines do.)\<close>

definition numberOfMV :: "jsnum \<Rightarrow> jsnum" where
  "numberOfMV v = (case v of Fin q \<Rightarrow> roundNumber q | _ \<Rightarrow> v)"

text \<open>The longest prefix that is a \<^verbatim>\<open>StrDecimalLiteral\<close>, with its number value.\<close>

definition scanDecimal :: "jsstring \<Rightarrow> (jsnum \<times> jsstring) option" where
  "scanDecimal s =
     (case scanDecimalMV s of
        None \<Rightarrow> None
      | Some (v, rest) \<Rightarrow> Some (numberOfMV v, rest))"

text \<open>\<^verbatim>\<open>parseFloat\<close>: leading white space is skipped, the longest numeric prefix is
  read, whatever follows it is ignored; \<open>NaN\<close> when there is no such prefix.\<close>

definition parseFloat :: "jsstring \<Rightarrow> jsnum" where
  "parseFloat s =
     (case scanDecimal (dropWhile isStrWhiteSpaceChar s) of
        None \<Rightarrow> NaN
      | Some (v, rest) \<Rightarrow> v)"

subsection \<open>Converting text to a number\<close>

text \<open>\<^verbatim>\<open>string - 0.75\<close> converts the string with \<^verbatim>\<open>ToNumber\<close>: white space is trimmed on
  both sides, the empty text is 0, and otherwise the whole text must be a decimal literal
  or a binary, octal or hexadecimal integer literal; anything else is \<open>NaN\<close>.\<close>

definition trimString :: "jsstring \<Rightarrow> jsstring" where
  "trimString s = rev (dropWhile isStrWhiteSpaceChar (rev (dropWhile isStrWhiteSpaceChar s)))"

text \<open>The value of a digit of a non-decimal literal; 99 for any other code unit.\<close>

definition radixDigit :: "nat \<Rightarrow> nat" where
  "radixDigit c =
     (if 48 \<le> c \<and> c \<le> 57 then c - 48
      else if 97 \<le> c \<and> c \<le> 102 then c - 87
      else if 65 \<le> c \<and> c \<le> 70 then c - 55
      else 99)"

definition radixValue :: "nat \<Rightarrow> jsstring \<Rightarrow> jsnum" where
  "radixValue radix ds =
     (if ds \<noteq> [] \<and> list_all (\<lambda>c. radixDigit c < radix) ds
      then roundNumber (of_nat (foldl (\<lambda>a c. radix * a + radixDigit c) 0 ds))
      else NaN)"

definition nonDecimalLiteral :: "jsstring \<Rightarrow> jsnum" where
  "nonDecimalLiteral t =
     (if 2 \<le> length t \<and> hd t = 48 then
        (let p = hd (tl t); ds = drop 2 t in
         if p = 120 \<or> p = 88 then radixValue 16 ds
         else if p = 111 \<or> p = 79 then radixValue 8 ds
         else if p = 98 \<or> p = 66 then radixValue 2 ds
         else NaN)
      else NaN)"

definition StringToNumber :: "jsstring \<Rightarrow> jsnum" where
  "StringToNumber s =
     (let t = trimString s in
      if t = [] then Fin 0
      else
        case scanDecimal t of
          Some (v, []) \<Rightarrow> v
        | _ \<Rightarrow> nonDecimalLiteral t)"

subsection \<open>Writing a number as text\<close>

text \<open>The decimal digits of a natural number.\<close>

fun digits :: "nat \<Rightarrow> jsstring" where
  "digits n = (if n < 10 then [48 + n] else digits (n div 10) @ [48 + n mod 10])"

declare digits.simps [simp del]

definition stripTrailingZeros :: "jsstring \<Rightarrow> jsstring" where
  "stripTrailingZeros ds = rev (dropWhile (\<lambda>c. c = 48) (rev ds))"

text \<open>For \<open>0 < x < 1\<close>: how many zeros follow the decimal point before the first
  significant digit; the first argument bounds the search.\<close>

fun leadingZeros :: "nat \<Rightarrow> rat \<Rightarrow> nat" where
  "leadingZeros fuel x =
     (if fuel = 0 \<or> \<not> x * 10 < 1 then 0 else Suc (leadingZeros (fuel - 1) (x * 10)))"

declare leadingZeros.simps [simp del]

text \<open>For \<open>0 < x\<close>: the integer \<open>n\<close> with \<open>10 ^ (n - 1) \<le> x < 10 ^ n\<close>.\<close>

definition decimalExponent :: "rat \<Rightarrow> int" where
  "decimalExponent x =
     (if 1 \<le> x then int (length (digits (nat \<lfloor>x\<rfloor>)))
      else - int (leadingZeros (nat \<lfloor>1 / x\<rfloor>) x))"

text \<open>\<^verbatim>\<open>Number::toString\<close> writes the shortest digit string that reads back as the same
  number. \<open>shortestCandidate x n k\<close> looks for \<open>k\<close> digits \<open>s\<close> with
  \<open>s * 10 ^ (n - k)\<close> rounding to \<open>x\<close>: only the two neighbours of \<open>x\<close> can, and of two
  that do the closer one is taken, the even one when they are equally close.\<close>

definition shortestCandidate :: "rat \<Rightarrow> int \<Rightarrow> nat \<Rightarrow> nat option" where
  "shortestCandidate x n k =
     (let sc = pow10 (n - int k);
          lo = nat \<lfloor>x / sc\<rfloor>;
          hi = lo + 1;
          okLo = (roundNumber (of_nat lo * sc) = Fin x);
          okHi = (roundNumber (of_nat hi * sc) = Fin x);
          dLo = x - of_nat lo * sc;
          dHi = of_nat hi * sc - x in
      if okLo \<and> okHi then
        Some (if dLo < dHi then lo else if dHi < dLo then hi else if even lo then lo else hi)
      else if okLo then Some lo
      else if okHi then Some hi
      else None)"

text \<open>The first \<open>k\<close> with a candidate, and the candidate. 17 digits always denote a
  binary64 value; the rounding to the last \<open>k\<close> tried covers a value that is none.\<close>

fun findShortest :: "nat \<Rightarrow> nat \<Rightarrow> rat \<Rightarrow> int \<Rightarrow> nat \<times> nat" where
  "findShortest fuel k x n =
     (case shortestCandidate x n k of
        Some s \<Rightarrow> (s, k)
      | None \<Rightarrow>
          if fuel = 0 then (nat \<lfloor>x / pow10 (n - int k) + 1 / 2\<rfloor>, k)
          else findShortest (fuel - 1) (Suc k) x n)"

declare findShortest.simps [simp del]

text \<open>For \<open>0 < x\<close>: the digit string without trailing zeros, and the decimal exponent
  \<open>n\<close>, so that the number is \<open>0.d\<^sub>1d\<^sub>2\<dots> * 10 ^ n\<close>.\<close>

definition numberDigits :: "rat \<Rightarrow> jsstring \<times> int" where
  "numberDigits x =
     (let n = decimalExponent x;
          (s, k) = findShortest 16 1 x n;
          ds = digits s in
      (stripTrailingZeros ds, n + int (length ds) - int k))"

definition positiveToString :: "rat \<Rightarrow> jsstring" where
  "positiveToString x =
     (let (s, n) = numberDigits x; k = int (length s) in
      if k \<le> n \<and> n \<le> 21 then s @ replicate (nat (n - k)) 48
      else if 0 < n \<and> n \<le> 21 then take (nat n) s @ [46] @ drop (nat n) s
      else if - 6 < n \<and> n \<le> 0 then js ''0.'' @ replicate (nat (- n)) 48 @ s
      else
        let e = n - 1;
            es = (if e < 0 then js ''-'' else js ''+'') @ digits (nat \<bar>e\<bar>) in
        if k = 1 then s @ js ''e'' @ es
        else take 1 s @ [46] @ drop 1 s @ js ''e'' @ es)"

definition numberToString :: "jsnum \<Rightarrow> jsstring" where
  "numberToString x =
     (case x of
        NaN \<Rightarrow> js ''NaN''
      | PosInf \<Rightarrow> js ''Infinity''
      | NegInf \<Rightarrow> js ''-Infinity''
      | Fin q \<Rightarrow>
          if q = 0 then js ''0''
          else if q < 0 then js ''-'' @ positiveToString (- q)
          else positiveToString q)"

text \<open>\<^verbatim>\<open>x.toFixed(f)\<close> for \<open>f \<le> 100\<close> (the sources call it with 2 only): the integer \<open>n\<close>
  nearest to \<open>x * 10 ^ f\<close>, the larger one on a tie, written with \<open>f\<close> digits after the
  point; from \<open>10 ^ 21\<close> on the number is written as \<^verbatim>\<open>Number::toString\<close> does.\<close>

definition toFixed :: "nat \<Rightarrow> jsnum \<Rightarrow> jsstring" where
  "toFixed f x =
     (case x of
        NaN \<Rightarrow> js ''NaN''
      | PosInf \<Rightarrow> js ''Infinity''
      | NegInf \<Rightarrow> js ''-Infinity''
      | Fin q \<Rightarrow>
          (let s = (if q < 0 then js ''-'' else []); a = \<bar>q\<bar> in
           if 10 ^ 21 \<le> a then s @ numberToString (Fin a)
           else
             let n = nat \<lfloor>a * 10 ^ f + 1 / 2\<rfloor>;
                 m0 = digits n;
                 m = (if f \<noteq> 0 \<and> length m0 \<le> f
                      then replicate (f + 1 - length m0) 48 @ m0 else m0);
                 k = length m in
             s @ (if f \<noteq> 0 then take (k - f) m @ [46] @ drop (k - f) m else m)))"

section \<open>Conversion formulas\<close>

text \<open>\<^verbatim>\<open>function sgpaToPercentage(sgpa) { return (sgpa - 0.75) * 10; }\<close>\<close>

definition sgpaToPercentage :: "jsnum \<Rightarrow> jsnum" where
  "sgpaToPercentage sgpa = js_mul (js_sub sgpa (Fin 0.75)) (Fin 10)"

text \<open>\<^verbatim>\<open>function calculateYGPA(sgpaOdd, sgpaEven) { return (sgpaOdd + sgpaEven) / 2; }\<close>\<close>

definition calculateYGPA :: "jsnum \<Rightarrow> jsnum \<Rightarrow> jsnum" where
  "calculateYGPA sgpaOdd sgpaEven = js_div (js_add sgpaOdd sgpaEven) (Fin 2)"

text \<open>\<^verbatim>\<open>function ygpaToPercentage(ygpa) { return (ygpa - 0.75) * 10; }\<close>\<close>

definition ygpaToPercentage :: "jsnum \<Rightarrow> jsnum" where
  "ygpaToPercentage ygpa = js_mul (js_sub ygpa (Fin 0.75)) (Fin 10)"

text \<open>
  \<^verbatim>\<open>function isValidGPA(value) {
    const num = parseFloat(value);
    return !isNaN(num) && num >= 0 && num <= 10;
  }\<close>
\<close>

definition isValidGPA :: "jsstring \<Rightarrow> bool" where
  "isValidGPA val =
     (let num = parseFloat val in
      \<not> isNaN num \<and> js_ge num (Fin 0) \<and> js_le num (Fin 10))"

section \<open>The page\<close>

text \<open>
  The state the event handlers read and write: the text of the three input fields, the
  text and the error flags of the two calculators (an error flag is the presence of the
  class \<^verbatim>\<open>show\<close>), the two animation variables, the hue of each sphere, and the elements
  of the results page. A text, a style or an \<^verbatim>\<open>innerHTML\<close> field holds the string that
  the handler assigns; what the browser makes of it is not modelled.
\<close>

record dom =
  sgpaInput_value :: jsstring
  sgpaOdd_value :: jsstring
  sgpaEven_value :: jsstring
  sgpaPercentage_textContent :: jsstring
  sgpaError_show :: bool
  ygpaValue_textContent :: jsstring
  ygpaPercentage_textContent :: jsstring
  oddError_show :: bool
  evenError_show :: bool
  rotationSpeed :: jsnum
  scaleMultiplier :: jsnum
  sphere_hue :: "jsnum list"
  result_sgpa :: jsstring
  result_sgpa_percent :: jsstring
  result_ygpa :: jsstring
  result_ygpa_percent :: jsstring
  performance_bar_width :: jsstring
  congratulations_innerHTML :: jsstring
  performance_text :: jsstring
  performance_text_color :: jsstring

definition sphereCount :: nat where
  "sphereCount = 20"

section \<open>The two calculators\<close>

text \<open>
  \<^verbatim>\<open>updateSGPACalculation\<close>, the \<^verbatim>\<open>input\<close> handler of the single grade-point field. An
  empty field shows the placeholder without an error, an invalid one the placeholder with
  the error; both return before the animation variables are assigned.
\<close>

definition updateSGPACalculation :: "dom \<Rightarrow> dom" where
  "updateSGPACalculation d =
     (let sgpa = sgpaInput_value d in
      if sgpa = [] then
        d\<lparr>sgpaPercentage_textContent := js ''--%'', sgpaError_show := False\<rparr>
      else if \<not> isValidGPA sgpa then
        d\<lparr>sgpaError_show := True, sgpaPercentage_textContent := js ''--%''\<rparr>
      else
        let percentage = sgpaToPercentage (parseFloat sgpa) in
        d\<lparr>sgpaError_show := False,
          sgpaPercentage_textContent := toFixed 2 percentage @ js ''%'',
          rotationSpeed := js_add (roundNumber 0.005) (js_div percentage (Fin 1000)),
          scaleMultiplier := js_add (roundNumber 0.8) (js_div percentage (Fin 200))\<rparr>)"

text \<open>
  \<^verbatim>\<open>updateYGPACalculation\<close>, the \<^verbatim>\<open>input\<close> handler of the odd and even term fields.
  \<open>oddBad\<close> and \<open>evenBad\<close> are the two tests that set \<^verbatim>\<open>hasError\<close>; each also decides
  the error indicator of its own field.
\<close>

definition updateYGPACalculation :: "dom \<Rightarrow> dom" where
  "updateYGPACalculation d =
     (let oddValue = sgpaOdd_value d;
          evenValue = sgpaEven_value d;
          oddBad = (oddValue \<noteq> [] \<and> \<not> isValidGPA oddValue);
          evenBad = (evenValue \<noteq> [] \<and> \<not> isValidGPA evenValue);
          hasError = (oddBad \<or> evenBad);
          d1 = d\<lparr>oddError_show := oddBad, evenError_show := evenBad\<rparr> in
      if oddValue = [] \<or> evenValue = [] \<or> hasError then
        d1\<lparr>ygpaValue_textContent := js ''--'', ygpaPercentage_textContent := js ''--%''\<rparr>
      else
        let ygpa = calculateYGPA (parseFloat oddValue) (parseFloat evenValue);
            percentage = ygpaToPercentage ygpa in
        d1\<lparr>ygpaValue_textContent := toFixed 2 ygpa,
           ygpaPercentage_textContent := toFixed 2 percentage @ js ''%'',
           rotationSpeed := js_add (roundNumber 0.005) (js_div percentage (Fin 1000)),
           scaleMultiplier := js_add (roundNumber 0.8) (js_div percentage (Fin 200)),
           sphere_hue :=
             map (\<lambda>index.
                    js_rem (js_add (js_div ygpa (Fin 10))
                              (js_div (Fin (of_nat index)) (Fin (of_nat sphereCount))))
                      (Fin 1))
               [0..<sphereCount]\<rparr>)"

section \<open>The results page\<close>

text \<open>\<^verbatim>\<open>s.split(' ')\<close> for a one-unit separator, and \<^verbatim>\<open>parts.join('')\<close>.\<close>

fun split_on :: "nat \<Rightarrow> jsstring \<Rightarrow> jsstring list" where
  "split_on sep [] = [[]]"
| "split_on sep (c # cs) =
     (if c = sep then [] # split_on sep cs
      else (case split_on sep cs of [] \<Rightarrow> [[c]] | w # ws \<Rightarrow> (c # w) # ws))"

definition join_empty :: "jsstring list \<Rightarrow> jsstring" where
  "join_empty parts = concat parts"

text \<open>The template literal that \<^verbatim>\<open>showCongratulations\<close> assigns to \<^verbatim>\<open>innerHTML\<close>; 10 is
  the line feed.\<close>

definition congratulationsTemplate :: "jsstring \<Rightarrow> jsstring \<Rightarrow> jsnum \<Rightarrow> jsstring" where
  \<open>congratulationsTemplate message emojis percentage =
     [10] @ js ''        <div class="congratulations">''
     @ [10] @ js ''            <div>''
     @ [10] @ js ''                ''
     @ join_empty (map (\<lambda>e. js ''<span class="congratulations-emoji">'' @ e @ js ''</span>'')
                    (split_on 32 emojis))
     @ [10] @ js ''            </div>''
     @ [10] @ js ''            <h2>'' @ message @ js ''</h2>''
     @ [10] @ js ''            <p>Your performance score: <strong>''
     @ toFixed 2 percentage @ js ''%</strong></p>''
     @ [10] @ js ''            <p>Keep working hard to achieve your goals!</p>''
     @ [10] @ js ''        </div>''
     @ [10] @ js ''    ''\<close>

text \<open>
  \<^verbatim>\<open>showCongratulations\<close>. The messages and emojis are written in code units:
  55356 57119 is the glowing star, 55356 57225 the party popper, 11088 the star,
  55356 57286 the trophy, 55356 57226 the confetti ball, 10024 the sparkles,
  55357 56399 the clapping hands, 55357 56397 the thumbs up, 55357 56842 the smiling face,
  55357 56490 the flexed biceps, 55357 56520 the rising chart, 55357 56491 the dizzy
  symbol, 55357 56960 the rocket and 55356 57263 the direct hit.
\<close>

definition showCongratulations :: "jsnum \<Rightarrow> dom \<Rightarrow> dom" where
  "showCongratulations percentage d =
     (if js_ge percentage (Fin 90) then
        d\<lparr>congratulations_innerHTML :=
            congratulationsTemplate
              ([55356, 57119] @ js '' Outstanding Performance! '' @ [55356, 57119])
              ([55356, 57225] @ js '' '' @ [11088] @ js '' '' @ [55356, 57286])
              percentage\<rparr>
      else if js_ge percentage (Fin 80) then
        d\<lparr>congratulations_innerHTML :=
            congratulationsTemplate
              ([55356, 57226] @ js '' Excellent Work! '' @ [55356, 57226])
              ([55356, 57225] @ js '' '' @ [10024] @ js '' '' @ [55357, 56399])
              percentage\<rparr>
      else if js_ge percentage (Fin 70) then
        d\<lparr>congratulations_innerHTML :=
            congratulationsTemplate
              ([55357, 56397] @ js '' Great Job! '' @ [55357, 56397])
              ([55357, 56842] @ js '' '' @ [55357, 56490] @ js '' '' @ [55357, 56399])
              percentage\<rparr>
      else if js_ge percentage (Fin 60) then
        d\<lparr>congratulations_innerHTML :=
            congratulationsTemplate
              ([55357, 56520] @ js '' Good Effort! Keep Improving '' @ [55357, 56520])
              ([55357, 56491] @ js '' '' @ [55357, 56960] @ js '' '' @ [55356, 57263])
              percentage\<rparr>
      else d\<lparr>congratulations_innerHTML := []\<rparr>)"

text \<open>\<^verbatim>\<open>updatePerformanceText\<close>: the text and the colour of the performance line.\<close>

definition updatePerformanceText :: "jsnum \<Rightarrow> dom \<Rightarrow> dom" where
  "updatePerformanceText percentage d =
     (if js_ge percentage (Fin 90) then
        d\<lparr>performance_text := [11088] @ js '' Outstanding - Exceptional performance!'',
          performance_text_color := js ''#00f5ff''\<rparr>
      else if js_ge percentage (Fin 80) then
        d\<lparr>performance_text := [10024] @ js '' Excellent - Keep it up!'',
          performance_text_color := js ''#7eb3ff''\<rparr>
      else if js_ge percentage (Fin 70) then
        d\<lparr>performance_text := [55357, 56397] @ js '' Good - On the right track!'',
          performance_text_color := js ''#a8e6cf''\<rparr>
      else if js_ge percentage (Fin 60) then
        d\<lparr>performance_text := [55357, 56520] @ js '' Satisfactory - Room for improvement!'',
          performance_text_color := js ''#ffd93d''\<rparr>
      else
        d\<lparr>performance_text := [55357, 56490] @ js '' Keep pushing forward!'',
          performance_text_color := js ''#ff6b6b''\<rparr>)"

text \<open>
  \<^verbatim>\<open>updateResultsPage\<close>, called when the results page is shown. It reads the three fields
  again. A field takes part as soon as its text is not empty: \<^verbatim>\<open>isValidGPA\<close> is not called.
  \<^verbatim>\<open>sgpaValue - 0.75\<close> and \<^verbatim>\<open>ygpa - 0.75\<close> subtract from a string, which is converted with
  \<^verbatim>\<open>ToNumber\<close>; \<^verbatim>\<open>ygpa\<close> and \<^verbatim>\<open>ygpaPercent\<close> are the strings that \<^verbatim>\<open>toFixed(2)\<close> returned.
\<close>

definition updateResultsPage :: "dom \<Rightarrow> dom" where
  "updateResultsPage d =
     (let sgpaValue = sgpaInput_value d;
          oddValue = sgpaOdd_value d;
          evenValue = sgpaEven_value d;
          d1 = (if sgpaValue \<noteq> [] then
                  (let sgpaPercent =
                         toFixed 2 (js_mul (js_sub (StringToNumber sgpaValue) (Fin 0.75)) (Fin 10)) in
                   d\<lparr>result_sgpa := toFixed 2 (parseFloat sgpaValue),
                     result_sgpa_percent := sgpaPercent\<rparr>)
                else d\<lparr>result_sgpa := js ''-'', result_sgpa_percent := js ''-''\<rparr>) in
      if oddValue \<noteq> [] \<and> evenValue \<noteq> [] then
        (let ygpa = toFixed 2 (js_div (js_add (parseFloat oddValue) (parseFloat evenValue)) (Fin 2));
             ygpaPercent = toFixed 2 (js_mul (js_sub (StringToNumber ygpa) (Fin 0.75)) (Fin 10));
             performancePercent = Math_min (parseFloat ygpaPercent) (Fin 100);
             d2 = d1\<lparr>result_ygpa := ygpa,
                    result_ygpa_percent := ygpaPercent,
                    performance_bar_width := numberToString performancePercent @ js ''%''\<rparr> in
         updatePerformanceText (parseFloat ygpaPercent)
           (showCongratulations (parseFloat ygpaPercent) d2))
      else
        d1\<lparr>result_ygpa := js ''-'',
           result_ygpa_percent := js ''-'',
           performance_bar_width := js ''0%'',
           congratulations_innerHTML := [],
           performance_text := js ''Ready to calculate...''\<rparr>)"

text \<open>
  A page for the examples: the three fields empty, the animation variables at their
  initial values (\<^verbatim>\<open>let rotationSpeed = 0.005; let scaleMultiplier = 1;\<close>), sphere
  \<open>i\<close> with its initial hue \<open>i / sphereCount\<close>, and in the output elements the text that
  the handlers write for empty fields.
\<close>

definition examplePage :: dom where
  "examplePage =
     \<lparr>sgpaInput_value = [], sgpaOdd_value = [], sgpaEven_value = [],
      sgpaPercentage_textContent = js ''--%'', sgpaError_show = False,
      ygpaValue_textContent = js ''--'', ygpaPercentage_textContent = js ''--%'',
      oddError_show = False, evenError_show = False,
      rotationSpeed = roundNumber 0.005, scaleMultiplier = Fin 1,
      sphere_hue =
        map (\<lambda>i. js_div (Fin (of_nat i)) (Fin (of_nat sphereCount))) [0..<sphereCount],
      result_sgpa = js ''-'', result_sgpa_percent = js ''-'',
      result_ygpa = js ''-'', result_ygpa_percent = js ''-'',
      performance_bar_width = js ''0%'', congratulations_innerHTML = [],
      performance_text = js ''Ready to calculate...'', performance_text_color = []\<rparr>"

section \<open>Rounding to two decimals\<close>

text \<open>\<open>hundredths q\<close> is the integer \<open>n\<close> that \<^verbatim>\<open>toFixed(2)\<close> writes for \<open>q\<close>: the
  nearest number of hundredths of \<open>\<bar>q\<bar>\<close>, the larger one on a tie. \<open>round2 q\<close> is \<open>q\<close>
  rounded to two decimals in that way.\<close>

definition hundredths :: "rat \<Rightarrow> nat" where
  "hundredths q = nat \<lfloor>\<bar>q\<bar> * 100 + 1 / 2\<rfloor>"

definition round2 :: "rat \<Rightarrow> rat" where
  "round2 q = (if q < 0 then - 1 else 1) * of_int \<lfloor>\<bar>q\<bar> * 100 + 1 / 2\<rfloor> / 100"

section \<open>The core functions on any primitive value\<close>

text \<open>
  JavaScript is dynamically typed: a function accepts any value, and the operators and
  \<^verbatim>\<open>parseFloat\<close> first convert their operands. The definitions above are the functions
  at the types their callers pass (the text of a field, the number that \<^verbatim>\<open>parseFloat\<close>
  returned). To state that they never raise there, the same four functions are given here
  on every primitive value, with the conversions and the one exception these can raise: a
  \<^verbatim>\<open>TypeError\<close> for a symbol, and for a BigInt that meets a number. Objects are left
  out.
\<close>

datatype jsval =
  JSUndefined | JSNull | JSBoolean bool | JSNumber jsnum | JSString jsstring
  | JSSymbol | JSBigInt int

datatype js_error = TypeError

definition ToString :: "jsval \<Rightarrow> js_error + jsstring" where
  "ToString v =
     (case v of
        JSUndefined \<Rightarrow> Inr (js ''undefined'')
      | JSNull \<Rightarrow> Inr (js ''null'')
      | JSBoolean b \<Rightarrow> Inr (if b then js ''true'' else js ''false'')
      | JSNumber x \<Rightarrow> Inr (numberToString x)
      | JSString s \<Rightarrow> Inr s
      | JSSymbol \<Rightarrow> Inl TypeError
      | JSBigInt i \<Rightarrow> Inr ((if i < 0 then js ''-'' else []) @ digits (nat \<bar>i\<bar>)))"

definition ToNumber :: "jsval \<Rightarrow> js_error + jsnum" where
  "ToNumber v =
     (case v of
        JSUndefined \<Rightarrow> Inr NaN
      | JSNull \<Rightarrow> Inr (Fin 0)
      | JSBoolean b \<Rightarrow> Inr (if b then Fin 1 else Fin 0)
      | JSNumber x \<Rightarrow> Inr x
      | JSString s \<Rightarrow> Inr (StringToNumber s)
      | JSSymbol \<Rightarrow> Inl TypeError
      | JSBigInt i \<Rightarrow> Inl TypeError)"

text \<open>\<^verbatim>\<open>ToNumeric\<close> keeps a BigInt and converts every other value to a number.\<close>

definition ToNumeric :: "jsval \<Rightarrow> js_error + jsval" where
  "ToNumeric v =
     (case v of
        JSBigInt i \<Rightarrow> Inr (JSBigInt i)
      | _ \<Rightarrow> (case ToNumber v of Inl e \<Rightarrow> Inl e | Inr x \<Rightarrow> Inr (JSNumber x)))"

definition isString :: "jsval \<Rightarrow> bool" where
  "isString v = (case v of JSString s \<Rightarrow> True | _ \<Rightarrow> False)"

text \<open>\<^verbatim>\<open>a + b\<close>: concatenation as soon as one operand is a string, addition of two numbers
  or of two BigInts otherwise.\<close>

definition js_plus :: "jsval \<Rightarrow> jsval \<Rightarrow> js_error + jsval" where
  "js_plus a b =
     (if isString a \<or> isString b then
        (case ToString a of
           Inl e \<Rightarrow> Inl e
         | Inr s \<Rightarrow> (case ToString b of Inl e \<Rightarrow> Inl e | Inr t \<Rightarrow> Inr (JSString (s @ t))))
      else
        (case ToNumeric a of
           Inl e \<Rightarrow> Inl e
         | Inr x \<Rightarrow>
             (case ToNumeric b of
                Inl e \<Rightarrow> Inl e
              | Inr y \<Rightarrow>
                  (case (x, y) of
                     (JSNumber m, JSNumber n) \<Rightarrow> Inr (JSNumber (js_add m n))
                   | (JSBigInt i, JSBigInt j) \<Rightarrow> Inr (JSBigInt (i + j))
                   | _ \<Rightarrow> Inl TypeError))))"

text \<open>\<^verbatim>\<open>(sgpa - 0.75) * 10\<close>: the left operand of \<^verbatim>\<open>-\<close> is converted with \<^verbatim>\<open>ToNumeric\<close>, and
  a BigInt next to the number 0.75 is a \<^verbatim>\<open>TypeError\<close>, as \<open>ToNumber\<close> has it.\<close>

definition sgpaToPercentage_any :: "jsval \<Rightarrow> js_error + jsval" where
  "sgpaToPercentage_any sgpa =
     (case ToNumber sgpa of
        Inl e \<Rightarrow> Inl e
      | Inr x \<Rightarrow> Inr (JSNumber (js_mul (js_sub x (Fin 0.75)) (Fin 10))))"

definition calculateYGPA_any :: "jsval \<Rightarrow> jsval \<Rightarrow> js_error + jsval" where
  "calculateYGPA_any sgpaOdd sgpaEven =
     (case js_plus sgpaOdd sgpaEven of
        Inl e \<Rightarrow> Inl e
      | Inr s \<Rightarrow>
          (case ToNumber s of
             Inl e \<Rightarrow> Inl e
           | Inr x \<Rightarrow> Inr (JSNumber (js_div x (Fin 2)))))"

definition ygpaToPercentage_any :: "jsval \<Rightarrow> js_error + jsval" where
  "ygpaToPercentage_any ygpa =
     (case ToNumber ygpa of
        Inl e \<Rightarrow> Inl e
      | Inr x \<Rightarrow> Inr (JSNumber (js_mul (js_sub x (Fin 0.75)) (Fin 10))))"

text \<open>\<^verbatim>\<open>parseFloat(value)\<close> converts its argument with \<^verbatim>\<open>ToString\<close>.\<close>

definition isValidGPA_any :: "jsval \<Rightarrow> js_error + bool" where
  "isValidGPA_any val =
     (case ToString val of
        Inl e \<Rightarrow> Inl e
      | Inr s \<Rightarrow>
          Inr (let num = parseFloat s in
               \<not> isNaN num \<and> js_ge num (Fin 0) \<and> js_le num (Fin 10)))"


section \<open>Properties of rounding\<close>

lemma bitLength_0: "bitLength 0 = 0"
  by (simp add: bitLength.simps)

lemma bitLength_pos: "0 < n \<Longrightarrow> bitLength n = Suc (bitLength (n div 2))"
  by (subst bitLength.simps) simp

lemma bitLength_bounds: "0 < n \<Longrightarrow> 2 ^ (bitLength n - 1) \<le> n \<and> n < 2 ^ bitLength n"
proof (induction n rule: bitLength.induct)
  case (1 n)
  have b: "bitLength n = Suc (bitLength (n div 2))" using "1.prems" by (rule bitLength_pos)
  show ?case
  proof (cases "n div 2 = 0")
    case True
    then have "n = 1" using "1.prems" by (simp add: div_eq_0_iff)
    then show ?thesis by (simp add: bitLength_pos bitLength_0)
  next
    case False
    then have pos: "0 < n div 2" by simp
    then have ih: "2 ^ (bitLength (n div 2) - 1) \<le> n div 2" "n div 2 < 2 ^ bitLength (n div 2)"
      using "1.IH" "1.prems" by simp_all
    obtain j where j: "bitLength (n div 2) = Suc j"
      using bitLength_pos [OF pos] by simp
    have "2 * 2 ^ j \<le> 2 * (n div 2)" using ih(1) j by simp
    also have "\<dots> \<le> n" by simp
    finally have lo: "2 ^ Suc j \<le> n" by simp
    have "n < 2 * (n div 2) + 2" by linarith
    also have "\<dots> \<le> 2 * 2 ^ Suc j" using ih(2) j by simp
    finally have hi: "n < 2 ^ Suc (Suc j)" by simp
    show ?thesis using lo hi by (simp add: b j)
  qed
qed

lemma powi_nat: "(2::rat) powi int k = 2 ^ k"
  by (simp add: power_int_def)

lemma powi_neg_nat: "(2::rat) powi (- int k) = 1 / 2 ^ k"
  by (simp add: power_int_def field_simps)

lemma powi_pos [simp]: "0 < (2::rat) powi k"
  by simp

lemma powi_less_iff: "(2::rat) powi a < 2 powi b \<longleftrightarrow> a < b"
proof
  assume l: "(2::rat) powi a < 2 powi b"
  show "a < b"
  proof (rule ccontr)
    assume "\<not> a < b"
    then have "b \<le> a" by simp
    then have "(2::rat) powi b \<le> 2 powi a" by (intro power_int_increasing) simp_all
    then show False using l by simp
  qed
next
  assume "a < b"
  then show "(2::rat) powi a < 2 powi b" by (intro power_int_strict_increasing) simp_all
qed

lemma powi_le_iff: "(2::rat) powi a \<le> 2 powi b \<longleftrightarrow> a \<le> b"
  using powi_less_iff [of b a] by (simp add: not_less [symmetric])

lemma of_nat_pow2_le: "2 ^ j \<le> n \<Longrightarrow> (2::rat) ^ j \<le> of_nat n"
proof -
  assume "2 ^ j \<le> n"
  then have "(of_nat (2 ^ j) :: rat) \<le> of_nat n" by (simp only: of_nat_le_iff)
  then show ?thesis by (simp only: of_nat_power of_nat_numeral)
qed

lemma of_nat_less_pow2: "n < 2 ^ j \<Longrightarrow> (of_nat n + 1 :: rat) \<le> 2 ^ j"
proof -
  assume "n < 2 ^ j"
  then have "n + 1 \<le> 2 ^ j" by simp
  then have "(of_nat (n + 1) :: rat) \<le> of_nat (2 ^ j)" by (simp only: of_nat_le_iff)
  then show ?thesis by (simp only: of_nat_add of_nat_1 of_nat_power of_nat_numeral)
qed

lemma powi_add: "(2::rat) powi (a + b) = 2 powi a * 2 powi b"
  by (simp add: power_int_add)

lemma powi_Suc: "(2::rat) powi (a + 1) = 2 * 2 powi a"
  by (simp add: power_int_add)

lemma exponent2_bounds:
  assumes "0 < x"
  shows "2 powi exponent2 x \<le> x" and "x < 2 powi (exponent2 x + 1)"
proof -
  have "2 powi exponent2 x \<le> x \<and> x < 2 powi (exponent2 x + 1)"
  proof (cases "1 \<le> x")
    case True
    define n where "n = nat \<lfloor>x\<rfloor>"
    have n1: "0 < n" using True by (simp add: n_def)
    have xn: "of_nat n \<le> x" "x < of_nat n + 1"
      using True by (simp_all add: n_def) linarith
    obtain j where j: "bitLength n = Suc j" using bitLength_pos [OF n1] by simp
    have bb: "2 ^ j \<le> n" "n < 2 ^ Suc j" using bitLength_bounds [OF n1] j by simp_all
    have e: "exponent2 x = int j" using True by (simp add: exponent2_def n_def [symmetric] j)
    have "(2::rat) ^ j \<le> of_nat n" using bb(1) by (rule of_nat_pow2_le)
    then have lo: "2 powi exponent2 x \<le> x" unfolding e powi_nat using xn(1) by linarith
    have "(of_nat n + 1 :: rat) \<le> 2 ^ Suc j" using bb(2) by (rule of_nat_less_pow2)
    then have "x < 2 ^ Suc j" using xn(2) by linarith
    then have hi: "x < 2 powi (exponent2 x + 1)"
      using powi_nat [of "Suc j"] by (simp add: e add.commute)
    show ?thesis using lo hi by simp
  next
    case False
    define y where "y = 1 / x"
    have y1: "1 < y" using False assms by (simp add: y_def)
    define m where "m = nat (\<lceil>y\<rceil> - 1)"
    have c: "2 \<le> \<lceil>y\<rceil>" using y1 by linarith
    then have m1: "0 < m" by (simp add: m_def)
    have ym: "of_nat m < y" "y \<le> of_nat m + 1"
    proof -
      have "of_int (\<lceil>y\<rceil> - 1) < y" by linarith
      moreover have "y \<le> of_int \<lceil>y\<rceil>" by linarith
      moreover have "(of_nat m :: rat) = of_int (\<lceil>y\<rceil> - 1)"
        using c by (simp add: m_def)
      ultimately show "of_nat m < y" "y \<le> of_nat m + 1" by simp_all
    qed
    obtain j where j: "bitLength m = Suc j" using bitLength_pos [OF m1] by simp
    have bb: "2 ^ j \<le> m" "m < 2 ^ Suc j" using bitLength_bounds [OF m1] j by simp_all
    have e: "exponent2 x = - int (Suc j)"
      using False by (simp add: exponent2_def y_def [symmetric] m_def [symmetric] j)
    have "(of_nat m + 1 :: rat) \<le> 2 ^ Suc j" using bb(2) by (rule of_nat_less_pow2)
    then have "y \<le> 2 ^ Suc j" using ym(2) by linarith
    then have "1 / 2 ^ Suc j \<le> x"
      using assms by (simp add: y_def field_simps)
    then have lo: "2 powi exponent2 x \<le> x"
      unfolding e powi_neg_nat .
    have "(2::rat) ^ j \<le> of_nat m" using bb(1) by (rule of_nat_pow2_le)
    then have "2 ^ j < y" using ym(1) by linarith
    then have "x < 1 / 2 ^ j" using assms by (simp add: y_def field_simps)
    moreover have "exponent2 x + 1 = - int j" by (simp add: e)
    ultimately have hi: "x < 2 powi (exponent2 x + 1)" by (simp add: powi_neg_nat)
    show ?thesis using lo hi by simp
  qed
  then show "2 powi exponent2 x \<le> x" and "x < 2 powi (exponent2 x + 1)" by simp_all
qed

lemma exponent2_unique:
  assumes "2 powi k \<le> x" and "x < 2 powi (k + 1)"
  shows "exponent2 x = k"
proof -
  have x: "0 < x" using assms(1) powi_pos [of k] by linarith
  note b = exponent2_bounds [OF x]
  have "2 powi k < (2::rat) powi (exponent2 x + 1)" using assms(1) b(2) by linarith
  then have 1: "k < exponent2 x + 1" by (simp only: powi_less_iff)
  have "2 powi exponent2 x < (2::rat) powi (k + 1)" using assms(2) b(1) by linarith
  then have 2: "exponent2 x < k + 1" by (simp only: powi_less_iff)
  show ?thesis using 1 2 by simp
qed

lemma floor_rat_numeral_divide [simp]:
  "\<lfloor>numeral a / numeral b :: rat\<rfloor> = numeral a div numeral b"
  by (metis floor_divide_of_int_eq of_int_numeral)

lemma ceiling_rat_numeral_divide [simp]:
  "\<lceil>numeral a / numeral b :: rat\<rceil> = - (- numeral a div numeral b)"
  by (metis ceiling_divide_eq_div of_int_numeral)

lemmas round_eval =
  roundNumber_def roundValue_def ulp_def roundHalfEven_def exponent2_def Let_def
  bitLength_0 bitLength_pos

lemma roundHalfEven_cases: "roundHalfEven y = \<lfloor>y\<rfloor> \<or> roundHalfEven y = \<lfloor>y\<rfloor> + 1"
  by (simp add: roundHalfEven_def Let_def)

lemma roundHalfEven_error: "\<bar>of_int (roundHalfEven y) - y\<bar> \<le> 1 / 2"
proof -
  have f: "of_int \<lfloor>y\<rfloor> \<le> y" "y < of_int \<lfloor>y\<rfloor> + 1" by linarith+
  show ?thesis
  proof (cases "y - of_int \<lfloor>y\<rfloor> < 1 / 2")
    case True
    then have "roundHalfEven y = \<lfloor>y\<rfloor>" by (simp add: roundHalfEven_def Let_def)
    then show ?thesis using True f by (simp add: abs_le_iff)
  next
    case False
    show ?thesis
    proof (cases "1 / 2 < y - of_int \<lfloor>y\<rfloor>")
      case True
      then have "roundHalfEven y = \<lfloor>y\<rfloor> + 1" using False by (simp add: roundHalfEven_def Let_def)
      then show ?thesis using True f by (simp add: abs_le_iff)
    next
      case h: False
      then have d: "y - of_int \<lfloor>y\<rfloor> = 1 / 2" using False by linarith
      show ?thesis using roundHalfEven_cases [of y]
      proof
        assume "roundHalfEven y = \<lfloor>y\<rfloor>"
        then show ?thesis using d by (simp add: abs_le_iff)
      next
        assume "roundHalfEven y = \<lfloor>y\<rfloor> + 1"
        then show ?thesis using d by (simp add: abs_le_iff)
      qed
    qed
  qed
qed

lemma roundHalfEven_of_int [simp]: "roundHalfEven (of_int n) = n"
  by (simp add: roundHalfEven_def)

lemma roundHalfEven_zero [simp]: "roundHalfEven 0 = 0"
  using roundHalfEven_of_int [of 0] by simp

lemma roundHalfEven_mono:
  assumes "x \<le> y"
  shows "roundHalfEven x \<le> roundHalfEven y"
proof -
  have fm: "\<lfloor>x\<rfloor> \<le> \<lfloor>y\<rfloor>" using assms by (rule floor_mono)
  show ?thesis
  proof (cases "\<lfloor>x\<rfloor> = \<lfloor>y\<rfloor>")
    case True
    then have "x - of_int \<lfloor>x\<rfloor> \<le> y - of_int \<lfloor>y\<rfloor>" using assms by simp
    then show ?thesis using True by (auto simp add: roundHalfEven_def Let_def)
  next
    case False
    then have "\<lfloor>x\<rfloor> + 1 \<le> \<lfloor>y\<rfloor>" using fm by simp
    moreover have "roundHalfEven x \<le> \<lfloor>x\<rfloor> + 1" using roundHalfEven_cases [of x] by auto
    moreover have "\<lfloor>y\<rfloor> \<le> roundHalfEven y" using roundHalfEven_cases [of y] by auto
    ultimately show ?thesis by linarith
  qed
qed

lemma roundHalfEven_ge: "of_int n \<le> y \<Longrightarrow> n \<le> roundHalfEven y"
  using roundHalfEven_mono [of "of_int n" y] by simp

lemma roundHalfEven_le: "y \<le> of_int n \<Longrightarrow> roundHalfEven y \<le> n"
  using roundHalfEven_mono [of y "of_int n"] by simp

lemma ulp_pos [simp]: "0 < ulp x"
  by (simp add: ulp_def)

lemma ulp_nonneg [simp]: "0 \<le> ulp x"
  using ulp_pos [of x] by (rule less_imp_le)

lemma ulp_nonzero [simp]: "ulp x \<noteq> 0"
  using ulp_pos [of x] by (rule less_imp_neq [symmetric])

lemma ulp_minus [simp]: "ulp (- x) = ulp x"
  by (simp add: ulp_def)

lemma roundValue_zero [simp]: "roundValue 0 = 0"
  by (simp add: roundValue_def)

lemma roundValue_minus: "roundValue (- x) = - roundValue x"
  by (cases "x = 0") (auto simp add: roundValue_def Let_def)

lemma roundValue_nonneg: "0 \<le> x \<Longrightarrow> 0 \<le> roundValue x"
proof -
  assume x: "0 \<le> x"
  then have "of_int 0 \<le> \<bar>x\<bar> / ulp x" by simp
  then have "0 \<le> roundHalfEven (\<bar>x\<bar> / ulp x)" by (rule roundHalfEven_ge)
  then show ?thesis using x by (simp add: roundValue_def Let_def)
qed

lemma roundValue_error: "\<bar>roundValue x - x\<bar> \<le> ulp x / 2"
proof -
  define n where "n = roundHalfEven (\<bar>x\<bar> / ulp x)"
  have "\<bar>of_int n - \<bar>x\<bar> / ulp x\<bar> \<le> 1 / 2" unfolding n_def by (rule roundHalfEven_error)
  then have "\<bar>of_int n - \<bar>x\<bar> / ulp x\<bar> * ulp x \<le> 1 / 2 * ulp x"
    by (intro mult_right_mono) simp_all
  moreover have "\<bar>of_int n - \<bar>x\<bar> / ulp x\<bar> * ulp x = \<bar>of_int n * ulp x - \<bar>x\<bar>\<bar>"
  proof -
    have "\<bar>of_int n - \<bar>x\<bar> / ulp x\<bar> * ulp x = \<bar>(of_int n - \<bar>x\<bar> / ulp x) * ulp x\<bar>"
      by (simp add: abs_mult)
    also have "(of_int n - \<bar>x\<bar> / ulp x) * ulp x = of_int n * ulp x - \<bar>x\<bar>"
      using ulp_pos [of x] by (simp add: field_simps)
    finally show ?thesis .
  qed
  ultimately have e: "\<bar>of_int n * ulp x - \<bar>x\<bar>\<bar> \<le> ulp x / 2" by simp
  show ?thesis
  proof (cases "x < 0")
    case True
    then have "roundValue x - x = - (of_int n * ulp x - \<bar>x\<bar>)"
      by (simp add: roundValue_def Let_def n_def)
    then have "\<bar>roundValue x - x\<bar> = \<bar>of_int n * ulp x - \<bar>x\<bar>\<bar>"
      by (simp only: abs_minus_cancel)
    then show ?thesis using e by simp
  next
    case False
    then have "roundValue x - x = of_int n * ulp x - \<bar>x\<bar>"
      by (simp add: roundValue_def Let_def n_def)
    then show ?thesis using e by simp
  qed
qed

text \<open>A positive value and its rounding lie in the same binade.\<close>

lemma ulp_positive_arg: "0 < x \<Longrightarrow> ulp x = 2 powi (max (exponent2 x) (- 1022) - 52)"
  by (simp add: ulp_def)

lemma roundValue_positive: "0 < x \<Longrightarrow> roundValue x = of_int (roundHalfEven (x / ulp x)) * ulp x"
  by (simp add: roundValue_def Let_def)

lemma roundValue_upper:
  assumes "0 < x"
  shows "roundValue x \<le> 2 powi (max (exponent2 x) (- 1022) + 1)"
proof -
  define E where "E = max (exponent2 x) (- 1022)"
  have u: "ulp x = 2 powi (E - 52)" using assms by (simp add: ulp_positive_arg E_def)
  have "x < 2 powi (exponent2 x + 1)" using assms by (rule exponent2_bounds)
  also have "\<dots> \<le> 2 powi (E + 1)" by (simp add: powi_le_iff E_def)
  finally have "x \<le> 2 powi (E + 1)" by simp
  also have "2 powi (E + 1) = (2::rat) powi 53 * 2 powi (E - 52)"
    using powi_add [of 53 "E - 52"] by (simp add: add.commute)
  finally have "x / ulp x \<le> 2 powi 53" by (simp add: u field_simps)
  then have "x / ulp x \<le> of_int (2 ^ 53)" by simp
  then have "roundHalfEven (x / ulp x) \<le> 2 ^ 53" by (rule roundHalfEven_le)
  then have "(of_int (roundHalfEven (x / ulp x)) :: rat) \<le> of_int (2 ^ 53)"
    by (simp only: of_int_le_iff)
  then have "of_int (roundHalfEven (x / ulp x)) * ulp x \<le> of_int (2 ^ 53) * ulp x"
    by (intro mult_right_mono) simp_all
  also have "of_int (2 ^ 53) * ulp x = 2 powi (E + 1)"
    using powi_add [of 53 "E - 52"] by (simp add: u add.commute)
  finally have "of_int (roundHalfEven (x / ulp x)) * ulp x \<le> 2 powi (E + 1)" .
  then show ?thesis unfolding roundValue_positive [OF assms] E_def .
qed

lemma roundValue_lower:
  assumes "0 < x" and "- 1022 \<le> exponent2 x"
  shows "2 powi exponent2 x \<le> roundValue x"
proof -
  define e where "e = exponent2 x"
  have u: "ulp x = 2 powi (e - 52)" using assms by (simp add: ulp_positive_arg e_def max_def)
  have "(2::rat) powi e = 2 powi 52 * 2 powi (e - 52)"
    using powi_add [of 52 "e - 52"] by simp
  moreover have "2 powi e \<le> x" unfolding e_def using assms(1) by (rule exponent2_bounds)
  ultimately have "2 powi 52 \<le> x / ulp x" by (simp add: u field_simps)
  then have "of_int (2 ^ 52) \<le> x / ulp x" by simp
  then have "2 ^ 52 \<le> roundHalfEven (x / ulp x)" by (rule roundHalfEven_ge)
  then have "(of_int (2 ^ 52) :: rat) \<le> of_int (roundHalfEven (x / ulp x))"
    by (simp only: of_int_le_iff)
  then have "of_int (2 ^ 52) * ulp x \<le> of_int (roundHalfEven (x / ulp x)) * ulp x"
    by (intro mult_right_mono) simp_all
  moreover have "of_int (2 ^ 52) * ulp x = 2 powi e"
    using powi_add [of 52 "e - 52"] by (simp add: u)
  ultimately have "2 powi e \<le> of_int (roundHalfEven (x / ulp x)) * ulp x" by (simp only:)
  then show ?thesis unfolding roundValue_positive [OF assms(1)] e_def .
qed

lemma exponent2_mono:
  assumes "0 < x" and "x \<le> y"
  shows "exponent2 x \<le> exponent2 y"
proof -
  have y: "0 < y" using assms by simp
  have "2 powi exponent2 x \<le> x" using assms(1) by (rule exponent2_bounds)
  also have "x \<le> y" by fact
  also have "y < 2 powi (exponent2 y + 1)" using y by (rule exponent2_bounds)
  finally have "exponent2 x < exponent2 y + 1" by (simp only: powi_less_iff)
  then show ?thesis by simp
qed

lemma roundValue_mono_positive:
  assumes "0 < x" and "x \<le> y"
  shows "roundValue x \<le> roundValue y"
proof -
  have y: "0 < y" using assms by simp
  define Ex where "Ex = max (exponent2 x) (- 1022)"
  define Ey where "Ey = max (exponent2 y) (- 1022)"
  have le: "Ex \<le> Ey" using exponent2_mono [OF assms] by (simp add: Ex_def Ey_def)
  show ?thesis
  proof (cases "Ex = Ey")
    case True
    then have u: "ulp x = ulp y" using assms(1) y by (simp add: ulp_positive_arg Ex_def Ey_def)
    have "x / ulp y \<le> y / ulp y" using assms(2) by (simp add: divide_right_mono)
    then have "roundHalfEven (x / ulp y) \<le> roundHalfEven (y / ulp y)" by (rule roundHalfEven_mono)
    then have "(of_int (roundHalfEven (x / ulp y)) :: rat) \<le> of_int (roundHalfEven (y / ulp y))"
      by (simp only: of_int_le_iff)
    then have "of_int (roundHalfEven (x / ulp y)) * ulp y \<le> of_int (roundHalfEven (y / ulp y)) * ulp y"
      by (intro mult_right_mono) simp_all
    then show ?thesis using assms(1) y by (simp add: roundValue_positive u)
  next
    case False
    then have lt: "Ex + 1 \<le> Ey" using le by simp
    then have n: "- 1022 \<le> exponent2 y" and ey: "Ey = exponent2 y"
      by (simp_all add: Ex_def Ey_def max_def split: if_splits)
    have "roundValue x \<le> 2 powi (Ex + 1)" unfolding Ex_def using assms(1) by (rule roundValue_upper)
    also have "\<dots> \<le> 2 powi Ey" using lt by (simp only: powi_le_iff)
    also have "\<dots> \<le> roundValue y" unfolding ey using y n by (rule roundValue_lower)
    finally show ?thesis .
  qed
qed

lemma roundValue_mono:
  assumes "x \<le> y"
  shows "roundValue x \<le> roundValue y"
proof -
  consider "0 < x" | "x = 0" | "x < 0" "0 \<le> y" | "x < 0" "y < 0" by linarith
  then show ?thesis
  proof cases
    case 1
    then show ?thesis using assms by (rule roundValue_mono_positive)
  next
    case 2
    then show ?thesis using assms roundValue_nonneg [of y] by simp
  next
    case 3
    have "0 \<le> roundValue (- x)" using 3(1) by (intro roundValue_nonneg) simp
    then have "roundValue x \<le> 0" by (simp add: roundValue_minus)
    then show ?thesis using roundValue_nonneg [OF 3(2)] by linarith
  next
    case 4
    have "roundValue (- y) \<le> roundValue (- x)"
      using 4 assms by (intro roundValue_mono_positive) simp_all
    then show ?thesis by (simp add: roundValue_minus)
  qed
qed

lemma roundValue_error_bound:
  assumes "\<bar>x\<bar> \<le> 2 powi k" and "- 1022 \<le> k"
  shows "\<bar>roundValue x - x\<bar> \<le> 2 powi (k - 53)"
proof (cases "x = 0")
  case True
  then show ?thesis by simp
next
  case False
  then have p: "0 < \<bar>x\<bar>" by simp
  have "2 powi exponent2 \<bar>x\<bar> \<le> \<bar>x\<bar>" using p by (rule exponent2_bounds)
  then have "(2::rat) powi exponent2 \<bar>x\<bar> \<le> 2 powi k" using assms(1) by linarith
  then have "exponent2 \<bar>x\<bar> \<le> k" by (simp only: powi_le_iff)
  then have "max (exponent2 \<bar>x\<bar>) (- 1022) - 52 \<le> k - 52" using assms(2) by simp
  then have "ulp x \<le> 2 powi (k - 52)" unfolding ulp_def by (simp only: powi_le_iff)
  moreover have "(2::rat) powi (k - 52) = 2 * 2 powi (k - 53)"
    using powi_Suc [of "k - 53"] by simp
  ultimately have "ulp x / 2 \<le> 2 powi (k - 53)" by simp
  then show ?thesis using roundValue_error [of x] by linarith
qed

lemma roundNumber_Fin: "\<bar>roundValue x\<bar> < 2 powi 1024 \<Longrightarrow> roundNumber x = Fin (roundValue x)"
  by (simp add: roundNumber_def Let_def)

lemma roundNumber_between:
  assumes "a \<le> x" and "x \<le> b" and "roundValue a = a" and "roundValue b = b"
    and "- (2 powi 1024) < a" and "b < 2 powi 1024"
  shows "roundNumber x = Fin (roundValue x)" and "a \<le> roundValue x" and "roundValue x \<le> b"
proof -
  show 1: "a \<le> roundValue x" using roundValue_mono [OF assms(1)] assms(3) by simp
  show 2: "roundValue x \<le> b" using roundValue_mono [OF assms(2)] assms(4) by simp
  have "\<bar>roundValue x\<bar> < 2 powi 1024" using 1 2 assms(5,6) by (simp add: abs_less_iff)
  then show "roundNumber x = Fin (roundValue x)" by (rule roundNumber_Fin)
qed

lemma roundNumber_not_NaN [simp]: "roundNumber x \<noteq> NaN"
  by (simp add: roundNumber_def Let_def)

lemma roundNumber_mono:
  assumes "x \<le> y"
  shows "js_le (roundNumber x) (roundNumber y)"
proof -
  have m: "roundValue x \<le> roundValue y" using assms by (rule roundValue_mono)
  have p: "(0::rat) < 2 powi 1024" by simp
  show ?thesis
    unfolding roundNumber_def Let_def using m p
    by (auto simp add: abs_le_iff not_le abs_less_iff)
qed

lemma roundHalfEven_gt:
  assumes "of_int n + 1 / 2 < y"
  shows "n + 1 \<le> roundHalfEven y"
proof -
  have "\<bar>of_int (roundHalfEven y) - y\<bar> \<le> 1 / 2" by (rule roundHalfEven_error)
  then have "y - 1 / 2 \<le> of_int (roundHalfEven y)" by linarith
  then have "(of_int n :: rat) < of_int (roundHalfEven y)" using assms by linarith
  then have "n < roundHalfEven y" by (simp only: of_int_less_iff)
  then show ?thesis by simp
qed

lemma roundHalfEven_half:
  assumes "0 \<le> y" and "y \<le> 1 / 2"
  shows "roundHalfEven y = 0"
proof -
  have f: "\<lfloor>y\<rfloor> = 0" using assms by linarith
  show ?thesis using assms by (simp add: roundHalfEven_def Let_def f)
qed

lemma roundHalfEven_tie_even: "even n \<Longrightarrow> roundHalfEven (of_int n + 1 / 2) = n"
proof -
  assume e: "even n"
  have f: "\<lfloor>of_int n + 1 / 2 :: rat\<rfloor> = n" by linarith
  show ?thesis using e by (simp add: roundHalfEven_def Let_def f)
qed

text \<open>Below half of the smallest positive binary64 value everything rounds to zero, above
  it nothing does.\<close>

lemma roundValue_tiny:
  assumes "0 \<le> x" and "x \<le> 2 powi (- 1075)"
  shows "roundValue x = 0"
proof (cases "x = 0")
  case True
  then show ?thesis by simp
next
  case False
  then have p: "0 < x" using assms(1) by simp
  have "2 powi exponent2 x \<le> x" using p by (rule exponent2_bounds)
  then have "(2::rat) powi exponent2 x \<le> 2 powi (- 1075)" using assms(2) by linarith
  then have "exponent2 x \<le> - 1075" by (simp only: powi_le_iff)
  then have u: "ulp x = 2 powi (- 1074)" using p by (simp add: ulp_positive_arg max_def)
  have h: "(2::rat) powi (- 1074) = 2 * 2 powi (- 1075)" using powi_Suc [of "- 1075"] by simp
  have "x / ulp x \<le> 1 / 2" using assms(2) by (simp add: u h field_simps)
  moreover have "0 \<le> x / ulp x" using assms(1) by simp
  ultimately have "roundHalfEven (x / ulp x) = 0" by (intro roundHalfEven_half)
  then show ?thesis using p by (simp add: roundValue_positive)
qed

lemma roundValue_positive_result:
  assumes "2 powi (- 1075) < x"
  shows "0 < roundValue x"
proof -
  have p: "0 < x" using assms powi_pos [of "- 1075"] by linarith
  show ?thesis
  proof (cases "- 1022 \<le> exponent2 x")
    case True
    have "2 powi exponent2 x \<le> roundValue x" using p True by (rule roundValue_lower)
    then show ?thesis using powi_pos [of "exponent2 x"] by linarith
  next
    case False
    then have u: "ulp x = 2 powi (- 1074)" using p by (simp add: ulp_positive_arg max_def)
    have h: "(2::rat) powi (- 1074) = 2 * 2 powi (- 1075)" using powi_Suc [of "- 1075"] by simp
    have "1 / 2 < x / ulp x" using assms by (simp add: u h field_simps)
    then have "of_int 0 + 1 / 2 < x / ulp x" by simp
    then have "0 + 1 \<le> roundHalfEven (x / ulp x)" by (rule roundHalfEven_gt)
    then have "0 < roundHalfEven (x / ulp x)" by simp
    then have "(0::rat) < of_int (roundHalfEven (x / ulp x))" by (simp only: of_int_0_less_iff)
    then have "0 < of_int (roundHalfEven (x / ulp x)) * ulp x" by (intro mult_pos_pos) simp_all
    then show ?thesis using p by (simp add: roundValue_positive)
  qed
qed

text \<open>Around 10 the binary64 values are \<open>2 ^ - 49\<close> apart.\<close>

lemma ulp_8_16:
  assumes "8 \<le> x" and "x < 16"
  shows "ulp x = 2 powi (- 49)"
proof -
  have p: "0 < x" using assms by simp
  have "exponent2 x = 3" using assms by (intro exponent2_unique) simp_all
  then show ?thesis using p by (simp add: ulp_positive_arg)
qed

lemma roundValue_10 [simp]: "roundValue 10 = 10"
proof -
  have u: "ulp 10 = 2 powi (- 49)" by (rule ulp_8_16) simp_all
  have "(10::rat) / 2 powi (- 49) = of_int (10 * 2 ^ 49)" by simp
  then have "roundHalfEven (10 / ulp 10) = 10 * 2 ^ 49" unfolding u by (simp only: roundHalfEven_of_int)
  then show ?thesis by (simp add: roundValue_positive u)
qed

lemma roundValue_10_half: "roundValue (10 + 2 powi (- 50)) = 10"
proof -
  define x :: rat where "x = 10 + 2 powi (- 50)"
  have u: "ulp x = 2 powi (- 49)" by (rule ulp_8_16) (simp_all add: x_def)
  have "x / 2 powi (- 49) = of_int (10 * 2 ^ 49) + 1 / 2" by (simp add: x_def)
  moreover have "even (10 * 2 ^ 49 :: int)" by simp
  ultimately have "roundHalfEven (x / ulp x) = 10 * 2 ^ 49"
    unfolding u by (simp only: roundHalfEven_tie_even)
  moreover have "0 < x" by (simp add: x_def)
  ultimately show ?thesis unfolding x_def [symmetric] by (simp add: roundValue_positive u)
qed

lemma roundValue_16 [simp]: "roundValue 16 = 16"
proof -
  have "exponent2 16 = 4" by (intro exponent2_unique) simp_all
  then have u: "ulp 16 = 2 powi (- 48)" by (simp add: ulp_positive_arg)
  have "(16::rat) / 2 powi (- 48) = of_int (16 * 2 ^ 48)" by simp
  then have "roundHalfEven (16 / ulp 16) = 16 * 2 ^ 48" unfolding u by (simp only: roundHalfEven_of_int)
  then show ?thesis by (simp add: roundValue_positive u)
qed

lemma roundValue_above_10:
  assumes "10 + 2 powi (- 50) < x"
  shows "10 < roundValue x"
proof (cases "x < 16")
  case True
  have x8: "8 \<le> x" using assms powi_pos [of "- 50"] by linarith
  have p: "0 < x" using x8 by simp
  have u: "ulp x = 2 powi (- 49)" using x8 True by (rule ulp_8_16)
  have "(10 + 2 powi (- 50)) / 2 powi (- 49) < x / 2 powi (- 49)"
    using assms by (intro divide_strict_right_mono) simp_all
  moreover have "(10 + 2 powi (- 50)) / 2 powi (- 49) = (of_int (10 * 2 ^ 49) + 1 / 2 :: rat)"
    by simp
  ultimately have "of_int (10 * 2 ^ 49) + 1 / 2 < x / ulp x" by (simp only: u)
  then have "10 * 2 ^ 49 + 1 \<le> roundHalfEven (x / ulp x)" by (rule roundHalfEven_gt)
  then have "(of_int (10 * 2 ^ 49 + 1) :: rat) \<le> of_int (roundHalfEven (x / ulp x))"
    by (simp only: of_int_le_iff)
  then have "of_int (10 * 2 ^ 49 + 1) * ulp x \<le> of_int (roundHalfEven (x / ulp x)) * ulp x"
    by (intro mult_right_mono) simp_all
  moreover have "(10::rat) < of_int (10 * 2 ^ 49 + 1) * ulp x" by (simp add: u)
  ultimately have "10 < of_int (roundHalfEven (x / ulp x)) * ulp x" by linarith
  then show ?thesis unfolding roundValue_positive [OF p] .
next
  case False
  then have "roundValue 16 \<le> roundValue x" by (intro roundValue_mono) simp
  then show ?thesis by simp
qed

text \<open>The mathematical values whose binary64 value passes the test \<^verbatim>\<open>num >= 0 && num <= 10\<close>.\<close>

lemma roundNumber_in_range_iff:
  "js_ge (roundNumber m) (Fin 0) \<and> js_le (roundNumber m) (Fin 10)
   \<longleftrightarrow> - (2 powi (- 1075)) \<le> m \<and> m \<le> 10 + 2 powi (- 50)"
proof (cases "- (2 powi (- 1075)) \<le> m \<and> m \<le> 10 + 2 powi (- 50)")
  case True
  have lo: "0 \<le> roundValue m"
  proof (cases "0 \<le> m")
    case True
    then show ?thesis by (rule roundValue_nonneg)
  next
    case False
    then have "roundValue (- m) = 0" using True by (intro roundValue_tiny) simp_all
    then show ?thesis by (simp add: roundValue_minus)
  qed
  have "roundValue m \<le> roundValue (10 + 2 powi (- 50))" using True by (intro roundValue_mono) simp
  then have hi: "roundValue m \<le> 10" by (simp only: roundValue_10_half)
  have "(10::rat) < 2 powi 1024" by simp
  then have "\<bar>roundValue m\<bar> < 2 powi 1024" using lo hi by (simp add: abs_less_iff)
  then have "roundNumber m = Fin (roundValue m)" by (rule roundNumber_Fin)
  then show ?thesis using True lo hi by (simp add: js_ge_def)
next
  case False
  then consider "m < - (2 powi (- 1075))" | "10 + 2 powi (- 50) < m" by linarith
  then have "\<not> (js_ge (roundNumber m) (Fin 0) \<and> js_le (roundNumber m) (Fin 10))"
  proof cases
    case 1
    then have "0 < roundValue (- m)" by (intro roundValue_positive_result) simp
    then have "roundValue m < 0" by (simp add: roundValue_minus)
    then have "\<not> js_ge (roundNumber m) (Fin 0)"
      by (simp add: roundNumber_def Let_def js_ge_def)
    then show ?thesis by simp
  next
    case 2
    then have "10 < roundValue m" by (rule roundValue_above_10)
    then have "\<not> js_le (roundNumber m) (Fin 10)"
      by (simp add: roundNumber_def Let_def)
    then show ?thesis by simp
  qed
  then show ?thesis using False by blast
qed

section \<open>The conversion formulas on grade points\<close>

lemma roundValue_fixpoints [simp]:
  "roundValue 20 = 20" "roundValue (3 / 4) = 3 / 4" "roundValue (37 / 4) = 37 / 4"
  "roundValue (15 / 2) = 15 / 2" "roundValue (185 / 2) = 185 / 2"
  "roundValue 1 = 1" "roundValue 2 = 2"
  by (simp_all add: round_eval)

lemma roundValue_error_numeral:
  "\<bar>x\<bar> \<le> 1 / 128 \<Longrightarrow> \<bar>roundValue x - x\<bar> \<le> 1 / 2 ^ 60"
  "\<bar>x\<bar> \<le> 1 / 8 \<Longrightarrow> \<bar>roundValue x - x\<bar> \<le> 1 / 2 ^ 56"
  "\<bar>x\<bar> \<le> 1 / 2 \<Longrightarrow> \<bar>roundValue x - x\<bar> \<le> 1 / 2 ^ 54"
  "\<bar>x\<bar> \<le> 1 \<Longrightarrow> \<bar>roundValue x - x\<bar> \<le> 1 / 2 ^ 53"
  "\<bar>x\<bar> \<le> 2 \<Longrightarrow> \<bar>roundValue x - x\<bar> \<le> 1 / 2 ^ 52"
  "\<bar>x\<bar> \<le> 16 \<Longrightarrow> \<bar>roundValue x - x\<bar> \<le> 1 / 2 ^ 49"
  "\<bar>x\<bar> \<le> 32 \<Longrightarrow> \<bar>roundValue x - x\<bar> \<le> 1 / 2 ^ 48"
  "\<bar>x\<bar> \<le> 128 \<Longrightarrow> \<bar>roundValue x - x\<bar> \<le> 1 / 2 ^ 46"
  using roundValue_error_bound [of x "- 7"] roundValue_error_bound [of x "- 3"]
    roundValue_error_bound [of x "- 1"] roundValue_error_bound [of x 0]
    roundValue_error_bound [of x 1] roundValue_error_bound [of x 4]
    roundValue_error_bound [of x 5] roundValue_error_bound [of x 7]
  by simp_all

text \<open>Rounding errors add up.\<close>

lemma error_compose:
  fixes x y z d e f :: rat
  assumes "\<bar>x - y\<bar> \<le> d" and "\<bar>y - z\<bar> \<le> e" and "d + e \<le> f"
  shows "\<bar>x - z\<bar> \<le> f"
  using assms by linarith

lemma error_add:
  fixes a b c d e f :: rat
  assumes "\<bar>a - c\<bar> \<le> e" and "\<bar>b - d\<bar> \<le> f"
  shows "\<bar>(a + b) - (c + d)\<bar> \<le> e + f"
  using assms by linarith

lemma error_half:
  fixes x y d :: rat
  assumes "\<bar>x - y\<bar> \<le> d"
  shows "\<bar>x / 2 - y / 2\<bar> \<le> d / 2"
  using assms by linarith

lemma error_times_10:
  fixes x y d :: rat
  assumes "\<bar>x - y\<bar> \<le> d"
  shows "\<bar>x * 10 - y * 10\<bar> \<le> d * 10"
  using assms by linarith

lemma error_magnitude:
  fixes u v d m k :: rat
  assumes "\<bar>u - v\<bar> \<le> d" and "\<bar>v\<bar> \<le> m" and "d + m \<le> k"
  shows "\<bar>u\<bar> \<le> k"
  using assms by linarith

lemma js_sub_Fin: "js_sub (Fin a) (Fin b) = roundNumber (a - b)"
  by (simp add: js_sub_def)

lemma roundNumber_range:
  assumes "a \<le> x" and "x \<le> b" and "roundValue a = a" and "roundValue b = b"
    and "- 1000 \<le> a" and "b \<le> 1000"
  shows "roundNumber x = Fin (roundValue x)" and "a \<le> roundValue x" and "roundValue x \<le> b"
proof -
  have "- (2 powi 1024) < (- 1000 :: rat)" and "(1000::rat) < 2 powi 1024" by simp_all
  then have "- (2 powi 1024) < a" and "b < 2 powi 1024" using assms(5,6) by linarith+
  from roundNumber_between [OF assms(1-4) this]
  show "roundNumber x = Fin (roundValue x)" and "a \<le> roundValue x" and "roundValue x \<le> b"
    by simp_all
qed

lemma roundValue_minus_fixpoint: "roundValue a = a \<Longrightarrow> roundValue (- a) = - a"
  by (simp add: roundValue_minus)

text \<open>The mean of two grade points.\<close>

lemma calculateYGPA_Fin:
  assumes "0 \<le> a" and "a \<le> 10" and "0 \<le> b" and "b \<le> 10"
  shows "calculateYGPA (Fin a) (Fin b) = Fin (roundValue (roundValue (a + b) / 2))"
    and "0 \<le> roundValue (roundValue (a + b) / 2)"
    and "roundValue (roundValue (a + b) / 2) \<le> 10"
    and "\<bar>roundValue (roundValue (a + b) / 2) - (a + b) / 2\<bar> \<le> 1 / 2 ^ 48"
proof -
  define s where "s = roundValue (a + b)"
  have s: "roundNumber (a + b) = Fin s" "0 \<le> s" "s \<le> 20"
    unfolding s_def using assms by (intro roundNumber_range [of 0 _ 20]; simp)+
  have m: "roundNumber (s / 2) = Fin (roundValue (s / 2))" "0 \<le> roundValue (s / 2)"
    "roundValue (s / 2) \<le> 10"
    using s(2,3) by (intro roundNumber_range [of 0 _ 10]; simp)+
  show "calculateYGPA (Fin a) (Fin b) = Fin (roundValue (roundValue (a + b) / 2))"
    by (simp add: calculateYGPA_def s(1) m(1) s_def [symmetric])
  show "0 \<le> roundValue (roundValue (a + b) / 2)" "roundValue (roundValue (a + b) / 2) \<le> 10"
    using m(2,3) by (simp_all add: s_def)
  have "\<bar>a + b\<bar> \<le> 32" using assms by simp
  then have e1: "\<bar>s - (a + b)\<bar> \<le> 1 / 2 ^ 48" unfolding s_def by (rule roundValue_error_numeral)
  have "\<bar>s / 2\<bar> \<le> 16" using s(2,3) by simp
  then have e2: "\<bar>roundValue (s / 2) - s / 2\<bar> \<le> 1 / 2 ^ 49" by (rule roundValue_error_numeral)
  have "\<bar>roundValue (s / 2) - (a + b) / 2\<bar> \<le> 1 / 2 ^ 48"
    by (rule error_compose [OF e2 error_half [OF e1]]) simp
  then show "\<bar>roundValue (roundValue (a + b) / 2) - (a + b) / 2\<bar> \<le> 1 / 2 ^ 48"
    by (simp only: s_def)
qed

text \<open>The percentage of a grade point.\<close>

lemma percentage_Fin:
  assumes "0 \<le> g" and "g \<le> 10"
  shows "js_mul (js_sub (Fin g) (Fin 0.75)) (Fin 10)
           = Fin (roundValue (roundValue (g - 3 / 4) * 10))"
    and "- (15 / 2) \<le> roundValue (roundValue (g - 3 / 4) * 10)"
    and "roundValue (roundValue (g - 3 / 4) * 10) \<le> 185 / 2"
    and "\<bar>roundValue (roundValue (g - 3 / 4) * 10) - (g - 3 / 4) * 10\<bar> \<le> 1 / 2 ^ 44"
proof -
  define t where "t = roundValue (g - 3 / 4)"
  have f: "roundValue (- (3 / 4)) = - (3 / 4)" "roundValue (- (15 / 2)) = - (15 / 2)"
    by (simp_all add: roundValue_minus)
  have t: "roundNumber (g - 3 / 4) = Fin t" "- (3 / 4) \<le> t" "t \<le> 37 / 4"
    unfolding t_def using assms f by (intro roundNumber_range [of "- (3 / 4)" _ "37 / 4"]; simp)+
  have p: "roundNumber (t * 10) = Fin (roundValue (t * 10))" "- (15 / 2) \<le> roundValue (t * 10)"
    "roundValue (t * 10) \<le> 185 / 2"
    using t(2,3) f by (intro roundNumber_range [of "- (15 / 2)" _ "185 / 2"]; simp)+
  show "js_mul (js_sub (Fin g) (Fin 0.75)) (Fin 10)
           = Fin (roundValue (roundValue (g - 3 / 4) * 10))"
    by (simp add: js_sub_Fin t(1) p(1) t_def [symmetric])
  show "- (15 / 2) \<le> roundValue (roundValue (g - 3 / 4) * 10)"
    "roundValue (roundValue (g - 3 / 4) * 10) \<le> 185 / 2"
    using p(2,3) by (simp_all add: t_def)
  have "\<bar>g - 3 / 4\<bar> \<le> 16" using assms by (simp add: abs_le_iff)
  then have e1: "\<bar>t - (g - 3 / 4)\<bar> \<le> 1 / 2 ^ 49" unfolding t_def by (rule roundValue_error_numeral)
  have "\<bar>t * 10\<bar> \<le> 128" using t(2,3) by (simp add: abs_le_iff)
  then have e2: "\<bar>roundValue (t * 10) - t * 10\<bar> \<le> 1 / 2 ^ 46" by (rule roundValue_error_numeral)
  have "\<bar>roundValue (t * 10) - (g - 3 / 4) * 10\<bar> \<le> 1 / 2 ^ 44"
    by (rule error_compose [OF e2 error_times_10 [OF e1]]) simp
  then show "\<bar>roundValue (roundValue (g - 3 / 4) * 10) - (g - 3 / 4) * 10\<bar> \<le> 1 / 2 ^ 44"
    by (simp only: t_def)
qed

text \<open>The two animation variables of a percentage.\<close>

lemma rotationSpeed_Fin:
  assumes "- (15 / 2) \<le> p" and "p \<le> 185 / 2"
  shows "js_add (roundNumber 0.005) (js_div (Fin p) (Fin 1000))
           = Fin (roundValue (roundValue (1 / 200) + roundValue (p / 1000)))"
    and "\<bar>roundValue (roundValue (1 / 200) + roundValue (p / 1000)) - (1 / 200 + p / 1000)\<bar>
           \<le> 1 / 2 ^ 54"
proof -
  define c where "c = roundValue (1 / 200)"
  define x where "x = roundValue (p / 1000)"
  have f: "roundValue (- 1) = - 1" by (simp add: roundValue_minus)
  have c: "roundNumber (1 / 200) = Fin c" "0 \<le> c" "c \<le> 1"
    unfolding c_def by (intro roundNumber_range [of 0 _ 1]; simp)+
  have x: "roundNumber (p / 1000) = Fin x" "- 1 \<le> x" "x \<le> 1"
    unfolding x_def using assms f by (intro roundNumber_range [of "- 1" _ 1]; simp)+
  have s: "roundNumber (c + x) = Fin (roundValue (c + x))"
    using c(2,3) x(2,3) f by (intro roundNumber_range [of "- 1" _ 2]; simp)
  show "js_add (roundNumber 0.005) (js_div (Fin p) (Fin 1000))
           = Fin (roundValue (roundValue (1 / 200) + roundValue (p / 1000)))"
    by (simp add: c(1) x(1) s c_def [symmetric] x_def [symmetric])
  have "\<bar>1 / 200 :: rat\<bar> \<le> 1 / 128" by simp
  then have e1: "\<bar>c - 1 / 200\<bar> \<le> 1 / 2 ^ 60" unfolding c_def by (rule roundValue_error_numeral)
  have "\<bar>p / 1000\<bar> \<le> 1 / 8" using assms by (simp add: abs_le_iff)
  then have e2: "\<bar>x - p / 1000\<bar> \<le> 1 / 2 ^ 56" unfolding x_def by (rule roundValue_error_numeral)
  note e12 = error_add [OF e1 e2]
  have "\<bar>1 / 200 + p / 1000\<bar> \<le> 1 / 10" using assms by linarith
  with e12 have "\<bar>c + x\<bar> \<le> 1 / 8" by (rule error_magnitude) simp
  then have e3: "\<bar>roundValue (c + x) - (c + x)\<bar> \<le> 1 / 2 ^ 56" by (rule roundValue_error_numeral)
  have "\<bar>roundValue (c + x) - (1 / 200 + p / 1000)\<bar> \<le> 1 / 2 ^ 54"
    by (rule error_compose [OF e3 e12]) simp
  then show "\<bar>roundValue (roundValue (1 / 200) + roundValue (p / 1000)) - (1 / 200 + p / 1000)\<bar>
           \<le> 1 / 2 ^ 54"
    by (simp only: c_def x_def)
qed

lemma scaleMultiplier_Fin:
  assumes "- (15 / 2) \<le> p" and "p \<le> 185 / 2"
  shows "js_add (roundNumber 0.8) (js_div (Fin p) (Fin 200))
           = Fin (roundValue (roundValue (4 / 5) + roundValue (p / 200)))"
    and "\<bar>roundValue (roundValue (4 / 5) + roundValue (p / 200)) - (4 / 5 + p / 200)\<bar>
           \<le> 1 / 2 ^ 51"
proof -
  define c where "c = roundValue (4 / 5)"
  define x where "x = roundValue (p / 200)"
  have f: "roundValue (- 1) = - 1" by (simp add: roundValue_minus)
  have c: "roundNumber (4 / 5) = Fin c" "0 \<le> c" "c \<le> 1"
    unfolding c_def by (intro roundNumber_range [of 0 _ 1]; simp)+
  have x: "roundNumber (p / 200) = Fin x" "- 1 \<le> x" "x \<le> 1"
    unfolding x_def using assms f by (intro roundNumber_range [of "- 1" _ 1]; simp)+
  have s: "roundNumber (c + x) = Fin (roundValue (c + x))"
    using c(2,3) x(2,3) f by (intro roundNumber_range [of "- 1" _ 2]; simp)
  show "js_add (roundNumber 0.8) (js_div (Fin p) (Fin 200))
           = Fin (roundValue (roundValue (4 / 5) + roundValue (p / 200)))"
    by (simp add: c(1) x(1) s c_def [symmetric] x_def [symmetric])
  have "\<bar>4 / 5 :: rat\<bar> \<le> 1" by simp
  then have e1: "\<bar>c - 4 / 5\<bar> \<le> 1 / 2 ^ 53" unfolding c_def by (rule roundValue_error_numeral)
  have "\<bar>p / 200\<bar> \<le> 1 / 2" using assms by (simp add: abs_le_iff)
  then have e2: "\<bar>x - p / 200\<bar> \<le> 1 / 2 ^ 54" unfolding x_def by (rule roundValue_error_numeral)
  note e12 = error_add [OF e1 e2]
  have "\<bar>4 / 5 + p / 200\<bar> \<le> 3 / 2" using assms by linarith
  with e12 have "\<bar>c + x\<bar> \<le> 2" by (rule error_magnitude) simp
  then have e3: "\<bar>roundValue (c + x) - (c + x)\<bar> \<le> 1 / 2 ^ 52" by (rule roundValue_error_numeral)
  have "\<bar>roundValue (c + x) - (4 / 5 + p / 200)\<bar> \<le> 1 / 2 ^ 51"
    by (rule error_compose [OF e3 e12]) simp
  then show "\<bar>roundValue (roundValue (4 / 5) + roundValue (p / 200)) - (4 / 5 + p / 200)\<bar>
           \<le> 1 / 2 ^ 51"
    by (simp only: c_def x_def)
qed

lemma rotationSpeed_mono:
  assumes "p \<le> q"
  shows "roundValue (roundValue (1 / 200) + roundValue (p / 1000))
         \<le> roundValue (roundValue (1 / 200) + roundValue (q / 1000))"
proof -
  have "p / 1000 \<le> q / 1000" using assms by simp
  then have "roundValue (p / 1000) \<le> roundValue (q / 1000)" by (rule roundValue_mono)
  then show ?thesis by (intro roundValue_mono) simp
qed

lemma scaleMultiplier_mono:
  assumes "p \<le> q"
  shows "roundValue (roundValue (4 / 5) + roundValue (p / 200))
         \<le> roundValue (roundValue (4 / 5) + roundValue (q / 200))"
proof -
  have "p / 200 \<le> q / 200" using assms by simp
  then have "roundValue (p / 200) \<le> roundValue (q / 200)" by (rule roundValue_mono)
  then show ?thesis by (intro roundValue_mono) simp
qed

section \<open>Evaluation rules\<close>

lemma digits_small: "n < 10 \<Longrightarrow> digits n = [48 + n]"
  by (simp add: digits.simps)

lemma digits_large: "\<not> n < 10 \<Longrightarrow> digits n = digits (n div 10) @ [48 + n mod 10]"
  by (subst digits.simps) simp

lemmas scan_eval =
  parseFloat_def scanDecimal_def scanDecimalMV_def scanUnsignedMV_def numberOfMV_def js_def
  isStrWhiteSpaceChar_def isDecimalDigit_def digitsValue_def pow10_def

lemmas valid_eval = isValidGPA_def isNaN_def js_ge_def scan_eval round_eval

section \<open>Properties of the validator\<close>

subsection \<open>Text that starts with a number\<close>

lemma takeWhile_digits_append:
  "list_all isDecimalDigit ds \<Longrightarrow> \<not> isDecimalDigit c \<Longrightarrow>
   takeWhile isDecimalDigit (ds @ c # cs) = ds"
  by (induction ds) simp_all

lemma dropWhile_digits_append:
  "list_all isDecimalDigit ds \<Longrightarrow> \<not> isDecimalDigit c \<Longrightarrow>
   dropWhile isDecimalDigit (ds @ c # cs) = c # cs"
  by (induction ds) simp_all

lemma takeWhile_digits_all: "list_all isDecimalDigit ds \<Longrightarrow> takeWhile isDecimalDigit ds = ds"
  by (induction ds) simp_all

lemma dropWhile_digits_all: "list_all isDecimalDigit ds \<Longrightarrow> dropWhile isDecimalDigit ds = []"
  by (induction ds) simp_all

lemma scanSign_digit: "isDecimalDigit c \<Longrightarrow> scanSign (c # cs) = (False, c # cs)"
  by (simp add: isDecimalDigit_def)

lemma Infinity_hd: "take 8 s = js ''Infinity'' \<Longrightarrow> s \<noteq> [] \<and> hd s = 73"
  by (cases s) (auto simp add: js_def)

lemma scanDecimal_digits_then_other:
  assumes "ds \<noteq> []" "list_all isDecimalDigit ds"
    and "\<not> isDecimalDigit c" "c \<noteq> 46" "c \<noteq> 101" "c \<noteq> 69"
  shows "scanDecimal (ds @ c # cs) = Some (roundNumber (of_nat (digitsValue ds)), c # cs)"
proof -
  obtain x xs where ds: "ds = x # xs" using assms(1) by (cases ds) auto
  then have x: "isDecimalDigit x" using assms(2) by simp
  have tw: "takeWhile isDecimalDigit (ds @ c # cs) = ds"
    and dw: "dropWhile isDecimalDigit (ds @ c # cs) = c # cs"
    using assms by (simp_all add: takeWhile_digits_append dropWhile_digits_append)
  have ni: "take 8 (ds @ c # cs) \<noteq> js ''Infinity''"
    using Infinity_hd [of "ds @ c # cs"] x ds by (auto simp add: isDecimalDigit_def)
  have "scanUnsignedMV (ds @ c # cs) = Some (Fin (of_nat (digitsValue ds)), c # cs)"
    unfolding scanUnsignedMV_def using ni assms by (simp add: tw dw pow10_def)
  then have "scanDecimalMV (ds @ c # cs) = Some (Fin (of_nat (digitsValue ds)), c # cs)"
    unfolding scanDecimalMV_def using scanSign_digit [OF x] ds by simp
  then show ?thesis by (simp add: scanDecimal_def numberOfMV_def)
qed

lemma scanDecimal_digits_only:
  assumes "ds \<noteq> []" "list_all isDecimalDigit ds"
  shows "scanDecimal ds = Some (roundNumber (of_nat (digitsValue ds)), [])"
proof -
  obtain x xs where ds: "ds = x # xs" using assms(1) by (cases ds) auto
  then have x: "isDecimalDigit x" using assms(2) by simp
  have ni: "take 8 ds \<noteq> js ''Infinity''"
    using Infinity_hd [of ds] x ds by (auto simp add: isDecimalDigit_def)
  have "scanUnsignedMV ds = Some (Fin (of_nat (digitsValue ds)), [])"
    unfolding scanUnsignedMV_def using ni assms
    by (simp add: takeWhile_digits_all dropWhile_digits_all pow10_def)
  then have "scanDecimalMV ds = Some (Fin (of_nat (digitsValue ds)), [])"
    unfolding scanDecimalMV_def using scanSign_digit [OF x] ds by simp
  then show ?thesis by (simp add: scanDecimal_def numberOfMV_def)
qed

lemma digit_not_space: "isDecimalDigit c \<Longrightarrow> \<not> isStrWhiteSpaceChar c"
  by (auto simp add: isDecimalDigit_def isStrWhiteSpaceChar_def)

text \<open>The validator looks at the number value of the longest numeric prefix only.\<close>

lemma isValidGPA_scanDecimal:
  "isValidGPA raw =
     (case scanDecimal (dropWhile isStrWhiteSpaceChar raw) of
        None \<Rightarrow> False
      | Some (v, rest) \<Rightarrow> js_ge v (Fin 0) \<and> js_le v (Fin 10))"
proof (cases "scanDecimal (dropWhile isStrWhiteSpaceChar raw)")
  case None
  then show ?thesis by (simp add: isValidGPA_def parseFloat_def isNaN_def)
next
  case (Some r)
  then show ?thesis
    by (cases r; cases "fst r") (simp_all add: isValidGPA_def parseFloat_def isNaN_def js_ge_def)
qed

text \<open>In terms of the mathematical value of that prefix: it may lie outside \<open>[0, 10]\<close> by
  less than half the distance to the next binary64 value.\<close>

lemma isValidGPA_scanDecimalMV:
  "isValidGPA raw \<longleftrightarrow>
     (\<exists>m rest. scanDecimalMV (dropWhile isStrWhiteSpaceChar raw) = Some (Fin m, rest)
        \<and> - (2 powi (- 1075)) \<le> m \<and> m \<le> 10 + 2 powi (- 50))"
proof (cases "scanDecimalMV (dropWhile isStrWhiteSpaceChar raw)")
  case None
  then show ?thesis by (simp add: isValidGPA_scanDecimal scanDecimal_def)
next
  case (Some r)
  obtain v rest where r: "r = (v, rest)" by (cases r)
  have s: "scanDecimal (dropWhile isStrWhiteSpaceChar raw) = Some (numberOfMV v, rest)"
    using Some r by (simp add: scanDecimal_def)
  show ?thesis
  proof (cases v)
    case (Fin m)
    have "isValidGPA raw \<longleftrightarrow> js_ge (roundNumber m) (Fin 0) \<and> js_le (roundNumber m) (Fin 10)"
      by (simp add: isValidGPA_scanDecimal s Fin numberOfMV_def)
    also have "\<dots> \<longleftrightarrow> - (2 powi (- 1075)) \<le> m \<and> m \<le> 10 + 2 powi (- 50)"
      by (rule roundNumber_in_range_iff)
    finally show ?thesis using Some r Fin by simp
  next
    case NaN
    then show ?thesis using Some r by (simp add: isValidGPA_scanDecimal s numberOfMV_def js_ge_def)
  next
    case PosInf
    then show ?thesis using Some r by (simp add: isValidGPA_scanDecimal s numberOfMV_def js_ge_def)
  next
    case NegInf
    then show ?thesis using Some r by (simp add: isValidGPA_scanDecimal s numberOfMV_def js_ge_def)
  qed
qed

lemma isValidGPA_of_value:
  assumes "scanDecimalMV (dropWhile isStrWhiteSpaceChar raw) = Some (Fin m, rest)"
  shows "isValidGPA raw \<longleftrightarrow> - (2 powi (- 1075)) \<le> m \<and> m \<le> 10 + 2 powi (- 50)"
  unfolding isValidGPA_scanDecimalMV assms by blast

text \<open>
  C2. \<^verbatim>\<open>isValidGPA\<close> does not ask that the text is a number between 0 and 10. The text
  \<^verbatim>\<open>7abc\<close> is valid, and as a whole it converts to \<open>NaN\<close>. The text
  \<^verbatim>\<open>10.0000000000000001\<close> is valid, and the number it denotes is greater than 10.
\<close>

theorem isValidGPA_accepts_text_outside_range:
  "isValidGPA (js ''7abc'')
   \<and> StringToNumber (js ''7abc'') = NaN
   \<and> isValidGPA (js ''10.0000000000000001'')
   \<and> scanDecimalMV (js ''10.0000000000000001'')
       = Some (Fin (100000000000000001 / 10000000000000000), [])
   \<and> (10::rat) < 100000000000000001 / 10000000000000000"
proof -
  have 1: "isValidGPA (js ''7abc'')" by (simp add: valid_eval)
  have 2: "StringToNumber (js ''7abc'') = NaN"
    by (simp add: StringToNumber_def trimString_def nonDecimalLiteral_def scan_eval)
  have 4: "scanDecimalMV (js ''10.0000000000000001'')
       = Some (Fin (100000000000000001 / 10000000000000000), [])"
    by (simp add: scan_eval)
  have "dropWhile isStrWhiteSpaceChar (js ''10.0000000000000001'') = js ''10.0000000000000001''"
    by (simp add: js_def isStrWhiteSpaceChar_def)
  then have s: "scanDecimalMV (dropWhile isStrWhiteSpaceChar (js ''10.0000000000000001''))
       = Some (Fin (100000000000000001 / 10000000000000000), [])"
    by (simp only: 4)
  have 3: "isValidGPA (js ''10.0000000000000001'')"
    unfolding isValidGPA_of_value [OF s] by simp
  show ?thesis using 1 2 3 4 by simp
qed

text \<open>
  C2, as the code has it. \<^verbatim>\<open>isValidGPA\<close> returns true exactly when the text, after leading
  white space, starts with a decimal literal whose binary64 value lies between 0 and 10:
  the longest such prefix is read and the rest of the text is ignored. In terms of the
  mathematical value \<open>m\<close> of that prefix, exactly when
  \<open>- 2 ^ - 1075 \<le> m \<le> 10 + 2 ^ - 50\<close>; the two margins are the values that round to 0
  and to 10. \<^verbatim>\<open>Infinity\<close> is a literal and is invalid. The empty text and text that does
  not start with a number are invalid, and so are 10.01 and -0.1, while 10 is valid.
\<close>

theorem isValidGPA_iff_prefix_value_in_range:
  "(isValidGPA raw \<longleftrightarrow>
      (\<exists>m rest. scanDecimalMV (dropWhile isStrWhiteSpaceChar raw) = Some (Fin m, rest)
         \<and> - (2 powi (- 1075)) \<le> m \<and> m \<le> 10 + 2 powi (- 50)))
   \<and> (isValidGPA raw \<longleftrightarrow> (\<exists>q. parseFloat raw = Fin q \<and> 0 \<le> q \<and> q \<le> 10))
   \<and> \<not> isValidGPA (js '''')
   \<and> isValidGPA (js ''10'')
   \<and> \<not> isValidGPA (js ''10.01'')
   \<and> \<not> isValidGPA (js ''-0.1'')
   \<and> \<not> isValidGPA (js ''abc'')
   \<and> isValidGPA (js ''7abc'')
   \<and> isValidGPA (js '' 9.5 '')
   \<and> isValidGPA (js ''1e1'')
   \<and> \<not> isValidGPA (js ''1e2'')
   \<and> isValidGPA (js ''.5'')
   \<and> isValidGPA (js ''0x5'')
   \<and> \<not> isValidGPA (js ''Infinity'')
   \<and> isValidGPA (js ''10.0000000000000001'')
   \<and> \<not> isValidGPA (js ''10.000000000000001'')
   \<and> isValidGPA (js ''-1e-400'')"
proof -
  have a: "isValidGPA raw \<longleftrightarrow> (\<exists>q. parseFloat raw = Fin q \<and> 0 \<le> q \<and> q \<le> 10)"
    by (cases "parseFloat raw") (simp_all add: isValidGPA_def isNaN_def js_ge_def)
  have v: "\<not> isValidGPA (js '''')" "isValidGPA (js ''10'')" "\<not> isValidGPA (js ''10.01'')"
    "\<not> isValidGPA (js ''-0.1'')" "\<not> isValidGPA (js ''abc'')" "isValidGPA (js ''7abc'')"
    "isValidGPA (js '' 9.5 '')" "isValidGPA (js ''1e1'')" "\<not> isValidGPA (js ''1e2'')"
    "isValidGPA (js ''.5'')" "isValidGPA (js ''0x5'')" "\<not> isValidGPA (js ''Infinity'')"
    by (simp_all add: valid_eval)
  have d: "dropWhile isStrWhiteSpaceChar (js ''10.0000000000000001'') = js ''10.0000000000000001''"
    "dropWhile isStrWhiteSpaceChar (js ''10.000000000000001'') = js ''10.000000000000001''"
    "dropWhile isStrWhiteSpaceChar (js ''-1e-400'') = js ''-1e-400''"
    by (simp_all add: js_def isStrWhiteSpaceChar_def)
  have s: "scanDecimalMV (js ''10.0000000000000001'')
       = Some (Fin (100000000000000001 / 10000000000000000), [])"
    "scanDecimalMV (js ''10.000000000000001'')
       = Some (Fin (10000000000000001 / 1000000000000000), [])"
    "scanDecimalMV (js ''-1e-400'') = Some (Fin (- (1 / 10 ^ 400)), [])"
    by (simp_all add: scan_eval)
  have s': "scanDecimalMV (dropWhile isStrWhiteSpaceChar (js ''10.0000000000000001''))
       = Some (Fin (100000000000000001 / 10000000000000000), [])"
    "scanDecimalMV (dropWhile isStrWhiteSpaceChar (js ''10.000000000000001''))
       = Some (Fin (10000000000000001 / 1000000000000000), [])"
    "scanDecimalMV (dropWhile isStrWhiteSpaceChar (js ''-1e-400''))
       = Some (Fin (- (1 / 10 ^ 400)), [])"
    by (simp_all only: d s)
  have w: "isValidGPA (js ''10.0000000000000001'')" "\<not> isValidGPA (js ''10.000000000000001'')"
    "isValidGPA (js ''-1e-400'')"
    unfolding isValidGPA_of_value [OF s'(1)] isValidGPA_of_value [OF s'(2)]
      isValidGPA_of_value [OF s'(3)]
    by simp_all
  show ?thesis using isValidGPA_scanDecimalMV [of raw] a v w by blast
qed

text \<open>
  C9. Validity is decided by the numeric prefix: digits followed by any code unit that
  cannot continue the number parse and validate as the digits alone. So some text that is
  not a number is accepted, for example \<^verbatim>\<open>7abc\<close>, which parses to 7. In general the
  validator looks at the value of the longest numeric prefix, after leading white space,
  and at nothing of the rest.
\<close>

theorem isValidGPA_numeric_prefix:
  assumes "ds \<noteq> []" and "list_all isDecimalDigit ds"
    and "\<not> isDecimalDigit c" and "c \<noteq> 46" and "c \<noteq> 101" and "c \<noteq> 69"
  shows "parseFloat (ds @ c # cs) = parseFloat ds
         \<and> isValidGPA (ds @ c # cs) = isValidGPA ds
         \<and> isValidGPA (js ''7abc'')
         \<and> parseFloat (js ''7abc'') = Fin 7
         \<and> isValidGPA raw =
             (case scanDecimal (dropWhile isStrWhiteSpaceChar raw) of
                None \<Rightarrow> False
              | Some (v, rest) \<Rightarrow> js_ge v (Fin 0) \<and> js_le v (Fin 10))"
proof -
  obtain x xs where ds: "ds = x # xs" using assms(1) by (cases ds) auto
  then have x: "\<not> isStrWhiteSpaceChar x" using assms(2) by (simp add: digit_not_space)
  have "parseFloat (ds @ c # cs) = roundNumber (of_nat (digitsValue ds))"
    unfolding parseFloat_def using x ds scanDecimal_digits_then_other [OF assms, of cs] by simp
  moreover have "parseFloat ds = roundNumber (of_nat (digitsValue ds))"
    unfolding parseFloat_def using x ds scanDecimal_digits_only [OF assms(1,2)] by simp
  ultimately have p: "parseFloat (ds @ c # cs) = parseFloat ds" by simp
  then have "isValidGPA (ds @ c # cs) = isValidGPA ds" by (simp add: isValidGPA_def)
  moreover have "isValidGPA (js ''7abc'')" by (simp add: valid_eval)
  moreover have "parseFloat (js ''7abc'') = Fin 7" by (simp add: scan_eval round_eval)
  ultimately show ?thesis using p isValidGPA_scanDecimal [of raw] by blast
qed

theorem isValidGPA_numeric_prefix_witness:
  "parseFloat (js ''9'' @ 32 # js ''points'') = parseFloat (js ''9'')
   \<and> isValidGPA (js ''9'' @ 32 # js ''points'') = isValidGPA (js ''9'')"
proof -
  have "js ''9'' \<noteq> []" and "list_all isDecimalDigit (js ''9'')"
    and "\<not> isDecimalDigit 32" and "(32::nat) \<noteq> 46" and "(32::nat) \<noteq> 101" and "(32::nat) \<noteq> 69"
    by (simp_all add: js_def isDecimalDigit_def)
  from isValidGPA_numeric_prefix [OF this, of "js ''points''"]
  show ?thesis by blast
qed

section \<open>Properties of the number formats\<close>

text \<open>What \<^verbatim>\<open>toFixed(2)\<close> writes, and that converting it back gives the number rounded to two
  decimals.\<close>

lemma digits_nonempty: "digits n \<noteq> []"
  by (subst digits.simps) simp

lemma digits_all_digits: "list_all isDecimalDigit (digits n)"
proof (induction n rule: digits.induct)
  case (1 n)
  show ?case
  proof (cases "n < 10")
    case True
    then show ?thesis by (simp add: digits_small isDecimalDigit_def)
  next
    case False
    then have "list_all isDecimalDigit (digits (n div 10))" using "1" by simp
    moreover have "isDecimalDigit (48 + n mod 10)" by (simp add: isDecimalDigit_def)
    ultimately show ?thesis using False by (simp add: digits_large)
  qed
qed

lemma digitsValue_snoc: "digitsValue (ds @ [c]) = 10 * digitsValue ds + (c - 48)"
  by (simp add: digitsValue_def)

lemma digitsValue_digits: "digitsValue (digits n) = n"
proof (induction n rule: digits.induct)
  case (1 n)
  show ?case
  proof (cases "n < 10")
    case True
    then show ?thesis by (simp add: digits_small digitsValue_def)
  next
    case False
    then show ?thesis using "1" by (simp add: digits_large digitsValue_snoc)
  qed
qed

text \<open>The digits that \<open>toFixed 2\<close> writes for the integer \<open>n\<close> of hundredths.\<close>

lemma toFixed_split:
  fixes n :: nat
  defines "m0 \<equiv> digits n"
  defines "m \<equiv> (if length m0 \<le> 2 then replicate (3 - length m0) 48 @ m0 else m0)"
  shows "take (length m - 2) m @ [46] @ drop (length m - 2) m
         = digits (n div 100) @ [46, 48 + n div 10 mod 10, 48 + n mod 10]"
proof -
  consider "n < 10" | "10 \<le> n" "n < 100" | "100 \<le> n" by linarith
  then show ?thesis
  proof cases
    case 1
    then have "m0 = [48 + n]" by (simp add: m0_def digits_small)
    then show ?thesis using 1 by (simp add: m_def digits_small numeral_3_eq_3)
  next
    case 2
    then have "n div 10 < 10" by simp
    then have "m0 = [48 + n div 10, 48 + n mod 10]"
      using 2 by (simp add: m0_def digits_large digits_small)
    moreover have "n div 100 = 0" using 2 by simp
    ultimately show ?thesis using 2 by (simp add: m_def digits_small)
  next
    case 3
    then have a: "\<not> n < 10" and b: "\<not> n div 10 < 10" by simp_all
    have "n div 10 div 10 = n div 100" by (simp add: div_mult2_eq)
    then have "m0 = digits (n div 100) @ [48 + n div 10 mod 10, 48 + n mod 10]"
      using a b by (simp add: m0_def digits_large)
    then show ?thesis using digits_nonempty [of "n div 100"] by (simp add: m_def)
  qed
qed

lemma toFixed_2_Fin:
  assumes "\<bar>q\<bar> < 10 ^ 21"
  shows "toFixed 2 (Fin q) =
         (if q < 0 then [45] else []) @ digits (hundredths q div 100)
         @ [46, 48 + hundredths q div 10 mod 10, 48 + hundredths q mod 10]"
proof -
  define n where "n = nat \<lfloor>\<bar>q\<bar> * 10 ^ 2 + 1 / 2\<rfloor>"
  have h: "hundredths q = n" by (simp add: hundredths_def n_def)
  have big: "\<not> 10 ^ 21 \<le> \<bar>q\<bar>" using assms by simp
  have "toFixed 2 (Fin q) =
        (if q < 0 then js ''-'' else []) @
        (let m0 = digits n;
             m = (if length m0 \<le> 2 then replicate (3 - length m0) 48 @ m0 else m0) in
         take (length m - 2) m @ [46] @ drop (length m - 2) m)"
    unfolding toFixed_def jsnum.case Let_def n_def [symmetric] using big
    by (simp add: numeral_3_eq_3 del: append.simps)
  also have "\<dots> = (if q < 0 then [45] else []) @ digits (n div 100)
         @ [46, 48 + n div 10 mod 10, 48 + n mod 10]"
    using toFixed_split [of n] by (simp add: Let_def js_def)
  finally show ?thesis by (simp add: h)
qed

lemma toFixed_2_length: "\<bar>q\<bar> < 10 ^ 21 \<Longrightarrow> 4 \<le> length (toFixed 2 (Fin q))"
  using digits_nonempty [of "hundredths q div 100"]
  by (cases "digits (hundredths q div 100)") (simp_all add: toFixed_2_Fin)

lemma parseFloat_empty: "parseFloat [] = NaN"
  by (simp add: scan_eval)

lemma isValidGPA_nonempty: "isValidGPA s \<Longrightarrow> s \<noteq> []"
  by (auto simp add: isValidGPA_def parseFloat_empty isNaN_def)

lemma isValidGPA_Fin: "isValidGPA s \<Longrightarrow> \<exists>q. parseFloat s = Fin q \<and> 0 \<le> q \<and> q \<le> 10"
  by (cases "parseFloat s") (simp_all add: isValidGPA_def isNaN_def js_ge_def)

lemma dropWhile_hd: "xs \<noteq> [] \<Longrightarrow> \<not> P (hd xs) \<Longrightarrow> dropWhile P xs = xs"
  by (cases xs) simp_all

lemma trimString_id:
  assumes "s \<noteq> []" "\<not> isStrWhiteSpaceChar (hd s)" "\<not> isStrWhiteSpaceChar (last s)"
  shows "trimString s = s"
proof -
  have a: "dropWhile isStrWhiteSpaceChar s = s" using assms(1,2) by (rule dropWhile_hd)
  have "rev s \<noteq> []" "\<not> isStrWhiteSpaceChar (hd (rev s))"
    using assms(1,3) by (simp_all add: hd_rev)
  then have "dropWhile isStrWhiteSpaceChar (rev s) = rev s" by (rule dropWhile_hd)
  then show ?thesis by (simp add: trimString_def a)
qed

lemma hundredths_split:
  "of_nat (n div 100) + of_nat (10 * (n div 10 mod 10) + n mod 10) / (100::rat) = of_nat n / 100"
proof -
  have m: "10 * (n div 10 mod 10) + n mod 10 = n mod 100"
    using mod_mult2_eq [of n 10 10] by simp
  have "(of_nat n :: rat) = of_nat (n div 100 * 100 + n mod 100)" by simp
  also have "\<dots> = of_nat (n div 100) * 100 + of_nat (n mod 100)"
    by (simp only: of_nat_add of_nat_mult of_nat_numeral)
  finally show ?thesis unfolding m by (simp add: field_simps)
qed

lemma scanUnsignedMV_fixed:
  fixes n :: nat
  defines "body \<equiv> digits (n div 100) @ [46, 48 + n div 10 mod 10, 48 + n mod 10]"
  shows "scanUnsignedMV body = Some (Fin (of_nat n / 100), [])"
proof -
  have d1: "isDecimalDigit (48 + n div 10 mod 10)" and d0: "isDecimalDigit (48 + n mod 10)"
    by (simp_all add: isDecimalDigit_def)
  have dot: "\<not> isDecimalDigit 46" by (simp add: isDecimalDigit_def)
  have ip: "takeWhile isDecimalDigit body = digits (n div 100)"
    and r1: "dropWhile isDecimalDigit body = [46, 48 + n div 10 mod 10, 48 + n mod 10]"
    unfolding body_def
    by (simp_all add: takeWhile_digits_append dropWhile_digits_append digits_all_digits dot)
  obtain x xs where ds: "digits (n div 100) = x # xs"
    using digits_nonempty [of "n div 100"] by (cases "digits (n div 100)") auto
  then have "isDecimalDigit x" using digits_all_digits [of "n div 100"] by simp
  then have ni: "take 8 body \<noteq> js ''Infinity''"
    using Infinity_hd [of body] ds by (auto simp add: body_def isDecimalDigit_def)
  have v: "digitsValue [48 + n div 10 mod 10, 48 + n mod 10] = 10 * (n div 10 mod 10) + n mod 10"
    by (simp add: digitsValue_def)
  show ?thesis
    unfolding scanUnsignedMV_def ip r1 using ni d1 d0 digits_nonempty [of "n div 100"]
    by (simp add: v digitsValue_digits pow10_def hundredths_split del: of_nat_add of_nat_mult)
qed

lemma StringToNumber_toFixed_2:
  assumes "\<bar>q\<bar> < 10 ^ 21"
  shows "StringToNumber (toFixed 2 (Fin q)) = roundNumber (round2 q)"
proof -
  define n where "n = hundredths q"
  define body where "body = digits (n div 100) @ [46, 48 + n div 10 mod 10, 48 + n mod 10]"
  have tf: "toFixed 2 (Fin q) = (if q < 0 then [45] else []) @ body"
    using toFixed_2_Fin [OF assms] by (simp add: n_def body_def)
  have su: "scanUnsignedMV body = Some (Fin (of_nat n / 100), [])"
    unfolding body_def by (rule scanUnsignedMV_fixed)
  obtain x xs where ds: "digits (n div 100) = x # xs"
    using digits_nonempty [of "n div 100"] by (cases "digits (n div 100)") auto
  then have x: "isDecimalDigit x" using digits_all_digits [of "n div 100"] by simp
  have bx: "body = x # xs @ [46, 48 + n div 10 mod 10, 48 + n mod 10]"
    by (simp add: body_def ds)
  have lastd: "isDecimalDigit (last body)" by (simp add: body_def isDecimalDigit_def)
  have r: "of_nat n = (of_int \<lfloor>\<bar>q\<bar> * 100 + 1 / 2\<rfloor> :: rat)"
  proof -
    have "0 \<le> \<lfloor>\<bar>q\<bar> * 100 + 1 / 2\<rfloor>" by simp
    then show ?thesis by (simp add: n_def hundredths_def)
  qed
  have nl: "\<not> isStrWhiteSpaceChar (last body)" using lastd by (rule digit_not_space)
  have nx: "\<not> isStrWhiteSpaceChar x" using x by (rule digit_not_space)
  have nm: "\<not> isStrWhiteSpaceChar 45" by (simp add: isStrWhiteSpaceChar_def)
  have bne: "body \<noteq> []" using bx by simp
  show ?thesis
  proof (cases "q < 0")
    case True
    have "last (45 # body) = last body" using bne by simp
    then have t: "trimString (45 # body) = 45 # body"
      using nl nm by (intro trimString_id) simp_all
    have "scanDecimalMV (45 # body) = Some (Fin (- (of_nat n / 100)), [])"
      by (simp add: scanDecimalMV_def su)
    then have "scanDecimal (45 # body) = Some (roundNumber (- (of_nat n / 100)), [])"
      by (simp add: scanDecimal_def numberOfMV_def)
    then show ?thesis using True by (simp add: StringToNumber_def tf t round2_def r)
  next
    case False
    have "hd body = x" using bx by simp
    then have t: "trimString body = body"
      using nl nx bne by (intro trimString_id) simp_all
    have "scanSign body = (False, body)" using scanSign_digit [OF x] bx by simp
    then have "scanDecimalMV body = Some (Fin (of_nat n / 100), [])"
      by (simp add: scanDecimalMV_def su)
    then have "scanDecimal body = Some (roundNumber (of_nat n / 100), [])"
      by (simp add: scanDecimal_def numberOfMV_def)
    then show ?thesis using False bne by (simp add: StringToNumber_def tf t round2_def r)
  qed
qed

section \<open>Properties of the conversion formulas\<close>

lemma js_add_commute: "js_add a b = js_add b a"
  by (cases a; cases b) (simp_all add: add.commute)

text \<open>
  C3. The conversions do not return \<open>(g - 0.75) * 10\<close> exactly. \<^verbatim>\<open>8.13\<close> parses to a
  binary64 grade point \<open>g\<close> between 0 and 10, and for it the conversion returns the
  binary64 value that is written 73.80000000000001: this is not \<open>(g - 0.75) * 10\<close>, and
  not the binary64 value nearest to 73.8 either.
\<close>

theorem gradeToPercentage_not_exact:
  "parseFloat (js ''8.13'') = Fin (4576783121315267 / 562949953421312)
   \<and> isValidGPA (js ''8.13'')
   \<and> sgpaToPercentage (Fin (4576783121315267 / 562949953421312))
       = Fin (1298303330077901 / 17592186044416)
   \<and> (1298303330077901 / 17592186044416 :: rat)
       \<noteq> (4576783121315267 / 562949953421312 - 0.75) * 10
   \<and> roundNumber 73.8 = Fin (5193213320311603 / 70368744177664)"
proof -
  have 1: "parseFloat (js ''8.13'') = Fin (4576783121315267 / 562949953421312)"
    by (simp add: scan_eval round_eval)
  have 2: "isValidGPA (js ''8.13'')"
    by (simp add: isValidGPA_def 1 isNaN_def js_ge_def)
  have 3: "sgpaToPercentage (Fin (4576783121315267 / 562949953421312))
       = Fin (1298303330077901 / 17592186044416)"
    by (simp add: sgpaToPercentage_def js_sub_def round_eval)
  have 4: "(1298303330077901 / 17592186044416 :: rat)
       \<noteq> (4576783121315267 / 562949953421312 - 0.75) * 10"
    by simp
  have 5: "roundNumber 73.8 = Fin (5193213320311603 / 70368744177664)"
    by (simp add: round_eval)
  show ?thesis using 1 2 3 4 5 by blast
qed

text \<open>
  C3, as the code has it. For every grade point \<open>g\<close> between 0 and 10 both conversions
  return the same finite number: \<open>g - 0.75\<close> rounded to binary64, times 10, rounded again.
  It differs from \<open>(g - 0.75) * 10\<close> by at most \<open>2 ^ - 44\<close> and lies between -7.5 and
  92.5. Nothing is clamped to \<open>[0, 100]\<close>: 10 gives 92.5 and 0 gives -7.5, both exactly.
\<close>

theorem gradeToPercentage_rounded:
  assumes "0 \<le> g" and "g \<le> 10"
  shows "sgpaToPercentage (Fin g) = Fin (roundValue (roundValue (g - 0.75) * 10))
    \<and> ygpaToPercentage (Fin g) = Fin (roundValue (roundValue (g - 0.75) * 10))
    \<and> \<bar>roundValue (roundValue (g - 0.75) * 10) - (g - 0.75) * 10\<bar> \<le> 1 / 2 ^ 44
    \<and> - 7.5 \<le> roundValue (roundValue (g - 0.75) * 10)
    \<and> roundValue (roundValue (g - 0.75) * 10) \<le> 92.5
    \<and> sgpaToPercentage (Fin 10) = Fin 92.5
    \<and> sgpaToPercentage (Fin 0) = Fin (- 7.5)
    \<and> ygpaToPercentage (Fin 10) = Fin 92.5
    \<and> ygpaToPercentage (Fin 0) = Fin (- 7.5)"
proof -
  note p = percentage_Fin [OF assms]
  have 1: "sgpaToPercentage (Fin g) = Fin (roundValue (roundValue (g - 0.75) * 10))"
    using p(1) by (simp add: sgpaToPercentage_def)
  have 2: "ygpaToPercentage (Fin g) = Fin (roundValue (roundValue (g - 0.75) * 10))"
    using p(1) by (simp add: ygpaToPercentage_def)
  have 3: "\<bar>roundValue (roundValue (g - 0.75) * 10) - (g - 0.75) * 10\<bar> \<le> 1 / 2 ^ 44"
    using p(4) by simp
  have 4: "- 7.5 \<le> roundValue (roundValue (g - 0.75) * 10)"
    "roundValue (roundValue (g - 0.75) * 10) \<le> 92.5"
    using p(2,3) by simp_all
  have 5: "sgpaToPercentage (Fin 10) = Fin 92.5" "sgpaToPercentage (Fin 0) = Fin (- 7.5)"
    "ygpaToPercentage (Fin 10) = Fin 92.5" "ygpaToPercentage (Fin 0) = Fin (- 7.5)"
    by (simp_all add: sgpaToPercentage_def ygpaToPercentage_def js_sub_def round_eval)
  show ?thesis using 1 2 3 4 5 by blast
qed

theorem gradeToPercentage_rounded_witness:
  "sgpaToPercentage (Fin (4576783121315267 / 562949953421312))
     = Fin (roundValue (roundValue (4576783121315267 / 562949953421312 - 0.75) * 10))
   \<and> roundValue (roundValue (4576783121315267 / 562949953421312 - 0.75) * 10)
     = 1298303330077901 / 17592186044416
   \<and> \<bar>roundValue (roundValue (4576783121315267 / 562949953421312 - 0.75) * 10)
        - (4576783121315267 / 562949953421312 - 0.75) * 10\<bar> \<le> 1 / 2 ^ 44"
proof -
  have "(0::rat) \<le> 4576783121315267 / 562949953421312"
    and "(4576783121315267 / 562949953421312 :: rat) \<le> 10"
    by simp_all
  note t = gradeToPercentage_rounded [OF this]
  have "roundValue (roundValue (4576783121315267 / 562949953421312 - 0.75) * 10)
     = 1298303330077901 / 17592186044416"
    by (simp add: round_eval)
  then show ?thesis using t by blast
qed

text \<open>
  C7. The yearly grade point is not the exact mean. \<^verbatim>\<open>0.1\<close> and \<^verbatim>\<open>0.2\<close> are valid and
  parse to binary64 grade points \<open>a\<close> and \<open>b\<close>; for them \<^verbatim>\<open>calculateYGPA\<close> returns the
  binary64 value that is written 0.15000000000000002, which is not \<open>(a + b) / 2\<close>.
\<close>

theorem calculateYGPA_not_exact_mean:
  "isValidGPA (js ''0.1'') \<and> isValidGPA (js ''0.2'')
   \<and> parseFloat (js ''0.1'') = Fin (3602879701896397 / 36028797018963968)
   \<and> parseFloat (js ''0.2'') = Fin (3602879701896397 / 18014398509481984)
   \<and> calculateYGPA (Fin (3602879701896397 / 36028797018963968))
        (Fin (3602879701896397 / 18014398509481984))
       = Fin (1351079888211149 / 9007199254740992)
   \<and> (1351079888211149 / 9007199254740992 :: rat)
       \<noteq> (3602879701896397 / 36028797018963968 + 3602879701896397 / 18014398509481984) / 2"
proof -
  have 1: "parseFloat (js ''0.1'') = Fin (3602879701896397 / 36028797018963968)"
    "parseFloat (js ''0.2'') = Fin (3602879701896397 / 18014398509481984)"
    by (simp_all add: scan_eval round_eval)
  have 2: "isValidGPA (js ''0.1'')" "isValidGPA (js ''0.2'')"
    by (simp_all add: isValidGPA_def 1 isNaN_def js_ge_def)
  have 3: "calculateYGPA (Fin (3602879701896397 / 36028797018963968))
        (Fin (3602879701896397 / 18014398509481984))
       = Fin (1351079888211149 / 9007199254740992)"
    by (simp add: calculateYGPA_def round_eval)
  have 4: "(1351079888211149 / 9007199254740992 :: rat)
       \<noteq> (3602879701896397 / 36028797018963968 + 3602879701896397 / 18014398509481984) / 2"
    by simp
  show ?thesis using 1 2 3 4 by blast
qed

text \<open>
  C7, as the code has it. For grade points \<open>a\<close> and \<open>b\<close> between 0 and 10 the yearly grade
  point is the sum rounded to binary64, halved: a finite number between 0 and 10 that
  differs from the mean \<open>(a + b) / 2\<close> by at most \<open>2 ^ - 48\<close>. It does not depend on the
  order of the two terms, for any two numbers. The mean of 8.0 and 9.0 is 8.5, and 8.5
  converts to 77.5 percent, both exactly.
\<close>

theorem calculateYGPA_rounded_mean_commutative:
  assumes "0 \<le> a" and "a \<le> 10" and "0 \<le> b" and "b \<le> 10"
  shows "calculateYGPA (Fin a) (Fin b) = Fin (roundValue (roundValue (a + b) / 2))
    \<and> \<bar>roundValue (roundValue (a + b) / 2) - (a + b) / 2\<bar> \<le> 1 / 2 ^ 48
    \<and> 0 \<le> roundValue (roundValue (a + b) / 2)
    \<and> roundValue (roundValue (a + b) / 2) \<le> 10
    \<and> calculateYGPA x y = calculateYGPA y x
    \<and> calculateYGPA (Fin 8.0) (Fin 9.0) = Fin 8.5
    \<and> sgpaToPercentage (Fin 8.5) = Fin 77.5
    \<and> ygpaToPercentage (Fin 8.5) = Fin 77.5"
proof -
  note m = calculateYGPA_Fin [OF assms]
  have c: "calculateYGPA x y = calculateYGPA y x"
    by (simp add: calculateYGPA_def js_add_commute [of x y])
  have v: "calculateYGPA (Fin 8.0) (Fin 9.0) = Fin 8.5"
    "sgpaToPercentage (Fin 8.5) = Fin 77.5" "ygpaToPercentage (Fin 8.5) = Fin 77.5"
    by (simp_all add: calculateYGPA_def sgpaToPercentage_def ygpaToPercentage_def js_sub_def
        round_eval)
  show ?thesis using m c v by blast
qed

theorem calculateYGPA_rounded_mean_commutative_witness:
  "calculateYGPA (Fin (3602879701896397 / 36028797018963968))
     (Fin (3602879701896397 / 18014398509481984))
     = Fin (roundValue
         (roundValue (3602879701896397 / 36028797018963968 + 3602879701896397 / 18014398509481984)
          / 2))
   \<and> roundValue
       (roundValue (3602879701896397 / 36028797018963968 + 3602879701896397 / 18014398509481984)
        / 2)
     = 1351079888211149 / 9007199254740992
   \<and> \<bar>roundValue
        (roundValue (3602879701896397 / 36028797018963968 + 3602879701896397 / 18014398509481984)
         / 2)
      - (3602879701896397 / 36028797018963968 + 3602879701896397 / 18014398509481984) / 2\<bar>
     \<le> 1 / 2 ^ 48"
proof -
  have "(0::rat) \<le> 3602879701896397 / 36028797018963968"
    and "(3602879701896397 / 36028797018963968 :: rat) \<le> 10"
    and "(0::rat) \<le> 3602879701896397 / 18014398509481984"
    and "(3602879701896397 / 18014398509481984 :: rat) \<le> 10"
    by simp_all
  note t = calculateYGPA_rounded_mean_commutative [OF this]
  have "roundValue
       (roundValue (3602879701896397 / 36028797018963968 + 3602879701896397 / 18014398509481984)
        / 2)
     = 1351079888211149 / 9007199254740992"
    by (simp add: round_eval)
  then show ?thesis using t by blast
qed

section \<open>Properties of the two calculators\<close>

lemma calculateYGPA_valid:
  assumes "isValidGPA s" "isValidGPA t"
  shows "\<exists>m. calculateYGPA (parseFloat s) (parseFloat t) = Fin m \<and> 0 \<le> m \<and> m \<le> 10"
proof -
  obtain a b where ab: "parseFloat s = Fin a" "0 \<le> a" "a \<le> 10"
    "parseFloat t = Fin b" "0 \<le> b" "b \<le> 10"
    using assms isValidGPA_Fin by blast
  from calculateYGPA_Fin(1-3) [OF ab(2,3,5,6)] show ?thesis by (simp add: ab)
qed

lemma sgpaToPercentage_valid:
  assumes "0 \<le> g" "g \<le> 10"
  shows "\<exists>p. sgpaToPercentage (Fin g) = Fin p \<and> - (15 / 2) \<le> p \<and> p \<le> 185 / 2"
  using percentage_Fin(1-3) [OF assms] by (simp add: sgpaToPercentage_def)

lemma ygpaToPercentage_valid:
  assumes "0 \<le> g" "g \<le> 10"
  shows "\<exists>p. ygpaToPercentage (Fin g) = Fin p \<and> - (15 / 2) \<le> p \<and> p \<le> 185 / 2"
  using percentage_Fin(1-3) [OF assms] by (simp add: ygpaToPercentage_def)

lemma toFixed_2_not_placeholder:
  assumes "\<bar>q\<bar> < 10 ^ 21"
  shows "toFixed 2 (Fin q) \<noteq> js ''--''" and "toFixed 2 (Fin q) @ js ''%'' \<noteq> js ''--%''"
proof -
  have len: "4 \<le> length (toFixed 2 (Fin q))" using assms by (rule toFixed_2_length)
  show "toFixed 2 (Fin q) \<noteq> js ''--''"
  proof
    assume "toFixed 2 (Fin q) = js ''--''"
    then have "length (toFixed 2 (Fin q)) = 2" by (simp add: js_def)
    then show False using len by simp
  qed
  show "toFixed 2 (Fin q) @ js ''%'' \<noteq> js ''--%''"
  proof
    assume "toFixed 2 (Fin q) @ js ''%'' = js ''--%''"
    then have "length (toFixed 2 (Fin q) @ js ''%'') = 3" by (simp add: js_def)
    then show False using len by (simp add: js_def)
  qed
qed

lemma updateYGPACalculation_valid:
  assumes "isValidGPA (sgpaOdd_value d)" "isValidGPA (sgpaEven_value d)"
  shows "updateYGPACalculation d =
     (let ygpa = calculateYGPA (parseFloat (sgpaOdd_value d)) (parseFloat (sgpaEven_value d));
          percentage = ygpaToPercentage ygpa in
      d\<lparr>oddError_show := False, evenError_show := False,
        ygpaValue_textContent := toFixed 2 ygpa,
        ygpaPercentage_textContent := toFixed 2 percentage @ js ''%'',
        rotationSpeed := js_add (roundNumber 0.005) (js_div percentage (Fin 1000)),
        scaleMultiplier := js_add (roundNumber 0.8) (js_div percentage (Fin 200)),
        sphere_hue :=
          map (\<lambda>index.
                 js_rem (js_add (js_div ygpa (Fin 10))
                           (js_div (Fin (of_nat index)) (Fin (of_nat sphereCount))))
                   (Fin 1))
            [0..<sphereCount]\<rparr>)"
  using assms isValidGPA_nonempty [OF assms(1)] isValidGPA_nonempty [OF assms(2)]
  by (simp add: updateYGPACalculation_def Let_def)

lemma updateYGPACalculation_invalid:
  assumes "\<not> (isValidGPA (sgpaOdd_value d) \<and> isValidGPA (sgpaEven_value d))"
  shows "updateYGPACalculation d =
     d\<lparr>oddError_show := (sgpaOdd_value d \<noteq> [] \<and> \<not> isValidGPA (sgpaOdd_value d)),
       evenError_show := (sgpaEven_value d \<noteq> [] \<and> \<not> isValidGPA (sgpaEven_value d)),
       ygpaValue_textContent := js ''--'',
       ygpaPercentage_textContent := js ''--%''\<rparr>"
  using assms by (auto simp add: updateYGPACalculation_def Let_def)

text \<open>
  C4. The yearly result is computed and shown exactly when both term fields hold a valid
  grade point. Otherwise both yearly figures show their placeholder and the animation
  variables (and the sphere colours) keep their last values. With 7 in the odd field and
  nothing in the even field the placeholders are shown.
\<close>

theorem updateYGPACalculation_needs_both_valid:
  "(isValidGPA (sgpaOdd_value d) \<and> isValidGPA (sgpaEven_value d) \<longrightarrow>
      ygpaValue_textContent (updateYGPACalculation d)
        = toFixed 2 (calculateYGPA (parseFloat (sgpaOdd_value d)) (parseFloat (sgpaEven_value d)))
      \<and> ygpaPercentage_textContent (updateYGPACalculation d)
        = toFixed 2 (ygpaToPercentage
            (calculateYGPA (parseFloat (sgpaOdd_value d)) (parseFloat (sgpaEven_value d)))) @ js ''%''
      \<and> ygpaValue_textContent (updateYGPACalculation d) \<noteq> js ''--''
      \<and> ygpaPercentage_textContent (updateYGPACalculation d) \<noteq> js ''--%'')
   \<and> (\<not> (isValidGPA (sgpaOdd_value d) \<and> isValidGPA (sgpaEven_value d)) \<longrightarrow>
      ygpaValue_textContent (updateYGPACalculation d) = js ''--''
      \<and> ygpaPercentage_textContent (updateYGPACalculation d) = js ''--%''
      \<and> rotationSpeed (updateYGPACalculation d) = rotationSpeed d
      \<and> scaleMultiplier (updateYGPACalculation d) = scaleMultiplier d
      \<and> sphere_hue (updateYGPACalculation d) = sphere_hue d)"
proof (intro conjI impI)
  assume v: "isValidGPA (sgpaOdd_value d) \<and> isValidGPA (sgpaEven_value d)"
  then obtain m where m: "calculateYGPA (parseFloat (sgpaOdd_value d)) (parseFloat (sgpaEven_value d)) = Fin m"
    "0 \<le> m" "m \<le> 10"
    using calculateYGPA_valid by blast
  obtain p where p: "ygpaToPercentage (Fin m) = Fin p" "- (15 / 2) \<le> p" "p \<le> 185 / 2"
    using ygpaToPercentage_valid [OF m(2,3)] by blast
  have u: "ygpaValue_textContent (updateYGPACalculation d) = toFixed 2 (Fin m)"
    "ygpaPercentage_textContent (updateYGPACalculation d) = toFixed 2 (Fin p) @ js ''%''"
    using v by (simp_all add: updateYGPACalculation_valid Let_def m p)
  have b1: "\<bar>m\<bar> < 10 ^ 21" using m by simp
  have b2: "\<bar>p\<bar> < 10 ^ 21" using p by (simp add: abs_less_iff)
  show "ygpaValue_textContent (updateYGPACalculation d)
        = toFixed 2 (calculateYGPA (parseFloat (sgpaOdd_value d)) (parseFloat (sgpaEven_value d)))"
    by (simp add: u m)
  show "ygpaPercentage_textContent (updateYGPACalculation d)
        = toFixed 2 (ygpaToPercentage
            (calculateYGPA (parseFloat (sgpaOdd_value d)) (parseFloat (sgpaEven_value d)))) @ js ''%''"
    by (simp add: u m p)
  show "ygpaValue_textContent (updateYGPACalculation d) \<noteq> js ''--''"
    using toFixed_2_not_placeholder(1) [OF b1] by (simp add: u)
  show "ygpaPercentage_textContent (updateYGPACalculation d) \<noteq> js ''--%''"
    using toFixed_2_not_placeholder(2) [OF b2] by (simp add: u)
next
  assume n: "\<not> (isValidGPA (sgpaOdd_value d) \<and> isValidGPA (sgpaEven_value d))"
  note u = updateYGPACalculation_invalid [OF n]
  show "ygpaValue_textContent (updateYGPACalculation d) = js ''--''" by (simp add: u)
  show "ygpaPercentage_textContent (updateYGPACalculation d) = js ''--%''" by (simp add: u)
  show "rotationSpeed (updateYGPACalculation d) = rotationSpeed d" by (simp add: u)
  show "scaleMultiplier (updateYGPACalculation d) = scaleMultiplier d" by (simp add: u)
  show "sphere_hue (updateYGPACalculation d) = sphere_hue d" by (simp add: u)
qed

theorem updateYGPACalculation_needs_both_valid_witness:
  "ygpaValue_textContent
     (updateYGPACalculation (examplePage\<lparr>sgpaOdd_value := js ''7'', sgpaEven_value := js ''''\<rparr>))
     = js ''--''
   \<and> ygpaPercentage_textContent
     (updateYGPACalculation (examplePage\<lparr>sgpaOdd_value := js ''7'', sgpaEven_value := js ''''\<rparr>))
     = js ''--%''
   \<and> rotationSpeed
     (updateYGPACalculation (examplePage\<lparr>sgpaOdd_value := js ''7'', sgpaEven_value := js ''''\<rparr>))
     = roundNumber 0.005
   \<and> scaleMultiplier
     (updateYGPACalculation (examplePage\<lparr>sgpaOdd_value := js ''7'', sgpaEven_value := js ''''\<rparr>))
     = Fin 1
   \<and> ygpaValue_textContent
     (updateYGPACalculation (examplePage\<lparr>sgpaOdd_value := js ''8'', sgpaEven_value := js ''9''\<rparr>))
     = js ''8.50''
   \<and> ygpaPercentage_textContent
     (updateYGPACalculation (examplePage\<lparr>sgpaOdd_value := js ''8'', sgpaEven_value := js ''9''\<rparr>))
     = js ''77.50%''"
proof -
  let ?p = "examplePage\<lparr>sgpaOdd_value := js ''7'', sgpaEven_value := js ''''\<rparr>"
  let ?q = "examplePage\<lparr>sgpaOdd_value := js ''8'', sgpaEven_value := js ''9''\<rparr>"
  have e: "\<not> isValidGPA (js '''')" by (simp add: valid_eval)
  have v8: "isValidGPA (js ''8'')" and v9: "isValidGPA (js ''9'')" by (simp_all add: valid_eval)
  have p8: "parseFloat (js ''8'') = Fin 8" and p9: "parseFloat (js ''9'') = Fin 9"
    by (simp_all add: scan_eval round_eval)
  have t1: "toFixed 2 (Fin (17 / 2)) = js ''8.50''"
    by (simp add: toFixed_def digits_small digits_large js_def)
  have t2: "toFixed 2 (Fin (155 / 2)) = js ''77.50''"
    by (simp add: toFixed_def digits_small digits_large js_def)
  have "\<not> (isValidGPA (sgpaOdd_value ?p) \<and> isValidGPA (sgpaEven_value ?p))"
    using e by simp
  with updateYGPACalculation_needs_both_valid [of ?p]
  have a: "ygpaValue_textContent (updateYGPACalculation ?p) = js ''--''
      \<and> ygpaPercentage_textContent (updateYGPACalculation ?p) = js ''--%''
      \<and> rotationSpeed (updateYGPACalculation ?p) = rotationSpeed ?p
      \<and> scaleMultiplier (updateYGPACalculation ?p) = scaleMultiplier ?p"
    by blast
  have "isValidGPA (sgpaOdd_value ?q) \<and> isValidGPA (sgpaEven_value ?q)"
    using v8 v9 by simp
  with updateYGPACalculation_needs_both_valid [of ?q]
  have b: "ygpaValue_textContent (updateYGPACalculation ?q)
        = toFixed 2 (calculateYGPA (parseFloat (sgpaOdd_value ?q)) (parseFloat (sgpaEven_value ?q)))
      \<and> ygpaPercentage_textContent (updateYGPACalculation ?q)
        = toFixed 2 (ygpaToPercentage
            (calculateYGPA (parseFloat (sgpaOdd_value ?q)) (parseFloat (sgpaEven_value ?q)))) @ js ''%''"
    by blast
  have c: "calculateYGPA (Fin 8) (Fin 9) = Fin (17 / 2)" "ygpaToPercentage (Fin (17 / 2)) = Fin (155 / 2)"
    by (simp_all add: calculateYGPA_def ygpaToPercentage_def js_sub_def round_eval)
  have r: "rotationSpeed ?p = roundNumber 0.005" "scaleMultiplier ?p = Fin 1"
    by (simp_all add: examplePage_def)
  have b': "ygpaValue_textContent (updateYGPACalculation ?q) = js ''8.50''
      \<and> ygpaPercentage_textContent (updateYGPACalculation ?q) = js ''77.50'' @ js ''%''"
    using b by (simp add: p8 p9 c t1 t2)
  have j: "js ''77.50'' @ js ''%'' = js ''77.50%''" by (simp add: js_def)
  show ?thesis using a b' r j by simp
qed

lemma updateSGPACalculation_valid:
  assumes "isValidGPA (sgpaInput_value d)"
  shows "updateSGPACalculation d =
     (let percentage = sgpaToPercentage (parseFloat (sgpaInput_value d)) in
      d\<lparr>sgpaError_show := False,
        sgpaPercentage_textContent := toFixed 2 percentage @ js ''%'',
        rotationSpeed := js_add (roundNumber 0.005) (js_div percentage (Fin 1000)),
        scaleMultiplier := js_add (roundNumber 0.8) (js_div percentage (Fin 200))\<rparr>)"
  using assms isValidGPA_nonempty [OF assms] by (simp add: updateSGPACalculation_def Let_def)

lemma sgpa_percentage_range:
  assumes "isValidGPA (sgpaInput_value d)"
    and "sgpaToPercentage (parseFloat (sgpaInput_value d)) = Fin p"
  shows "- (15 / 2) \<le> p" and "p \<le> 185 / 2"
proof -
  obtain g where g: "parseFloat (sgpaInput_value d) = Fin g" "0 \<le> g" "g \<le> 10"
    using isValidGPA_Fin [OF assms(1)] by blast
  from sgpaToPercentage_valid [OF g(2,3)] assms(2) g(1)
  show "- (15 / 2) \<le> p" and "p \<le> 185 / 2" by simp_all
qed

lemma ygpa_percentage_range:
  assumes "isValidGPA (sgpaOdd_value e)" and "isValidGPA (sgpaEven_value e)"
    and "ygpaToPercentage
           (calculateYGPA (parseFloat (sgpaOdd_value e)) (parseFloat (sgpaEven_value e))) = Fin q"
  shows "- (15 / 2) \<le> q" and "q \<le> 185 / 2"
proof -
  obtain m where m: "calculateYGPA (parseFloat (sgpaOdd_value e)) (parseFloat (sgpaEven_value e)) = Fin m"
    "0 \<le> m" "m \<le> 10"
    using calculateYGPA_valid [OF assms(1,2)] by blast
  from ygpaToPercentage_valid [OF m(2,3)] assms(3) m(1)
  show "- (15 / 2) \<le> q" and "q \<le> 185 / 2" by simp_all
qed

lemma sgpa_animation:
  assumes "isValidGPA (sgpaInput_value d)"
    and "sgpaToPercentage (parseFloat (sgpaInput_value d)) = Fin p"
  shows "rotationSpeed (updateSGPACalculation d)
           = Fin (roundValue (roundValue (1 / 200) + roundValue (p / 1000)))"
    and "scaleMultiplier (updateSGPACalculation d)
           = Fin (roundValue (roundValue (4 / 5) + roundValue (p / 200)))"
  using assms rotationSpeed_Fin(1) [OF sgpa_percentage_range [OF assms]]
    scaleMultiplier_Fin(1) [OF sgpa_percentage_range [OF assms]]
  by (simp_all add: updateSGPACalculation_valid Let_def)

lemma ygpa_animation:
  assumes "isValidGPA (sgpaOdd_value e)" and "isValidGPA (sgpaEven_value e)"
    and "ygpaToPercentage
           (calculateYGPA (parseFloat (sgpaOdd_value e)) (parseFloat (sgpaEven_value e))) = Fin q"
  shows "rotationSpeed (updateYGPACalculation e)
           = Fin (roundValue (roundValue (1 / 200) + roundValue (q / 1000)))"
    and "scaleMultiplier (updateYGPACalculation e)
           = Fin (roundValue (roundValue (4 / 5) + roundValue (q / 200)))"
  using assms rotationSpeed_Fin(1) [OF ygpa_percentage_range [OF assms]]
    scaleMultiplier_Fin(1) [OF ygpa_percentage_range [OF assms]]
  by (simp_all add: updateYGPACalculation_valid Let_def)

text \<open>
  C5. The animation variables are not \<open>0.005 + p / 1000\<close> and \<open>0.8 + p / 200\<close>. With
  \<^verbatim>\<open>7.5\<close> in the single grade-point field the percentage is 67.5, and the calculator
  leaves the binary64 values that are written 0.07250000000000001 and 1.1375000000000002:
  they are not 0.0725 and 1.1375, and not the binary64 values nearest to them either. And
  a larger percentage need not leave a larger value: \<^verbatim>\<open>8.000000000000002\<close> has a larger
  percentage than \<^verbatim>\<open>8\<close> and leaves the same scale multiplier.
\<close>

theorem animation_parameters_not_exact:
  "isValidGPA (js ''7.5'')
   \<and> sgpaToPercentage (parseFloat (js ''7.5'')) = Fin 67.5
   \<and> rotationSpeed (updateSGPACalculation (examplePage\<lparr>sgpaInput_value := js ''7.5''\<rparr>))
       = Fin (326510972984361 / 4503599627370496)
   \<and> (326510972984361 / 4503599627370496 :: rat) \<noteq> 0.005 + 67.5 / 1000
   \<and> roundNumber (0.005 + 67.5 / 1000) = Fin (5224175567749775 / 72057594037927936)
   \<and> (326510972984361 / 4503599627370496 :: rat) \<noteq> 5224175567749775 / 72057594037927936
   \<and> scaleMultiplier (updateSGPACalculation (examplePage\<lparr>sgpaInput_value := js ''7.5''\<rparr>))
       = Fin (1280711144033485 / 1125899906842624)
   \<and> (1280711144033485 / 1125899906842624 :: rat) \<noteq> 0.8 + 67.5 / 200
   \<and> roundNumber (0.8 + 67.5 / 200) = Fin (5122844576133939 / 4503599627370496)
   \<and> (1280711144033485 / 1125899906842624 :: rat) \<noteq> 5122844576133939 / 4503599627370496
   \<and> isValidGPA (js ''8'') \<and> isValidGPA (js ''8.000000000000002'')
   \<and> sgpaToPercentage (parseFloat (js ''8'')) = Fin 72.5
   \<and> sgpaToPercentage (parseFloat (js ''8.000000000000002''))
       = Fin (5101733952880641 / 70368744177664)
   \<and> (72.5 :: rat) < 5101733952880641 / 70368744177664
   \<and> scaleMultiplier (updateSGPACalculation (examplePage\<lparr>sgpaInput_value := js ''8''\<rparr>))
       = scaleMultiplier
           (updateSGPACalculation (examplePage\<lparr>sgpaInput_value := js ''8.000000000000002''\<rparr>))"
proof -
  let ?a = "examplePage\<lparr>sgpaInput_value := js ''7.5''\<rparr>"
  let ?b = "examplePage\<lparr>sgpaInput_value := js ''8''\<rparr>"
  let ?c = "examplePage\<lparr>sgpaInput_value := js ''8.000000000000002''\<rparr>"
  have f: "parseFloat (js ''7.5'') = Fin (15 / 2)" "parseFloat (js ''8'') = Fin 8"
    "parseFloat (js ''8.000000000000002'') = Fin (4503599627370497 / 562949953421312)"
    by (simp_all add: scan_eval round_eval)
  have v: "isValidGPA (js ''7.5'')" "isValidGPA (js ''8'')" "isValidGPA (js ''8.000000000000002'')"
    by (simp_all add: isValidGPA_def f isNaN_def js_ge_def)
  have p: "sgpaToPercentage (Fin (15 / 2)) = Fin (135 / 2)"
    "sgpaToPercentage (Fin 8) = Fin (145 / 2)"
    "sgpaToPercentage (Fin (4503599627370497 / 562949953421312))
       = Fin (5101733952880641 / 70368744177664)"
    by (simp_all add: sgpaToPercentage_def js_sub_def round_eval)
  have va: "isValidGPA (sgpaInput_value ?a)" and vb: "isValidGPA (sgpaInput_value ?b)"
    and vc: "isValidGPA (sgpaInput_value ?c)"
    using v by simp_all
  have pa: "sgpaToPercentage (parseFloat (sgpaInput_value ?a)) = Fin (135 / 2)"
    and pb: "sgpaToPercentage (parseFloat (sgpaInput_value ?b)) = Fin (145 / 2)"
    and pc: "sgpaToPercentage (parseFloat (sgpaInput_value ?c))
       = Fin (5101733952880641 / 70368744177664)"
    by (simp_all add: f p)
  have r: "roundValue (roundValue (1 / 200) + roundValue (135 / 2 / 1000))
       = 326510972984361 / 4503599627370496"
    "roundValue (roundValue (4 / 5) + roundValue (135 / 2 / 200))
       = 1280711144033485 / 1125899906842624"
    "roundValue (roundValue (4 / 5) + roundValue (145 / 2 / 200))
       = 2617717283409101 / 2251799813685248"
    "roundValue (roundValue (4 / 5) + roundValue (5101733952880641 / 70368744177664 / 200))
       = 2617717283409101 / 2251799813685248"
    by (simp_all add: round_eval)
  have 1: "rotationSpeed (updateSGPACalculation ?a) = Fin (326510972984361 / 4503599627370496)"
    unfolding sgpa_animation(1) [OF va pa] r ..
  have 2: "scaleMultiplier (updateSGPACalculation ?a) = Fin (1280711144033485 / 1125899906842624)"
    unfolding sgpa_animation(2) [OF va pa] r ..
  have 3: "scaleMultiplier (updateSGPACalculation ?b) = scaleMultiplier (updateSGPACalculation ?c)"
    unfolding sgpa_animation(2) [OF vb pb] sgpa_animation(2) [OF vc pc] r ..
  have 4: "roundNumber (0.005 + 67.5 / 1000) = Fin (5224175567749775 / 72057594037927936)"
    "roundNumber (0.8 + 67.5 / 200) = Fin (5122844576133939 / 4503599627370496)"
    by (simp_all add: round_eval)
  have 5: "(326510972984361 / 4503599627370496 :: rat) \<noteq> 0.005 + 67.5 / 1000"
    "(326510972984361 / 4503599627370496 :: rat) \<noteq> 5224175567749775 / 72057594037927936"
    "(1280711144033485 / 1125899906842624 :: rat) \<noteq> 0.8 + 67.5 / 200"
    "(1280711144033485 / 1125899906842624 :: rat) \<noteq> 5122844576133939 / 4503599627370496"
    "(72.5 :: rat) < 5101733952880641 / 70368744177664"
    by simp_all
  have 6: "sgpaToPercentage (parseFloat (js ''7.5'')) = Fin 67.5"
    "sgpaToPercentage (parseFloat (js ''8'')) = Fin 72.5"
    "sgpaToPercentage (parseFloat (js ''8.000000000000002''))
       = Fin (5101733952880641 / 70368744177664)"
    by (simp_all add: f p)
  show ?thesis using v 1 2 3 4 5 6 by blast
qed

text \<open>
  C5, as the code has it. Whenever a calculator computes a percentage \<open>p\<close>, it sets the
  rotation speed to the binary64 result of \<^verbatim>\<open>0.005 + p / 1000\<close> and the scale multiplier to
  that of \<^verbatim>\<open>0.8 + p / 200\<close>, where the literals, the quotient and the sum are each rounded.
  They differ from \<open>0.005 + p / 1000\<close> by at most \<open>2 ^ - 54\<close> and from \<open>0.8 + p / 200\<close> by
  at most \<open>2 ^ - 51\<close>. Neither decreases when the percentage grows: of two computations,
  by the same calculator or not, the one with the larger percentage leaves a rotation
  speed and a scale multiplier that are at least as large.
\<close>

theorem animation_parameters_rounded:
  assumes "isValidGPA (sgpaInput_value d)"
    and "sgpaToPercentage (parseFloat (sgpaInput_value d)) = Fin p"
    and "isValidGPA (sgpaInput_value d')"
    and "sgpaToPercentage (parseFloat (sgpaInput_value d')) = Fin p'"
    and "isValidGPA (sgpaOdd_value e)" and "isValidGPA (sgpaEven_value e)"
    and "ygpaToPercentage
           (calculateYGPA (parseFloat (sgpaOdd_value e)) (parseFloat (sgpaEven_value e))) = Fin q"
    and "isValidGPA (sgpaOdd_value e')" and "isValidGPA (sgpaEven_value e')"
    and "ygpaToPercentage
           (calculateYGPA (parseFloat (sgpaOdd_value e')) (parseFloat (sgpaEven_value e'))) = Fin q'"
  shows "rotationSpeed (updateSGPACalculation d)
      = Fin (roundValue (roundValue 0.005 + roundValue (p / 1000)))
    \<and> scaleMultiplier (updateSGPACalculation d)
      = Fin (roundValue (roundValue 0.8 + roundValue (p / 200)))
    \<and> rotationSpeed (updateYGPACalculation e)
      = Fin (roundValue (roundValue 0.005 + roundValue (q / 1000)))
    \<and> scaleMultiplier (updateYGPACalculation e)
      = Fin (roundValue (roundValue 0.8 + roundValue (q / 200)))
    \<and> \<bar>roundValue (roundValue 0.005 + roundValue (p / 1000)) - (0.005 + p / 1000)\<bar> \<le> 1 / 2 ^ 54
    \<and> \<bar>roundValue (roundValue 0.8 + roundValue (p / 200)) - (0.8 + p / 200)\<bar> \<le> 1 / 2 ^ 51
    \<and> \<bar>roundValue (roundValue 0.005 + roundValue (q / 1000)) - (0.005 + q / 1000)\<bar> \<le> 1 / 2 ^ 54
    \<and> \<bar>roundValue (roundValue 0.8 + roundValue (q / 200)) - (0.8 + q / 200)\<bar> \<le> 1 / 2 ^ 51
    \<and> (p \<le> p' \<longrightarrow>
         js_le (rotationSpeed (updateSGPACalculation d)) (rotationSpeed (updateSGPACalculation d')))
    \<and> (p \<le> p' \<longrightarrow>
         js_le (scaleMultiplier (updateSGPACalculation d)) (scaleMultiplier (updateSGPACalculation d')))
    \<and> (q \<le> q' \<longrightarrow>
         js_le (rotationSpeed (updateYGPACalculation e)) (rotationSpeed (updateYGPACalculation e')))
    \<and> (q \<le> q' \<longrightarrow>
         js_le (scaleMultiplier (updateYGPACalculation e)) (scaleMultiplier (updateYGPACalculation e')))
    \<and> (p \<le> q \<longrightarrow>
         js_le (rotationSpeed (updateSGPACalculation d)) (rotationSpeed (updateYGPACalculation e)))
    \<and> (p \<le> q \<longrightarrow>
         js_le (scaleMultiplier (updateSGPACalculation d)) (scaleMultiplier (updateYGPACalculation e)))
    \<and> (q \<le> p \<longrightarrow>
         js_le (rotationSpeed (updateYGPACalculation e)) (rotationSpeed (updateSGPACalculation d)))
    \<and> (q \<le> p \<longrightarrow>
         js_le (scaleMultiplier (updateYGPACalculation e)) (scaleMultiplier (updateSGPACalculation d)))"
proof -
  have c: "(0.005 :: rat) = 1 / 200" "(0.8 :: rat) = 4 / 5" by simp_all
  note s = sgpa_animation [OF assms(1,2)] sgpa_animation [OF assms(3,4)]
  note y = ygpa_animation [OF assms(5,6,7)] ygpa_animation [OF assms(8,9,10)]
  note rp = sgpa_percentage_range [OF assms(1,2)]
  note rq = ygpa_percentage_range [OF assms(5,6,7)]
  note b = rotationSpeed_Fin(2) [OF rp] scaleMultiplier_Fin(2) [OF rp]
    rotationSpeed_Fin(2) [OF rq] scaleMultiplier_Fin(2) [OF rq]
  show ?thesis
    unfolding s y c js_le.simps
    using b rotationSpeed_mono scaleMultiplier_mono by blast
qed

theorem animation_parameters_rounded_witness:
  "rotationSpeed (updateSGPACalculation (examplePage\<lparr>sgpaInput_value := js ''7.5''\<rparr>))
     = Fin (roundValue (roundValue 0.005 + roundValue (67.5 / 1000)))
   \<and> scaleMultiplier (updateSGPACalculation (examplePage\<lparr>sgpaInput_value := js ''7.5''\<rparr>))
     = Fin (roundValue (roundValue 0.8 + roundValue (67.5 / 200)))
   \<and> \<bar>roundValue (roundValue 0.005 + roundValue (67.5 / 1000)) - (0.005 + 67.5 / 1000)\<bar>
     \<le> 1 / 2 ^ 54
   \<and> rotationSpeed
       (updateYGPACalculation (examplePage\<lparr>sgpaOdd_value := js ''8'', sgpaEven_value := js ''9''\<rparr>))
     = Fin (roundValue (roundValue 0.005 + roundValue (77.5 / 1000)))
   \<and> scaleMultiplier
       (updateYGPACalculation (examplePage\<lparr>sgpaOdd_value := js ''8'', sgpaEven_value := js ''9''\<rparr>))
     = Fin (roundValue (roundValue 0.8 + roundValue (77.5 / 200)))
   \<and> js_le (rotationSpeed (updateSGPACalculation (examplePage\<lparr>sgpaInput_value := js ''7.5''\<rparr>)))
        (rotationSpeed (updateSGPACalculation (examplePage\<lparr>sgpaInput_value := js ''10''\<rparr>)))
   \<and> js_le
        (scaleMultiplier
          (updateYGPACalculation (examplePage\<lparr>sgpaOdd_value := js ''8'', sgpaEven_value := js ''9''\<rparr>)))
        (scaleMultiplier
          (updateYGPACalculation (examplePage\<lparr>sgpaOdd_value := js ''9'', sgpaEven_value := js ''10''\<rparr>)))
   \<and> js_le (scaleMultiplier (updateSGPACalculation (examplePage\<lparr>sgpaInput_value := js ''7.5''\<rparr>)))
        (scaleMultiplier
          (updateYGPACalculation (examplePage\<lparr>sgpaOdd_value := js ''8'', sgpaEven_value := js ''9''\<rparr>)))"
proof -
  let ?d = "examplePage\<lparr>sgpaInput_value := js ''7.5''\<rparr>"
  let ?d' = "examplePage\<lparr>sgpaInput_value := js ''10''\<rparr>"
  let ?e = "examplePage\<lparr>sgpaOdd_value := js ''8'', sgpaEven_value := js ''9''\<rparr>"
  let ?e' = "examplePage\<lparr>sgpaOdd_value := js ''9'', sgpaEven_value := js ''10''\<rparr>"
  have f: "parseFloat (js ''7.5'') = Fin 7.5" "parseFloat (js ''10'') = Fin 10"
    "parseFloat (js ''8'') = Fin 8" "parseFloat (js ''9'') = Fin 9"
    by (simp_all add: scan_eval round_eval)
  have v: "isValidGPA (js ''7.5'')" "isValidGPA (js ''10'')" "isValidGPA (js ''8'')"
    "isValidGPA (js ''9'')"
    by (simp_all add: isValidGPA_def f isNaN_def js_ge_def)
  have 1: "isValidGPA (sgpaInput_value ?d)" using v by simp
  have 2: "sgpaToPercentage (parseFloat (sgpaInput_value ?d)) = Fin 67.5"
    by (simp add: f sgpaToPercentage_def js_sub_def round_eval)
  have 3: "isValidGPA (sgpaInput_value ?d')" using v by simp
  have 4: "sgpaToPercentage (parseFloat (sgpaInput_value ?d')) = Fin 92.5"
    by (simp add: f sgpaToPercentage_def js_sub_def round_eval)
  have 5: "isValidGPA (sgpaOdd_value ?e)" and 6: "isValidGPA (sgpaEven_value ?e)"
    using v by simp_all
  have 7: "ygpaToPercentage
      (calculateYGPA (parseFloat (sgpaOdd_value ?e)) (parseFloat (sgpaEven_value ?e))) = Fin 77.5"
    by (simp add: f ygpaToPercentage_def calculateYGPA_def js_sub_def round_eval)
  have 8: "isValidGPA (sgpaOdd_value ?e')" and 9: "isValidGPA (sgpaEven_value ?e')"
    using v by simp_all
  have 10: "ygpaToPercentage
      (calculateYGPA (parseFloat (sgpaOdd_value ?e')) (parseFloat (sgpaEven_value ?e'))) = Fin 87.5"
    by (simp add: f ygpaToPercentage_def calculateYGPA_def js_sub_def round_eval)
  have o: "(67.5::rat) \<le> 92.5" "(67.5::rat) \<le> 77.5" "(77.5::rat) \<le> 87.5" by simp_all
  from animation_parameters_rounded [OF 1 2 3 4 5 6 7 8 9 10] o
  show ?thesis by blast
qed

section \<open>Properties of the results page\<close>

lemma showCongratulations_frame [simp]:
  "result_sgpa (showCongratulations p d) = result_sgpa d"
  "result_sgpa_percent (showCongratulations p d) = result_sgpa_percent d"
  "result_ygpa (showCongratulations p d) = result_ygpa d"
  "result_ygpa_percent (showCongratulations p d) = result_ygpa_percent d"
  "performance_bar_width (showCongratulations p d) = performance_bar_width d"
  "performance_text (showCongratulations p d) = performance_text d"
  "performance_text_color (showCongratulations p d) = performance_text_color d"
  by (simp_all add: showCongratulations_def)

lemma updatePerformanceText_frame [simp]:
  "result_sgpa (updatePerformanceText p d) = result_sgpa d"
  "result_sgpa_percent (updatePerformanceText p d) = result_sgpa_percent d"
  "result_ygpa (updatePerformanceText p d) = result_ygpa d"
  "result_ygpa_percent (updatePerformanceText p d) = result_ygpa_percent d"
  "performance_bar_width (updatePerformanceText p d) = performance_bar_width d"
  "congratulations_innerHTML (updatePerformanceText p d) = congratulations_innerHTML d"
  by (simp_all add: updatePerformanceText_def)

lemma updateResultsPage_sgpa:
  "result_sgpa (updateResultsPage d) =
     (if sgpaInput_value d \<noteq> [] then toFixed 2 (parseFloat (sgpaInput_value d)) else js ''-'')"
  "result_sgpa_percent (updateResultsPage d) =
     (if sgpaInput_value d \<noteq> []
      then toFixed 2 (js_mul (js_sub (StringToNumber (sgpaInput_value d)) (Fin 0.75)) (Fin 10))
      else js ''-'')"
  by (simp_all add: updateResultsPage_def Let_def)

lemma updateResultsPage_ygpa:
  "result_ygpa (updateResultsPage d) =
     (if sgpaOdd_value d \<noteq> [] \<and> sgpaEven_value d \<noteq> []
      then toFixed 2 (js_div (js_add (parseFloat (sgpaOdd_value d)) (parseFloat (sgpaEven_value d)))
                        (Fin 2))
      else js ''-'')"
  "result_ygpa_percent (updateResultsPage d) =
     (if sgpaOdd_value d \<noteq> [] \<and> sgpaEven_value d \<noteq> []
      then toFixed 2 (js_mul (js_sub (StringToNumber (result_ygpa (updateResultsPage d))) (Fin 0.75))
                        (Fin 10))
      else js ''-'')"
  by (simp_all add: updateResultsPage_def Let_def)

lemma round2_nearest: "\<bar>round2 q - q\<bar> \<le> 1 / 200 \<and> round2 q * 100 \<in> \<int>"
proof -
  define z where "z = \<lfloor>\<bar>q\<bar> * 100 + 1 / 2\<rfloor>"
  have "of_int z \<le> \<bar>q\<bar> * 100 + 1 / 2" and "\<bar>q\<bar> * 100 + 1 / 2 < of_int z + 1"
    unfolding z_def by linarith+
  then have "of_int z / 100 - \<bar>q\<bar> \<le> 1 / 200" and "\<bar>q\<bar> - of_int z / 100 \<le> 1 / 200"
    by linarith+
  then have c: "\<bar>of_int z / 100 - \<bar>q\<bar>\<bar> \<le> 1 / 200" by (intro abs_leI) linarith+
  have "\<bar>round2 q - q\<bar> = \<bar>of_int z / 100 - \<bar>q\<bar>\<bar>"
    unfolding round2_def z_def [symmetric] by (cases "q < 0") (simp_all add: abs_minus_commute)
  moreover have "round2 q * 100 \<in> \<int>" by (simp add: round2_def)
  ultimately show ?thesis using c by simp
qed

text \<open>\<^verbatim>\<open>toFixed(2)\<close> writes the same text for a number of whole hundredths and for every
  number within \<open>2 ^ - 43\<close> of it that has its sign.\<close>

lemma hundredths_near:
  assumes "e * 100 = of_int k" and "\<bar>c - e\<bar> \<le> 1 / 2 ^ 43"
  shows "hundredths c = hundredths e"
proof -
  have "\<bar>e\<bar> * 100 = \<bar>e * 100\<bar>" by (simp add: abs_mult)
  then have a: "\<bar>e\<bar> * 100 = of_int \<bar>k\<bar>" by (simp add: assms(1))
  have d: "\<bar>c - e\<bar> \<le> 1 / 8796093022208" using assms(2) by simp
  have "\<lfloor>\<bar>e\<bar> * 100 + 1 / 2\<rfloor> = \<bar>k\<bar>" unfolding a by linarith
  moreover have "\<lfloor>\<bar>c\<bar> * 100 + 1 / 2\<rfloor> = \<bar>k\<bar>"
  proof (rule floor_unique)
    show "of_int \<bar>k\<bar> \<le> \<bar>c\<bar> * 100 + 1 / 2" using a d by linarith
    show "\<bar>c\<bar> * 100 + 1 / 2 < of_int \<bar>k\<bar> + 1" using a d by linarith
  qed
  ultimately show ?thesis by (simp add: hundredths_def)
qed

lemma toFixed_2_near:
  assumes "e * 100 = of_int k" and "\<bar>c - e\<bar> \<le> 1 / 2 ^ 43" and "\<bar>e\<bar> \<le> 100"
    and "c = e \<or> 1 / 10 \<le> \<bar>e\<bar>"
  shows "toFixed 2 (Fin c) = toFixed 2 (Fin e)"
proof (cases "c = e")
  case True
  then show ?thesis by simp
next
  case False
  then have g: "1 / 10 \<le> \<bar>e\<bar>" using assms(4) by simp
  have d: "\<bar>c - e\<bar> \<le> 1 / 8796093022208" using assms(2) by simp
  have s: "(c < 0) = (e < 0)" using g d by linarith
  have h: "hundredths c = hundredths e" using assms(1,2) by (rule hundredths_near)
  have "\<bar>c\<bar> \<le> 101" using d assms(3) by linarith
  then have bc: "\<bar>c\<bar> < 10 ^ 21" by simp
  have be: "\<bar>e\<bar> < 10 ^ 21" using assms(3) by simp
  show ?thesis unfolding toFixed_2_Fin [OF bc] toFixed_2_Fin [OF be] s h ..
qed

text \<open>The percentage that the results page shows for a grade point of \<open>n\<close> hundredths.\<close>

lemma rounded_percentage_text:
  fixes n :: nat
  assumes "n \<le> 1000"
  shows "\<exists>c. js_mul (js_sub (roundNumber (of_nat n / 100)) (Fin 0.75)) (Fin 10) = Fin c
            \<and> \<bar>c - (of_nat n / 100 - 0.75) * 10\<bar> \<le> 1 / 2 ^ 43
            \<and> toFixed 2 (Fin c) = toFixed 2 (Fin ((of_nat n / 100 - 0.75) * 10))"
proof -
  define r :: rat where "r = of_nat n / 100"
  define g where "g = roundValue r"
  define c where "c = roundValue (roundValue (g - 3 / 4) * 10)"
  define e where "e = (r - 3 / 4) * 10"
  have "(of_nat n :: rat) \<le> of_nat 1000" using assms by (simp only: of_nat_le_iff)
  then have r: "0 \<le> r" "r \<le> 10" by (simp_all add: r_def)
  have g: "roundNumber r = Fin g" "0 \<le> g" "g \<le> 10"
    unfolding g_def using r by (intro roundNumber_range [of 0 _ 10]; simp)+
  note p = percentage_Fin [OF g(2,3), folded c_def]
  have "\<bar>r\<bar> \<le> 16" using r by simp
  then have "\<bar>g - r\<bar> \<le> 1 / 2 ^ 49" unfolding g_def by (rule roundValue_error_numeral)
  then have "\<bar>(g - 3 / 4) - (r - 3 / 4)\<bar> \<le> 1 / 2 ^ 49" by simp
  then have "\<bar>(g - 3 / 4) * 10 - (r - 3 / 4) * 10\<bar> \<le> 1 / 2 ^ 49 * 10" by (rule error_times_10)
  with p(4) have ce: "\<bar>c - e\<bar> \<le> 1 / 2 ^ 43" unfolding e_def by (rule error_compose) simp
  have k: "e * 100 = of_int (int n * 10 - 750)" by (simp add: e_def r_def)
  have b: "\<bar>e\<bar> \<le> 100" using r by (simp add: e_def abs_le_iff)
  have z: "c = e \<or> 1 / 10 \<le> \<bar>e\<bar>"
  proof (cases "n = 75")
    case True
    then have r34: "r = 3 / 4" by (simp add: r_def)
    have g34: "g = 3 / 4" unfolding g_def r34 by simp
    have "c = 0" unfolding c_def g34 by simp
    moreover have "e = 0" unfolding e_def r34 by simp
    ultimately show ?thesis by simp
  next
    case False
    then have "int n * 10 - 750 \<le> - 10 \<or> 10 \<le> int n * 10 - 750" by linarith
    then have "10 \<le> \<bar>int n * 10 - 750\<bar>" by linarith
    then have "(of_int 10 :: rat) \<le> of_int \<bar>int n * 10 - 750\<bar>" by (simp only: of_int_le_iff)
    then have "10 \<le> \<bar>e * 100\<bar>" unfolding k by simp
    then have "10 \<le> \<bar>e\<bar> * 100" by (simp add: abs_mult)
    then show ?thesis by simp
  qed
  have "toFixed 2 (Fin c) = toFixed 2 (Fin e)" using k ce b z by (rule toFixed_2_near)
  then show ?thesis using p(1) ce g(1) by (simp add: r_def e_def)
qed

lemma round2_hundredths:
  assumes "0 \<le> m" and "m \<le> 10"
  shows "round2 m = of_nat (hundredths m) / 100" and "hundredths m \<le> 1000"
proof -
  have n: "0 \<le> \<lfloor>\<bar>m\<bar> * 100 + 1 / 2\<rfloor>" using assms(1) by simp
  have "of_nat (hundredths m) = (of_int \<lfloor>\<bar>m\<bar> * 100 + 1 / 2\<rfloor> :: rat)"
    using n by (simp add: hundredths_def)
  then show "round2 m = of_nat (hundredths m) / 100" using assms(1) by (simp add: round2_def)
  have "\<bar>m\<bar> * 100 + 1 / 2 < 1001" using assms by simp
  then have "\<lfloor>\<bar>m\<bar> * 100 + 1 / 2\<rfloor> \<le> 1000" by linarith
  then show "hundredths m \<le> 1000" unfolding hundredths_def nat_le_iff by simp
qed

lemma updateResultsPage_rounded:
  assumes "sgpaOdd_value d \<noteq> []" and "sgpaEven_value d \<noteq> []"
    and "calculateYGPA (parseFloat (sgpaOdd_value d)) (parseFloat (sgpaEven_value d)) = Fin m"
    and "0 \<le> m" and "m \<le> 10"
  shows "result_ygpa (updateResultsPage d) = toFixed 2 (Fin m)"
    and "result_ygpa_percent (updateResultsPage d) = toFixed 2 (Fin ((round2 m - 0.75) * 10))"
    and "\<exists>c. js_mul (js_sub (StringToNumber (result_ygpa (updateResultsPage d))) (Fin 0.75)) (Fin 10)
               = Fin c
             \<and> \<bar>c - (round2 m - 0.75) * 10\<bar> \<le> 1 / 2 ^ 43"
proof -
  have b: "\<bar>m\<bar> < 10 ^ 21" using assms(4,5) by simp
  show y: "result_ygpa (updateResultsPage d) = toFixed 2 (Fin m)"
    using assms(1,2,3) by (simp add: updateResultsPage_ygpa(1) calculateYGPA_def)
  note h = round2_hundredths [OF assms(4,5)]
  have s: "StringToNumber (result_ygpa (updateResultsPage d))
        = roundNumber (of_nat (hundredths m) / 100)"
    by (simp add: y StringToNumber_toFixed_2 [OF b] h(1))
  from rounded_percentage_text [OF h(2)] obtain c where
    c: "js_mul (js_sub (roundNumber (of_nat (hundredths m) / 100)) (Fin 0.75)) (Fin 10) = Fin c"
      "\<bar>c - (of_nat (hundredths m) / 100 - 0.75) * 10\<bar> \<le> 1 / 2 ^ 43"
      "toFixed 2 (Fin c) = toFixed 2 (Fin ((of_nat (hundredths m) / 100 - 0.75) * 10))"
    by blast
  show "result_ygpa_percent (updateResultsPage d) = toFixed 2 (Fin ((round2 m - 0.75) * 10))"
    using assms(1,2) unfolding updateResultsPage_ygpa(2) s c(1) c(3) h(1) by simp
  show "\<exists>c. js_mul (js_sub (StringToNumber (result_ygpa (updateResultsPage d))) (Fin 0.75)) (Fin 10)
               = Fin c
             \<and> \<bar>c - (round2 m - 0.75) * 10\<bar> \<le> 1 / 2 ^ 43"
    unfolding s h(1) using c(1,2) by blast
qed

lemma ygpaPercentage_text_valid:
  assumes "isValidGPA (sgpaOdd_value d)" and "isValidGPA (sgpaEven_value d)"
  shows "ygpaPercentage_textContent (updateYGPACalculation d)
     = toFixed 2 (ygpaToPercentage
         (calculateYGPA (parseFloat (sgpaOdd_value d)) (parseFloat (sgpaEven_value d)))) @ js ''%''"
  using assms by (simp add: updateYGPACalculation_valid Let_def)

text \<open>
  C10. The percentage on the results page is not \<open>(round2 ((odd + even) / 2) - 0.75) * 10\<close>
  for the mean \<open>(odd + even) / 2\<close> of the two numbers. With \<^verbatim>\<open>10\<close> and \<^verbatim>\<open>6.05\<close> the page
  shows 8.03 and 72.80, and the mean of the two parsed numbers, which lies just below
  8.025, gives 8.02 and 72.70. With \<^verbatim>\<open>8\<close> and \<^verbatim>\<open>8.01\<close> the page shows 8.00 and 72.50, and
  the mean 8.005 of the two decimal numbers gives 8.01 and 72.60.
\<close>

theorem results_page_percentage_not_from_exact_mean:
  "isValidGPA (js ''10'') \<and> isValidGPA (js ''6.05'')
   \<and> parseFloat (js ''10'') = Fin 10
   \<and> parseFloat (js ''6.05'') = Fin (6811694436397875 / 1125899906842624)
   \<and> result_ygpa
       (updateResultsPage (examplePage\<lparr>sgpaOdd_value := js ''10'', sgpaEven_value := js ''6.05''\<rparr>))
       = js ''8.03''
   \<and> result_ygpa_percent
       (updateResultsPage (examplePage\<lparr>sgpaOdd_value := js ''10'', sgpaEven_value := js ''6.05''\<rparr>))
       = js ''72.80''
   \<and> toFixed 2 (Fin ((10 + 6811694436397875 / 1125899906842624) / 2)) = js ''8.02''
   \<and> toFixed 2 (Fin ((round2 ((10 + 6811694436397875 / 1125899906842624) / 2) - 0.75) * 10))
       = js ''72.70''
   \<and> isValidGPA (js ''8'') \<and> isValidGPA (js ''8.01'')
   \<and> scanDecimalMV (js ''8'') = Some (Fin 8, [])
   \<and> scanDecimalMV (js ''8.01'') = Some (Fin 8.01, [])
   \<and> result_ygpa
       (updateResultsPage (examplePage\<lparr>sgpaOdd_value := js ''8'', sgpaEven_value := js ''8.01''\<rparr>))
       = js ''8.00''
   \<and> result_ygpa_percent
       (updateResultsPage (examplePage\<lparr>sgpaOdd_value := js ''8'', sgpaEven_value := js ''8.01''\<rparr>))
       = js ''72.50''
   \<and> toFixed 2 (Fin ((8 + 8.01) / 2)) = js ''8.01''
   \<and> toFixed 2 (Fin ((round2 ((8 + 8.01) / 2) - 0.75) * 10)) = js ''72.60''"
proof -
  let ?e = "examplePage\<lparr>sgpaOdd_value := js ''10'', sgpaEven_value := js ''6.05''\<rparr>"
  let ?g = "examplePage\<lparr>sgpaOdd_value := js ''8'', sgpaEven_value := js ''8.01''\<rparr>"
  have f: "parseFloat (js ''10'') = Fin 10"
    "parseFloat (js ''6.05'') = Fin (6811694436397875 / 1125899906842624)"
    "parseFloat (js ''8'') = Fin 8"
    "parseFloat (js ''8.01'') = Fin (4509229126904709 / 562949953421312)"
    by (simp_all add: scan_eval round_eval)
  have v: "isValidGPA (js ''10'')" "isValidGPA (js ''6.05'')" "isValidGPA (js ''8'')"
    "isValidGPA (js ''8.01'')"
    by (simp_all add: isValidGPA_def f isNaN_def js_ge_def)
  have s: "scanDecimalMV (js ''8'') = Some (Fin 8, [])"
    "scanDecimalMV (js ''8.01'') = Some (Fin 8.01, [])"
    by (simp_all add: scan_eval)
  have ne: "sgpaOdd_value ?e \<noteq> []" "sgpaEven_value ?e \<noteq> []"
    and ng: "sgpaOdd_value ?g \<noteq> []" "sgpaEven_value ?g \<noteq> []"
    by (simp_all add: js_def)
  have ce: "calculateYGPA (parseFloat (sgpaOdd_value ?e)) (parseFloat (sgpaEven_value ?e))
      = Fin (4517673376206029 / 562949953421312)"
    and cg: "calculateYGPA (parseFloat (sgpaOdd_value ?g)) (parseFloat (sgpaEven_value ?g))
      = Fin (2253207188568801 / 281474976710656)"
    by (simp_all add: f calculateYGPA_def round_eval)
  have be: "(0::rat) \<le> 4517673376206029 / 562949953421312"
    "(4517673376206029 / 562949953421312 :: rat) \<le> 10"
    and bg: "(0::rat) \<le> 2253207188568801 / 281474976710656"
    "(2253207188568801 / 281474976710656 :: rat) \<le> 10"
    by simp_all
  note re = updateResultsPage_rounded(1,2) [OF ne ce be]
  note rg = updateResultsPage_rounded(1,2) [OF ng cg bg]
  have t: "toFixed 2 (Fin (4517673376206029 / 562949953421312)) = js ''8.03''"
    "toFixed 2 (Fin ((round2 (4517673376206029 / 562949953421312) - 0.75) * 10)) = js ''72.80''"
    "toFixed 2 (Fin (2253207188568801 / 281474976710656)) = js ''8.00''"
    "toFixed 2 (Fin ((round2 (2253207188568801 / 281474976710656) - 0.75) * 10)) = js ''72.50''"
    "toFixed 2 (Fin ((10 + 6811694436397875 / 1125899906842624) / 2)) = js ''8.02''"
    "toFixed 2 (Fin ((round2 ((10 + 6811694436397875 / 1125899906842624) / 2) - 0.75) * 10))
       = js ''72.70''"
    "toFixed 2 (Fin ((8 + 8.01) / 2)) = js ''8.01''"
    "toFixed 2 (Fin ((round2 ((8 + 8.01) / 2) - 0.75) * 10)) = js ''72.60''"
    by (simp_all add: round2_def toFixed_def digits_small digits_large js_def)
  show ?thesis unfolding re rg using f(1,2) v s t by blast
qed

text \<open>
  C10, as the code has it. On the results page the yearly percentage is computed from the
  yearly grade point after it was rounded to two decimals. With \<open>m\<close> the yearly grade
  point of two valid fields as \<^verbatim>\<open>calculateYGPA\<close> returns it, a binary64 value within
  \<open>2 ^ - 48\<close> of the mean of the two parsed numbers, the page shows \<open>m\<close> with two
  decimals, and as percentage the text of \<open>(round2 m - 0.75) * 10\<close>: the number it
  computes is within \<open>2 ^ - 43\<close> of that value, which never changes the two decimals
  shown. The yearly calculator computes the percentage from \<open>m\<close> itself. For some valid
  pairs the two therefore show different yearly percentages for the same fields.
\<close>

theorem results_page_percentage_from_rounded_ygpa:
  assumes "isValidGPA (sgpaOdd_value d)" and "isValidGPA (sgpaEven_value d)"
    and "parseFloat (sgpaOdd_value d) = Fin a" and "parseFloat (sgpaEven_value d) = Fin b"
    and "calculateYGPA (Fin a) (Fin b) = Fin m"
  shows "result_ygpa (updateResultsPage d) = toFixed 2 (Fin m)
    \<and> result_ygpa_percent (updateResultsPage d) = toFixed 2 (Fin ((round2 m - 0.75) * 10))
    \<and> (\<exists>c. js_mul (js_sub (StringToNumber (result_ygpa (updateResultsPage d))) (Fin 0.75)) (Fin 10)
              = Fin c
            \<and> \<bar>c - (round2 m - 0.75) * 10\<bar> \<le> 1 / 2 ^ 43)
    \<and> ygpaValue_textContent (updateYGPACalculation d) = toFixed 2 (Fin m)
    \<and> ygpaPercentage_textContent (updateYGPACalculation d)
        = toFixed 2 (ygpaToPercentage (Fin m)) @ js ''%''
    \<and> (\<exists>p. ygpaToPercentage (Fin m) = Fin p \<and> \<bar>p - (m - 0.75) * 10\<bar> \<le> 1 / 2 ^ 44)
    \<and> \<bar>m - (a + b) / 2\<bar> \<le> 1 / 2 ^ 48
    \<and> (\<exists>e. isValidGPA (sgpaOdd_value e) \<and> isValidGPA (sgpaEven_value e)
          \<and> result_ygpa_percent (updateResultsPage e) @ js ''%''
              \<noteq> ygpaPercentage_textContent (updateYGPACalculation e))"
proof -
  have ne: "sgpaOdd_value d \<noteq> []" "sgpaEven_value d \<noteq> []"
    using assms(1,2) by (simp_all add: isValidGPA_nonempty)
  have ab: "0 \<le> a" "a \<le> 10" "0 \<le> b" "b \<le> 10"
    using isValidGPA_Fin [OF assms(1)] isValidGPA_Fin [OF assms(2)] assms(3,4) by simp_all
  note mean = calculateYGPA_Fin [OF ab]
  have m: "m = roundValue (roundValue (a + b) / 2)" using mean(1) assms(5) by simp
  have mr: "0 \<le> m" "m \<le> 10" "\<bar>m - (a + b) / 2\<bar> \<le> 1 / 2 ^ 48"
    unfolding m using mean(2,3,4) by simp_all
  have cy: "calculateYGPA (parseFloat (sgpaOdd_value d)) (parseFloat (sgpaEven_value d)) = Fin m"
    by (simp add: assms(3,4,5))
  note r = updateResultsPage_rounded [OF ne cy mr(1,2)]
  have u: "ygpaValue_textContent (updateYGPACalculation d) = toFixed 2 (Fin m)"
    "ygpaPercentage_textContent (updateYGPACalculation d)
        = toFixed 2 (ygpaToPercentage (Fin m)) @ js ''%''"
    using assms(1,2) by (simp_all add: updateYGPACalculation_valid Let_def cy)
  have p: "\<exists>p. ygpaToPercentage (Fin m) = Fin p \<and> \<bar>p - (m - 0.75) * 10\<bar> \<le> 1 / 2 ^ 44"
    using percentage_Fin(1,4) [OF mr(1,2)] by (simp add: ygpaToPercentage_def)
  let ?e = "examplePage\<lparr>sgpaOdd_value := js ''8'', sgpaEven_value := js ''8.25''\<rparr>"
  have f: "parseFloat (js ''8'') = Fin 8" "parseFloat (js ''8.25'') = Fin (33 / 4)"
    by (simp_all add: scan_eval round_eval)
  have v: "isValidGPA (js ''8'')" "isValidGPA (js ''8.25'')"
    by (simp_all add: isValidGPA_def f isNaN_def js_ge_def)
  have ve: "isValidGPA (sgpaOdd_value ?e)" "isValidGPA (sgpaEven_value ?e)"
    using v by simp_all
  have nee: "sgpaOdd_value ?e \<noteq> []" "sgpaEven_value ?e \<noteq> []" by (simp_all add: js_def)
  have ce: "calculateYGPA (parseFloat (sgpaOdd_value ?e)) (parseFloat (sgpaEven_value ?e))
      = Fin (65 / 8)"
    by (simp add: f calculateYGPA_def round_eval)
  have t: "toFixed 2 (Fin ((round2 (65 / 8) - 0.75) * 10)) = js ''73.80''"
    "toFixed 2 (Fin (295 / 4)) = js ''73.75''"
    by (simp_all add: round2_def toFixed_def digits_small digits_large js_def)
  have pe: "ygpaToPercentage (Fin (65 / 8)) = Fin (295 / 4)"
    by (simp add: ygpaToPercentage_def js_sub_def round_eval)
  have "(0::rat) \<le> 65 / 8" "(65 / 8 :: rat) \<le> 10" by simp_all
  note re = updateResultsPage_rounded(2) [OF nee ce this]
  have "result_ygpa_percent (updateResultsPage ?e) = js ''73.80''"
    unfolding re t ..
  moreover have "ygpaPercentage_textContent (updateYGPACalculation ?e) = js ''73.75'' @ js ''%''"
    unfolding ygpaPercentage_text_valid [OF ve] ce pe t ..
  ultimately have "result_ygpa_percent (updateResultsPage ?e) @ js ''%''
      \<noteq> ygpaPercentage_textContent (updateYGPACalculation ?e)"
    by (simp add: js_def)
  then show ?thesis using r u p mr(3) ve by blast
qed

theorem results_page_percentage_from_rounded_ygpa_witness:
  "result_ygpa
     (updateResultsPage (examplePage\<lparr>sgpaOdd_value := js ''8'', sgpaEven_value := js ''8.25''\<rparr>))
     = js ''8.13''
   \<and> result_ygpa_percent
     (updateResultsPage (examplePage\<lparr>sgpaOdd_value := js ''8'', sgpaEven_value := js ''8.25''\<rparr>))
     = js ''73.80''
   \<and> ygpaPercentage_textContent
     (updateYGPACalculation (examplePage\<lparr>sgpaOdd_value := js ''8'', sgpaEven_value := js ''8.25''\<rparr>))
     = js ''73.75%''
   \<and> result_ygpa
     (updateResultsPage (examplePage\<lparr>sgpaOdd_value := js ''8'', sgpaEven_value := js ''8.01''\<rparr>))
     = js ''8.00''
   \<and> result_ygpa_percent
     (updateResultsPage (examplePage\<lparr>sgpaOdd_value := js ''8'', sgpaEven_value := js ''8.01''\<rparr>))
     = js ''72.50''
   \<and> ygpaValue_textContent
     (updateYGPACalculation (examplePage\<lparr>sgpaOdd_value := js ''8'', sgpaEven_value := js ''8.01''\<rparr>))
     = js ''8.00''
   \<and> ygpaPercentage_textContent
     (updateYGPACalculation (examplePage\<lparr>sgpaOdd_value := js ''8'', sgpaEven_value := js ''8.01''\<rparr>))
     = js ''72.55%''"
proof -
  let ?e = "examplePage\<lparr>sgpaOdd_value := js ''8'', sgpaEven_value := js ''8.25''\<rparr>"
  let ?g = "examplePage\<lparr>sgpaOdd_value := js ''8'', sgpaEven_value := js ''8.01''\<rparr>"
  have f: "parseFloat (js ''8'') = Fin 8" "parseFloat (js ''8.25'') = Fin (33 / 4)"
    "parseFloat (js ''8.01'') = Fin (4509229126904709 / 562949953421312)"
    by (simp_all add: scan_eval round_eval)
  have v: "isValidGPA (js ''8'')" "isValidGPA (js ''8.25'')" "isValidGPA (js ''8.01'')"
    by (simp_all add: isValidGPA_def f isNaN_def js_ge_def)
  have ve: "isValidGPA (sgpaOdd_value ?e)" "isValidGPA (sgpaEven_value ?e)"
    and vg: "isValidGPA (sgpaOdd_value ?g)" "isValidGPA (sgpaEven_value ?g)"
    using v by simp_all
  have fe: "parseFloat (sgpaOdd_value ?e) = Fin 8" "parseFloat (sgpaEven_value ?e) = Fin (33 / 4)"
    and fg: "parseFloat (sgpaOdd_value ?g) = Fin 8"
      "parseFloat (sgpaEven_value ?g) = Fin (4509229126904709 / 562949953421312)"
    by (simp_all add: f)
  have c: "calculateYGPA (Fin 8) (Fin (33 / 4)) = Fin (65 / 8)"
    "calculateYGPA (Fin 8) (Fin (4509229126904709 / 562949953421312))
       = Fin (2253207188568801 / 281474976710656)"
    by (simp_all add: calculateYGPA_def round_eval)
  have p: "ygpaToPercentage (Fin (65 / 8)) = Fin (295 / 4)"
    "ygpaToPercentage (Fin (2253207188568801 / 281474976710656))
       = Fin (2552626195044761 / 35184372088832)"
    by (simp_all add: ygpaToPercentage_def js_sub_def round_eval)
  have t: "toFixed 2 (Fin (65 / 8)) = js ''8.13''"
    "toFixed 2 (Fin ((round2 (65 / 8) - 0.75) * 10)) = js ''73.80''"
    "toFixed 2 (Fin (295 / 4)) @ js ''%'' = js ''73.75%''"
    "toFixed 2 (Fin (2253207188568801 / 281474976710656)) = js ''8.00''"
    "toFixed 2 (Fin ((round2 (2253207188568801 / 281474976710656) - 0.75) * 10)) = js ''72.50''"
    "toFixed 2 (Fin (2552626195044761 / 35184372088832)) @ js ''%'' = js ''72.55%''"
    by (simp_all add: round2_def toFixed_def digits_small digits_large js_def)
  from results_page_percentage_from_rounded_ygpa [OF ve fe c(1)]
    results_page_percentage_from_rounded_ygpa [OF vg fg c(2)]
  show ?thesis unfolding p t by blast
qed

text \<open>
  C1. The results page is claimed to apply the validity rule of the calculators. It does
  not: it only tests that a field is not empty. With 11 in the single grade-point field,
  which \<^verbatim>\<open>isValidGPA\<close> rejects and for which the calculator shows its placeholder, the
  results page shows 11.00 and 102.50. With 11 and 9 in the term fields the calculator
  shows its placeholders and the results page shows 10.00 and 92.50. For every page, the
  results page shows a value as soon as the text is not empty.
\<close>

theorem updateResultsPage_shows_invalid_grade_point:
  "\<not> isValidGPA (js ''11'')
   \<and> sgpaPercentage_textContent
       (updateSGPACalculation (examplePage\<lparr>sgpaInput_value := js ''11''\<rparr>)) = js ''--%''
   \<and> result_sgpa (updateResultsPage (examplePage\<lparr>sgpaInput_value := js ''11''\<rparr>))
       = js ''11.00''
   \<and> result_sgpa_percent (updateResultsPage (examplePage\<lparr>sgpaInput_value := js ''11''\<rparr>))
       = js ''102.50''
   \<and> ygpaValue_textContent
       (updateYGPACalculation
         (examplePage\<lparr>sgpaOdd_value := js ''11'', sgpaEven_value := js ''9''\<rparr>)) = js ''--''
   \<and> result_ygpa
       (updateResultsPage
         (examplePage\<lparr>sgpaOdd_value := js ''11'', sgpaEven_value := js ''9''\<rparr>)) = js ''10.00''
   \<and> result_ygpa_percent
       (updateResultsPage
         (examplePage\<lparr>sgpaOdd_value := js ''11'', sgpaEven_value := js ''9''\<rparr>)) = js ''92.50''
   \<and> result_sgpa (updateResultsPage d) =
       (if sgpaInput_value d \<noteq> [] then toFixed 2 (parseFloat (sgpaInput_value d)) else js ''-'')
   \<and> result_ygpa (updateResultsPage d) =
       (if sgpaOdd_value d \<noteq> [] \<and> sgpaEven_value d \<noteq> []
        then toFixed 2
               (js_div (js_add (parseFloat (sgpaOdd_value d)) (parseFloat (sgpaEven_value d)))
                  (Fin 2))
        else js ''-'')"
proof -
  let ?s = "examplePage\<lparr>sgpaInput_value := js ''11''\<rparr>"
  let ?y = "examplePage\<lparr>sgpaOdd_value := js ''11'', sgpaEven_value := js ''9''\<rparr>"
  have n: "\<not> isValidGPA (js ''11'')" by (simp add: valid_eval)
  have ne: "js ''11'' \<noteq> []" "js ''9'' \<noteq> []" by (simp_all add: js_def)
  have f: "parseFloat (js ''11'') = Fin 11" "parseFloat (js ''9'') = Fin 9"
    by (simp_all add: scan_eval round_eval)
  have s: "StringToNumber (js ''11'') = Fin 11" "StringToNumber (js ''10.00'') = Fin 10"
    by (simp_all add: StringToNumber_def trimString_def scan_eval round_eval)
  have a: "js_mul (js_sub (Fin 11) (Fin (3 / 4))) (Fin 10) = Fin (205 / 2)"
    "js_mul (js_sub (Fin 10) (Fin (3 / 4))) (Fin 10) = Fin (185 / 2)"
    "js_div (roundNumber 20) (Fin 2) = Fin 10"
    by (simp_all add: js_sub_def round_eval)
  have t: "toFixed 2 (Fin 11) = js ''11.00''" "toFixed 2 (Fin (205 / 2)) = js ''102.50''"
    "toFixed 2 (Fin 10) = js ''10.00''" "toFixed 2 (Fin (185 / 2)) = js ''92.50''"
    by (simp_all add: toFixed_def digits_small digits_large js_def)
  have 1: "sgpaPercentage_textContent (updateSGPACalculation ?s) = js ''--%''"
    using n ne by (simp add: updateSGPACalculation_def)
  have 2: "result_sgpa (updateResultsPage ?s) = js ''11.00''"
    using ne by (simp add: updateResultsPage_sgpa f t)
  have 3: "result_sgpa_percent (updateResultsPage ?s) = js ''102.50''"
    using ne by (simp add: updateResultsPage_sgpa s a t)
  have "\<not> (isValidGPA (sgpaOdd_value ?y) \<and> isValidGPA (sgpaEven_value ?y))"
    using n by simp
  then have 4: "ygpaValue_textContent (updateYGPACalculation ?y) = js ''--''"
    by (simp add: updateYGPACalculation_invalid)
  have 5: "result_ygpa (updateResultsPage ?y) = js ''10.00''"
    using ne by (simp add: updateResultsPage_ygpa(1) f a t)
  have 6: "result_ygpa_percent (updateResultsPage ?y) = js ''92.50''"
    using ne by (simp add: updateResultsPage_ygpa(2) 5 s a t)
  note 7 = updateResultsPage_sgpa(1) [of d] updateResultsPage_ygpa(1) [of d]
  show ?thesis using n 1 2 3 4 5 6 7 by blast
qed

text \<open>
  C6. The performance band is decided by the thresholds 90, 80, 70 and 60. Each of the
  five bands has its own performance text and colour, and each of the four bands from 60
  up has its own congratulation. Below 60, and for \<open>NaN\<close>, the congratulation block is
  emptied and only the neutral encouragement is shown. 85 falls in the band of
  \<^verbatim>\<open>Excellent\<close>, 55 in the lowest band. On the results page the band is taken from the
  percentage that the page shows.
\<close>

theorem performance_bands:
  "performance_text (updatePerformanceText (Fin p) d) =
     (if 90 \<le> p then [11088] @ js '' Outstanding - Exceptional performance!''
      else if 80 \<le> p then [10024] @ js '' Excellent - Keep it up!''
      else if 70 \<le> p then [55357, 56397] @ js '' Good - On the right track!''
      else if 60 \<le> p then [55357, 56520] @ js '' Satisfactory - Room for improvement!''
      else [55357, 56490] @ js '' Keep pushing forward!'')
   \<and> performance_text_color (updatePerformanceText (Fin p) d) =
     (if 90 \<le> p then js ''#00f5ff''
      else if 80 \<le> p then js ''#7eb3ff''
      else if 70 \<le> p then js ''#a8e6cf''
      else if 60 \<le> p then js ''#ffd93d''
      else js ''#ff6b6b'')
   \<and> congratulations_innerHTML (showCongratulations (Fin p) d) =
     (if 90 \<le> p then
        congratulationsTemplate
          ([55356, 57119] @ js '' Outstanding Performance! '' @ [55356, 57119])
          ([55356, 57225] @ js '' '' @ [11088] @ js '' '' @ [55356, 57286]) (Fin p)
      else if 80 \<le> p then
        congratulationsTemplate
          ([55356, 57226] @ js '' Excellent Work! '' @ [55356, 57226])
          ([55356, 57225] @ js '' '' @ [10024] @ js '' '' @ [55357, 56399]) (Fin p)
      else if 70 \<le> p then
        congratulationsTemplate
          ([55357, 56397] @ js '' Great Job! '' @ [55357, 56397])
          ([55357, 56842] @ js '' '' @ [55357, 56490] @ js '' '' @ [55357, 56399]) (Fin p)
      else if 60 \<le> p then
        congratulationsTemplate
          ([55357, 56520] @ js '' Good Effort! Keep Improving '' @ [55357, 56520])
          ([55357, 56491] @ js '' '' @ [55357, 56960] @ js '' '' @ [55356, 57263]) (Fin p)
      else [])
   \<and> distinct
       [[11088] @ js '' Outstanding - Exceptional performance!'',
        [10024] @ js '' Excellent - Keep it up!'',
        [55357, 56397] @ js '' Good - On the right track!'',
        [55357, 56520] @ js '' Satisfactory - Room for improvement!'',
        [55357, 56490] @ js '' Keep pushing forward!'']
   \<and> distinct [js ''#00f5ff'', js ''#7eb3ff'', js ''#a8e6cf'', js ''#ffd93d'', js ''#ff6b6b'']
   \<and> distinct
       [[55356, 57119] @ js '' Outstanding Performance! '' @ [55356, 57119],
        [55356, 57226] @ js '' Excellent Work! '' @ [55356, 57226],
        [55357, 56397] @ js '' Great Job! '' @ [55357, 56397],
        [55357, 56520] @ js '' Good Effort! Keep Improving '' @ [55357, 56520]]
   \<and> congratulationsTemplate message emojis x \<noteq> []
   \<and> performance_text (updatePerformanceText NaN d) = [55357, 56490] @ js '' Keep pushing forward!''
   \<and> congratulations_innerHTML (showCongratulations NaN d) = []
   \<and> performance_text (updatePerformanceText (Fin 85) d) = [10024] @ js '' Excellent - Keep it up!''
   \<and> congratulations_innerHTML (showCongratulations (Fin 85) d) =
       congratulationsTemplate
         ([55356, 57226] @ js '' Excellent Work! '' @ [55356, 57226])
         ([55356, 57225] @ js '' '' @ [10024] @ js '' '' @ [55357, 56399]) (Fin 85)
   \<and> performance_text (updatePerformanceText (Fin 55) d) = [55357, 56490] @ js '' Keep pushing forward!''
   \<and> congratulations_innerHTML (showCongratulations (Fin 55) d) = []
   \<and> performance_text (updateResultsPage d) =
       (if sgpaOdd_value d \<noteq> [] \<and> sgpaEven_value d \<noteq> []
        then performance_text
               (updatePerformanceText (parseFloat (result_ygpa_percent (updateResultsPage d))) d)
        else js ''Ready to calculate...'')
   \<and> congratulations_innerHTML (updateResultsPage d) =
       (if sgpaOdd_value d \<noteq> [] \<and> sgpaEven_value d \<noteq> []
        then congratulations_innerHTML
               (showCongratulations (parseFloat (result_ygpa_percent (updateResultsPage d))) d)
        else [])"
proof -
  have 1: "performance_text (updatePerformanceText (Fin p) d) =
     (if 90 \<le> p then [11088] @ js '' Outstanding - Exceptional performance!''
      else if 80 \<le> p then [10024] @ js '' Excellent - Keep it up!''
      else if 70 \<le> p then [55357, 56397] @ js '' Good - On the right track!''
      else if 60 \<le> p then [55357, 56520] @ js '' Satisfactory - Room for improvement!''
      else [55357, 56490] @ js '' Keep pushing forward!'')" for p
    by (simp add: updatePerformanceText_def js_ge_def)
  have 2: "performance_text_color (updatePerformanceText (Fin p) d) =
     (if 90 \<le> p then js ''#00f5ff''
      else if 80 \<le> p then js ''#7eb3ff''
      else if 70 \<le> p then js ''#a8e6cf''
      else if 60 \<le> p then js ''#ffd93d''
      else js ''#ff6b6b'')"
    by (simp add: updatePerformanceText_def js_ge_def)
  have 3: "congratulations_innerHTML (showCongratulations (Fin p) d) =
     (if 90 \<le> p then
        congratulationsTemplate
          ([55356, 57119] @ js '' Outstanding Performance! '' @ [55356, 57119])
          ([55356, 57225] @ js '' '' @ [11088] @ js '' '' @ [55356, 57286]) (Fin p)
      else if 80 \<le> p then
        congratulationsTemplate
          ([55356, 57226] @ js '' Excellent Work! '' @ [55356, 57226])
          ([55356, 57225] @ js '' '' @ [10024] @ js '' '' @ [55357, 56399]) (Fin p)
      else if 70 \<le> p then
        congratulationsTemplate
          ([55357, 56397] @ js '' Great Job! '' @ [55357, 56397])
          ([55357, 56842] @ js '' '' @ [55357, 56490] @ js '' '' @ [55357, 56399]) (Fin p)
      else if 60 \<le> p then
        congratulationsTemplate
          ([55357, 56520] @ js '' Good Effort! Keep Improving '' @ [55357, 56520])
          ([55357, 56491] @ js '' '' @ [55357, 56960] @ js '' '' @ [55356, 57263]) (Fin p)
      else [])" for p
    by (simp add: showCongratulations_def js_ge_def)
  have 4: "distinct
       [[11088] @ js '' Outstanding - Exceptional performance!'',
        [10024] @ js '' Excellent - Keep it up!'',
        [55357, 56397] @ js '' Good - On the right track!'',
        [55357, 56520] @ js '' Satisfactory - Room for improvement!'',
        [55357, 56490] @ js '' Keep pushing forward!'']"
    by simp
  have 5: "distinct [js ''#00f5ff'', js ''#7eb3ff'', js ''#a8e6cf'', js ''#ffd93d'', js ''#ff6b6b'']"
    by (simp add: js_def)
  have 6: "distinct
       [[55356, 57119] @ js '' Outstanding Performance! '' @ [55356, 57119],
        [55356, 57226] @ js '' Excellent Work! '' @ [55356, 57226],
        [55357, 56397] @ js '' Great Job! '' @ [55357, 56397],
        [55357, 56520] @ js '' Good Effort! Keep Improving '' @ [55357, 56520]]"
    by simp
  have 7: "congratulationsTemplate message emojis x \<noteq> []"
    by (simp add: congratulationsTemplate_def)
  have 8: "performance_text (updatePerformanceText NaN d) = [55357, 56490] @ js '' Keep pushing forward!''"
    by (simp add: updatePerformanceText_def js_ge_def)
  have 9: "congratulations_innerHTML (showCongratulations NaN d) = []"
    by (simp add: showCongratulations_def js_ge_def)
  have 10: "performance_text (updateResultsPage d) =
       (if sgpaOdd_value d \<noteq> [] \<and> sgpaEven_value d \<noteq> []
        then performance_text
               (updatePerformanceText (parseFloat (result_ygpa_percent (updateResultsPage d))) d)
        else js ''Ready to calculate...'')"
    by (simp add: updateResultsPage_def Let_def updatePerformanceText_def)
  have 11: "congratulations_innerHTML (updateResultsPage d) =
       (if sgpaOdd_value d \<noteq> [] \<and> sgpaEven_value d \<noteq> []
        then congratulations_innerHTML
               (showCongratulations (parseFloat (result_ygpa_percent (updateResultsPage d))) d)
        else [])"
    by (simp add: updateResultsPage_def Let_def showCongratulations_def)
  show ?thesis
    unfolding 1 2 3 8 9 10 [symmetric] 11 [symmetric] using 4 5 6 7 by simp
qed

section \<open>The core functions never raise\<close>

text \<open>Outside their input domain the functions can raise.\<close>

lemma core_functions_raise_on_other_values:
  "isValidGPA_any JSSymbol = Inl TypeError"
  "sgpaToPercentage_any JSSymbol = Inl TypeError"
  "sgpaToPercentage_any (JSBigInt 7) = Inl TypeError"
  "ygpaToPercentage_any (JSBigInt 7) = Inl TypeError"
  "calculateYGPA_any (JSBigInt 8) (JSNumber (Fin 9)) = Inl TypeError"
  "calculateYGPA_any (JSBigInt 8) (JSBigInt 9) = Inl TypeError"
  by (simp_all add: isValidGPA_any_def sgpaToPercentage_any_def ygpaToPercentage_any_def
      calculateYGPA_any_def js_plus_def isString_def ToString_def ToNumber_def ToNumeric_def)

text \<open>
  C8. Every core function returns normally on its input domain: the validator on every
  string, also the empty one, text without a number and text out of range, for which it
  returns false; the conversions on every number, \<open>NaN\<close> and the infinities included.
  There they agree with the functions defined at those types.
\<close>

theorem core_functions_never_raise:
  "isValidGPA_any (JSString raw) = Inr (isValidGPA raw)
   \<and> sgpaToPercentage_any (JSNumber x) = Inr (JSNumber (sgpaToPercentage x))
   \<and> ygpaToPercentage_any (JSNumber x) = Inr (JSNumber (ygpaToPercentage x))
   \<and> calculateYGPA_any (JSNumber x) (JSNumber y) = Inr (JSNumber (calculateYGPA x y))
   \<and> isValidGPA_any (JSString (js '''')) = Inr False
   \<and> isValidGPA_any (JSString (js ''abc'')) = Inr False
   \<and> isValidGPA_any (JSString (js ''10.01'')) = Inr False
   \<and> isValidGPA_any (JSString (js ''-0.1'')) = Inr False"
proof -
  have v: "isValidGPA_any (JSString s) = Inr (isValidGPA s)" for s
    by (simp add: isValidGPA_any_def ToString_def isValidGPA_def)
  have "\<not> isValidGPA (js '''')" "\<not> isValidGPA (js ''abc'')" "\<not> isValidGPA (js ''10.01'')"
    "\<not> isValidGPA (js ''-0.1'')"
    by (simp_all add: valid_eval)
  then show ?thesis
    by (simp add: v sgpaToPercentage_any_def ygpaToPercentage_any_def calculateYGPA_any_def
        js_plus_def isString_def ToNumber_def ToNumeric_def sgpaToPercentage_def
        ygpaToPercentage_def calculateYGPA_def)
qed
end
